(* ===== verification/Prelude.thy ===== *)
theory Prelude
  imports Main
begin

text \<open>
  Shared vocabulary of the attendance development.  The TypeScript sources lean on a
  handful of JavaScript built-ins (\<open>String.prototype.split\<close>, \<open>join\<close>, \<open>trim\<close>,
  \<open>startsWith\<close>, \<open>includes\<close>, \<open>toUpperCase\<close>, template literals that print a
  number, array indexing that yields \<open>undefined\<close> out of range).  They are not code of
  the repository, so they are modelled here once, from the ECMAScript behaviour, on
  \<open>string = char list\<close> (one \<open>char\<close> per UTF-16 code unit of an ASCII text), together
  with the lemmas the components share: split/join round trips, trimming, and the
  injectivity of the decimal rendering of \<open>Date.now()\<close> on which identifiers rest.
\<close>

named_theorems js_simps \<open>evaluation rules of the JavaScript built-ins\<close>

subsection \<open>Array indexing: \<open>xs[i]\<close> is \<open>undefined\<close> out of range\<close>

definition js_index :: "'a list \<Rightarrow> nat \<Rightarrow> 'a option" where
  "js_index xs i = (if i < length xs then Some (xs ! i) else None)"

lemma js_index_Cons_0 [simp, js_simps]: "js_index (x # xs) 0 = Some x"
  by (simp add: js_index_def)

lemma js_index_Cons_Suc [simp, js_simps]: "js_index (x # xs) (Suc i) = js_index xs i"
  by (simp add: js_index_def)

lemma js_index_Nil [simp, js_simps]: "js_index [] i = None"
  by (simp add: js_index_def)

subsection \<open>\<open>s.split(c)\<close> for a one-character separator, and \<open>parts.join(sep)\<close>\<close>

text \<open>
  \<open>"".split(",")\<close> is \<open>[""]\<close>, and a separator at either end or twice in a row yields
  empty parts: the result always has one part more than there are separators.
\<close>

fun js_split :: "char \<Rightarrow> string \<Rightarrow> string list" where
  "js_split c [] = [[]]"
| "js_split c (x # xs) =
     (if x = c then [] # js_split c xs
      else (case js_split c xs of [] \<Rightarrow> [[x]] | p # ps \<Rightarrow> (x # p) # ps))"

fun js_join :: "string \<Rightarrow> string list \<Rightarrow> string" where
  "js_join sep [] = []"
| "js_join sep [p] = p"
| "js_join sep (p # q # ps) = p @ sep @ js_join sep (q # ps)"

lemma js_split_not_Nil [simp]: "js_split c s \<noteq> []"
  by (induction s) (auto split: list.split)

lemma js_split_no_sep [simp]: "c \<notin> set s \<Longrightarrow> js_split c s = [s]"
  by (induction s) auto

lemma js_split_length: "length (js_split c s) = Suc (count_list s c)"
  by (induction s) (auto split: list.split)

lemma js_split_parts_sep_free: "p \<in> set (js_split c s) \<Longrightarrow> c \<notin> set p"
proof (induction s arbitrary: p)
  case Nil
  then show ?case by simp
next
  case (Cons x xs)
  then show ?case
    by (cases "js_split c xs") (auto split: if_splits)
qed

text \<open>Round trip: joining the parts with the separator gives back the string.\<close>

lemma js_join_js_split: "js_join [c] (js_split c s) = s"
proof (induction s)
  case Nil
  then show ?case by simp
next
  case (Cons x xs)
  show ?case
  proof (cases "js_split c xs")
    case Nil
    then show ?thesis by simp
  next
    case (Cons p ps)
    with Cons.IH show ?thesis by (cases ps) auto
  qed
qed

lemma js_split_Cons_sep_free:
  "c \<notin> set p \<Longrightarrow> js_split c (p @ c # s) = p # js_split c s"
  by (induction p) auto

text \<open>The other direction: splitting a join of separator-free parts gives the parts.\<close>

lemma js_split_js_join:
  "ps \<noteq> [] \<Longrightarrow> (\<forall>p \<in> set ps. c \<notin> set p) \<Longrightarrow> js_split c (js_join [c] ps) = ps"
proof (induction "[c]" ps rule: js_join.induct)
  case (2 p)
  then show ?case by simp
next
  case (3 p q ps)
  then show ?case by (simp add: js_split_Cons_sep_free)
qed simp

text \<open>The first part is the text before the first separator.\<close>

lemma js_split_hd: "hd (js_split c s) = takeWhile (\<lambda>x. x \<noteq> c) s"
  by (induction s) (auto split: list.split)

lemma js_split_second:
  "js_index (js_split c s) 1 =
     (if c \<in> set s then Some (hd (js_split c (tl (dropWhile (\<lambda>x. x \<noteq> c) s)))) else None)"
proof (induction s)
  case Nil
  then show ?case by simp
next
  case (Cons x xs)
  then show ?case
    by (cases "js_split c xs") (auto simp: js_index_def split: if_splits)
qed

subsection \<open>\<open>includes\<close>, \<open>startsWith\<close>, \<open>trim\<close>, \<open>toUpperCase\<close>\<close>

definition js_includes :: "string \<Rightarrow> char \<Rightarrow> bool" where
  "js_includes s c \<longleftrightarrow> c \<in> set s"

definition js_starts_with :: "string \<Rightarrow> string \<Rightarrow> bool" where
  "js_starts_with s p \<longleftrightarrow> take (length p) s = p"

text \<open>\<open>String.prototype.trim\<close> strips white space and line terminators at both ends;
  on ASCII these are TAB, LF, VT, FF, CR and SPACE.\<close>

definition js_is_space :: "char \<Rightarrow> bool" where
  "js_is_space c \<longleftrightarrow> of_char c \<in> {9, 10, 11, 12, 13, 32 :: nat}"

definition js_trim :: "string \<Rightarrow> string" where
  "js_trim s = rev (dropWhile js_is_space (rev (dropWhile js_is_space s)))"

definition js_upper_char :: "char \<Rightarrow> char" where
  "js_upper_char c =
     (if 97 \<le> (of_char c :: nat) \<and> (of_char c :: nat) \<le> 122 then char_of (of_char c - (32 :: nat)) else c)"

definition js_to_upper :: "string \<Rightarrow> string" where
  "js_to_upper s = map js_upper_char s"

lemma js_trim_ends:
  assumes "js_trim s = t # ts"
  shows "\<not> js_is_space t" and "\<not> js_is_space (last (t # ts))"
proof -
  let ?a = "dropWhile js_is_space s"
  let ?d = "dropWhile js_is_space (rev ?a)"
  have r: "rev ?d = t # ts"
    using assms by (simp add: js_trim_def)
  then have ne: "?d \<noteq> []" by auto
  then have hd_d: "\<not> js_is_space (hd ?d)"
    by (simp add: hd_dropWhile)
  have "last (t # ts) = last (rev ?d)" using r by simp
  also have "\<dots> = hd ?d" by (rule last_rev)
  finally show "\<not> js_is_space (last (t # ts))" using hd_d by simp
  have "?a \<noteq> []" using ne by (metis Nil_is_rev_conv dropWhile.simps(1))
  then have hd_a: "\<not> js_is_space (hd ?a)" by (simp add: hd_dropWhile)
  have "rev ?a = takeWhile js_is_space (rev ?a) @ ?d" by simp
  then have "last (rev ?a) = last ?d" using ne by (metis last_append)
  then have "last ?d = hd ?a" by (simp add: last_rev)
  moreover have "t = last ?d" using r ne by (metis hd_rev list.sel(1))
  ultimately show "\<not> js_is_space t" using hd_a by simp
qed

lemma js_trim_no_space [simp]: "(\<forall>x \<in> set s. \<not> js_is_space x) \<Longrightarrow> js_trim s = s"
proof -
  assume a: "\<forall>x \<in> set s. \<not> js_is_space x"
  then have "dropWhile js_is_space s = s" by (cases s) auto
  moreover have "dropWhile js_is_space (rev s) = rev s"
    using a by (cases "rev s") (auto dest: arg_cong[where f = set])
  ultimately show ?thesis by (simp add: js_trim_def)
qed

subsection \<open>Template literals: the decimal text of a non-negative integer\<close>

definition digit_char :: "nat \<Rightarrow> char" where
  "digit_char d = char_of (48 + d)"

fun js_nat_string :: "nat \<Rightarrow> string" where
  "js_nat_string n =
     (if n < 10 then [digit_char n] else js_nat_string (n div 10) @ [digit_char (n mod 10)])"

declare js_nat_string.simps [simp del]

text \<open>The reader used to state the round trip: the value of a string of decimal digits.\<close>

definition digit_value :: "char \<Rightarrow> nat" where
  "digit_value c = of_char c - 48"

definition read_decimal :: "string \<Rightarrow> nat" where
  "read_decimal s = foldl (\<lambda>acc c. 10 * acc + digit_value c) 0 s"

lemma digit_value_digit_char [simp]: "d < 10 \<Longrightarrow> digit_value (digit_char d) = d"
  by (simp add: digit_value_def digit_char_def)

lemma read_decimal_snoc [simp]: "read_decimal (s @ [c]) = 10 * read_decimal s + digit_value c"
  by (simp add: read_decimal_def)

lemma read_decimal_js_nat_string [simp]: "read_decimal (js_nat_string n) = n"
proof (induction n rule: js_nat_string.induct)
  case (1 n)
  show ?case
  proof (cases "n < 10")
    case True
    then show ?thesis
      by (simp add: js_nat_string.simps [of n] read_decimal_def)
  next
    case False
    with "1.IH" show ?thesis
      by (simp add: js_nat_string.simps [of n])
  qed
qed

lemma js_nat_string_inj: "js_nat_string m = js_nat_string n \<longleftrightarrow> m = n"
  by (metis read_decimal_js_nat_string)

lemma js_nat_string_not_Nil [simp]: "js_nat_string n \<noteq> []"
  by (subst js_nat_string.simps) simp

subsection \<open>Data URLs\<close>

text \<open>The text \<open>FileReader.readAsDataURL\<close> and \<open>canvas.toDataURL\<close> produce for a
  base64-encoded image.\<close>

definition dataUrl :: "string \<Rightarrow> string \<Rightarrow> string" where
  "dataUrl mime payload = ''data:'' @ mime @ '';base64,'' @ payload"

end
