(* ===== verification/Types.thy ===== *)
theory Types
  imports Prelude
begin

text \<open>
  The data model of \<open>src/types.ts\<close>: a student profile, the form data of a student
  (the profile without its identifier) and an attendance record, together with the
  reading of the browser clock that the handlers of \<open>src/App.tsx\<close> take from
  \<open>new Date()\<close> and \<open>Date.now()\<close>.
\<close>

text \<open>\<open>StudentFormData = Omit<Student, 'id'>\<close>: a student is its form data extended with
  the identifier, so that \<open>Omit\<close> is the record's truncation.  The TypeScript field
  \<open>id\<close> is called \<open>sid\<close> here, since \<open>id\<close> is the identity function of HOL.\<close>

record StudentFormData =
  name :: string
  rollNumber :: string
  phoneNumber :: string
  imageUrl :: string

record Student = StudentFormData +
  sid :: string

text \<open>\<open>status: 'Present'\<close> is a one-value literal type.\<close>

datatype AttendanceStatus = Present

record AttendanceRecord =
  recordId :: string
  studentId :: string
  studentName :: string
  date :: string
  time :: string
  status :: AttendanceStatus

text \<open>
  One reading of the browser clock: \<open>Date.now()\<close> in milliseconds, and the local date
  (\<open>toLocaleDateString('en-CA')\<close>, \<open>YYYY-MM-DD\<close>) and time
  (\<open>toLocaleTimeString\<close> with hours and minutes) of the same instant.  The date and
  time texts come from the environment and are kept as given.
\<close>

record Clock =
  now_ms :: nat
  locale_date :: string
  locale_time :: string

definition student_of_form :: "string \<Rightarrow> StudentFormData \<Rightarrow> Student" where
  "student_of_form i d =
     \<lparr>name = name d, rollNumber = rollNumber d, phoneNumber = phoneNumber d,
      imageUrl = imageUrl d, sid = i\<rparr>"

lemma student_of_form_sel [simp]:
  "sid (student_of_form i d) = i" "name (student_of_form i d) = name d"
  "rollNumber (student_of_form i d) = rollNumber d"
  "phoneNumber (student_of_form i d) = phoneNumber d"
  "imageUrl (student_of_form i d) = imageUrl d"
  by (simp_all add: student_of_form_def)

end
