(* ===== verification/Oracle.thy ===== *)
theory Oracle
  imports Types
begin

text \<open>
  The recognition oracle client, \<open>recognizeStudentFace\<close> of
  \<open>src/services/geminiService.ts\<close>.  It short-circuits to \<open>null\<close> without a remote
  call when there is no API key or no student; otherwise it builds one request (an
  instruction, the live frame, and for every student whose \<open>imageUrl\<close> is a data URL
  a tag \<open>Student ID: \<dots>\<close> and the image), sends it, trims the reply, and looks the
  reply up among the students.  Every exception is caught and becomes \<open>null\<close>.

  The remote model is a parameter \<open>oracle :: GenerateRequest \<Rightarrow> string option\<close>:
  \<open>Some text\<close> is \<open>response.text\<close>, \<open>None\<close> is any failure of the call or of
  reading its text (a rejected promise, an exception of the client, an undefined
  \<open>text\<close>), which the \<open>catch\<close> turns into \<open>null\<close> like every other failure.
\<close>

subsection \<open>The request\<close>

text \<open>The request's parts: \<open>{ text }\<close> or \<open>{ inlineData: { mimeType, data } }\<close>.\<close>

datatype Part = TextPart string | InlineData string string

record GenerateRequest =
  model :: string
  parts :: "Part list"

definition instructionText :: string where
  "instructionText =
     ''You are a highly accurate face recognition system. Your task is to identify if the person in the 'LIVE_FRAME' image matches any of the provided 'STUDENT_PROFILE' images. Compare the face in the LIVE_FRAME to each student's profile. Respond with ONLY the matching student's ID (e.g., 's001'). If no confident match is found, respond with 'NONE'.''"

definition questionText :: string where
  "questionText =
     ''Question: Based on the images, which student ID does the person in LIVE_FRAME match? Respond with only the ID or 'NONE'.''"

text \<open>\<open>imageUrl.split(',')[1]\<close>: the payload of a data URL.  It is read only under the
  guard \<open>imageUrl.includes(',')\<close>, where the index exists; the empty text stands for
  the \<open>undefined\<close> of the other case, which is never read.\<close>

definition dataUrlPayload :: "string \<Rightarrow> string" where
  "dataUrlPayload url = (case js_index (js_split (CHR '','') url) 1 of Some d \<Rightarrow> d | None \<Rightarrow> [])"

text \<open>\<open>imageUrl.split(';')[0].split(':')[1] || 'image/jpeg'\<close>: an absent or empty
  media type falls back to JPEG.\<close>

definition dataUrlMime :: "string \<Rightarrow> string" where
  "dataUrlMime url =
     (case js_index (js_split (CHR '':'') (hd (js_split (CHR '';'') url))) 1 of
        Some m \<Rightarrow> if m = [] then ''image/jpeg'' else m
      | None \<Rightarrow> ''image/jpeg'')"

text \<open>The body of \<open>students.forEach\<close>: two parts for a student whose image is a data URL,
  none for any other.\<close>

definition studentParts :: "Student \<Rightarrow> Part list" where
  "studentParts student =
     (if imageUrl student \<noteq> [] \<and> js_includes (imageUrl student) (CHR '','')
      then [TextPart (''Student ID: '' @ sid student),
            InlineData (dataUrlMime (imageUrl student)) (dataUrlPayload (imageUrl student))]
      else [])"

definition buildParts :: "string \<Rightarrow> Student list \<Rightarrow> Part list" where
  "buildParts liveFrameBase64 students =
     [TextPart instructionText, TextPart ''--- START OF DATA ---'', TextPart ''LIVE_FRAME:'',
      InlineData ''image/jpeg'' liveFrameBase64, TextPart ''STUDENT_PROFILES:'']
     @ concat (map studentParts students)
     @ [TextPart ''--- END OF DATA ---'', TextPart questionText]"

text \<open>\<open>!process.env.API_KEY\<close>: an unset or empty key.\<close>

definition apiKeyPresent :: "string option \<Rightarrow> bool" where
  "apiKeyPresent key = (case key of None \<Rightarrow> False | Some k \<Rightarrow> k \<noteq> [])"

text \<open>The remote call the client issues, if any.\<close>

definition oracleRequest :: "string option \<Rightarrow> string \<Rightarrow> Student list \<Rightarrow> GenerateRequest option" where
  "oracleRequest key liveFrameBase64 students =
     (if \<not> apiKeyPresent key \<or> students = [] then None
      else Some \<lparr>model = ''gemini-2.5-flash'', parts = buildParts liveFrameBase64 students\<rparr>)"

subsection \<open>The reply\<close>

definition interpretReply :: "Student list \<Rightarrow> string option \<Rightarrow> Student option" where
  "interpretReply students reply =
     (case reply of
        None \<Rightarrow> None
      | Some text \<Rightarrow>
          (let recognizedId = js_trim text
           in if recognizedId = ''NONE'' \<or> \<not> js_starts_with recognizedId ''s'' then None
              else find (\<lambda>s. sid s = recognizedId) students))"

definition recognizeStudentFace ::
  "string option \<Rightarrow> string \<Rightarrow> Student list \<Rightarrow> (GenerateRequest \<Rightarrow> string option) \<Rightarrow> Student option" where
  "recognizeStudentFace key liveFrameBase64 students oracle =
     (case oracleRequest key liveFrameBase64 students of
        None \<Rightarrow> None
      | Some request \<Rightarrow> interpretReply students (oracle request))"

lemmas oracle_defs = recognizeStudentFace_def oracleRequest_def interpretReply_def

lemma find_Some_in_set: "find P xs = Some x \<Longrightarrow> x \<in> set xs \<and> P x"
  by (induction xs) (auto split: if_splits)

lemma find_distinct_key:
  "x \<in> set xs \<Longrightarrow> distinct (map f xs) \<Longrightarrow> find (\<lambda>y. f y = f x) xs = Some x"
  by (induction xs) (auto simp: image_iff)

lemma starts_with_s_not_NONE: "js_starts_with t ''s'' \<Longrightarrow> t \<noteq> ''NONE''"
  by (auto simp: js_starts_with_def)

lemma js_split_dataUrl_semicolon:
  assumes "CHR '';'' \<notin> set mime"
  shows "hd (js_split (CHR '';'') (dataUrl mime payload)) = ''data:'' @ mime"
proof -
  have eq: "dataUrl mime payload = (''data:'' @ mime) @ CHR '';'' # (''base64,'' @ payload)"
    by (simp add: dataUrl_def)
  have nc: "CHR '';'' \<notin> set (''data:'' @ mime)" using assms by simp
  show ?thesis unfolding eq js_split_Cons_sep_free [OF nc] by (rule list.sel(1))
qed

lemma dataUrl_mime_roundtrip:
  assumes "mime \<noteq> []" "CHR '';'' \<notin> set mime" "CHR '':'' \<notin> set mime"
  shows "dataUrlMime (dataUrl mime payload) = mime"
proof -
  have "js_split (CHR '':'') (''data'' @ CHR '':'' # mime) = ''data'' # js_split (CHR '':'') mime"
    by (rule js_split_Cons_sep_free) simp
  also have "\<dots> = [''data'', mime]" using assms(3) by simp
  finally show ?thesis
    using assms by (simp add: dataUrlMime_def js_split_dataUrl_semicolon)
qed

lemma dataUrl_payload_roundtrip:
  assumes "CHR '','' \<notin> set mime" "CHR '','' \<notin> set payload"
  shows "dataUrlPayload (dataUrl mime payload) = payload"
proof -
  have eq: "dataUrl mime payload = (''data:'' @ mime @ '';base64'') @ CHR '','' # payload"
    by (simp add: dataUrl_def)
  have nc: "CHR '','' \<notin> set (''data:'' @ mime @ '';base64'')" using assms by simp
  have "js_split (CHR '','') (dataUrl mime payload) =
      (''data:'' @ mime @ '';base64'') # js_split (CHR '','') payload"
    unfolding eq by (rule js_split_Cons_sep_free [OF nc])
  also have "\<dots> = [''data:'' @ mime @ '';base64'', payload]" using assms(2) by simp
  finally show ?thesis by (simp add: dataUrlPayload_def)
qed

lemma NONE_not_starts_with_s: "\<not> js_starts_with ''NONE'' ''s''"
  by (simp add: js_starts_with_def)

lemma studentParts_dataUrl:
  assumes "imageUrl st = dataUrl mime payload"
    "mime \<noteq> []" "CHR '';'' \<notin> set mime" "CHR '':'' \<notin> set mime" "CHR '','' \<notin> set mime"
    "CHR '','' \<notin> set payload"
  shows "studentParts st = [TextPart (''Student ID: '' @ sid st), InlineData mime payload]"
  using assms dataUrl_mime_roundtrip dataUrl_payload_roundtrip
  by (simp add: studentParts_def js_includes_def dataUrl_def)

lemma oracleRequest_student_split:
  assumes "apiKeyPresent key" "students = xs @ st # ys"
  shows "\<exists>request pre post. oracleRequest key frame students = Some request \<and>
           parts request = pre @ studentParts st @ post"
proof -
  let ?pre = "[TextPart instructionText, TextPart ''--- START OF DATA ---'', TextPart ''LIVE_FRAME:'',
      InlineData ''image/jpeg'' frame, TextPart ''STUDENT_PROFILES:''] @ concat (map studentParts xs)"
  let ?post = "concat (map studentParts ys) @ [TextPart ''--- END OF DATA ---'', TextPart questionText]"
  have "oracleRequest key frame students =
          Some \<lparr>model = ''gemini-2.5-flash'', parts = ?pre @ studentParts st @ ?post\<rparr>"
    using assms by (simp add: oracleRequest_def buildParts_def)
  moreover have "parts \<lparr>model = ''gemini-2.5-flash'', parts = ?pre @ studentParts st @ ?post\<rparr> =
      ?pre @ studentParts st @ ?post"
    by (rule GenerateRequest.select_convs(2))
  ultimately show ?thesis by blast
qed

subsection \<open>Properties\<close>

text \<open>Claim C23: with no API key, or with an empty roster, the client issues no remote
  request and answers \<open>null\<close>, whatever the oracle would have said.\<close>

theorem recognize_short_circuit:
  assumes "\<not> apiKeyPresent key \<or> students = []"
  shows "oracleRequest key frame students = None \<and> recognizeStudentFace key frame students oracle = None"
  using assms by (auto simp: oracle_defs)

theorem recognize_short_circuit_witness:
  "oracleRequest (Some ''key'') ''frame'' [] = None \<and>
   recognizeStudentFace (Some ''key'') ''frame'' [] (\<lambda>_. Some ''s1'') = None"
  using recognize_short_circuit [of "Some ''key''" "[]" "''frame''" "\<lambda>_. Some ''s1''"] by simp

text \<open>Claim C21: a student the client returns is one of the roster it was given, the remote
  call was made and answered, the trimmed answer is exactly the student's identifier,
  and that identifier starts with \<open>s\<close>.\<close>

theorem recognize_sound:
  assumes "recognizeStudentFace key frame students oracle = Some st"
  shows "st \<in> set students \<and> js_starts_with (sid st) ''s'' \<and>
         (\<exists>text. oracle \<lparr>model = ''gemini-2.5-flash'', parts = buildParts frame students\<rparr> = Some text
                 \<and> js_trim text = sid st)"
  using assms
  by (auto simp: oracle_defs Let_def split: if_splits option.splits dest: find_Some_in_set)

theorem recognize_sound_witness:
  "recognizeStudentFace (Some ''key'') ''frame'' [\<lparr>name = ''Ann'', rollNumber = ''7'', phoneNumber = ''555'', imageUrl = ''data:image/png;base64,QUJD'', sid = ''s1''\<rparr>] (\<lambda>_. Some '' s1 '') = Some \<lparr>name = ''Ann'', rollNumber = ''7'', phoneNumber = ''555'', imageUrl = ''data:image/png;base64,QUJD'', sid = ''s1''\<rparr> \<and>
   js_starts_with ''s1'' ''s''"
proof -
  have r: "recognizeStudentFace (Some ''key'') ''frame'' [\<lparr>name = ''Ann'', rollNumber = ''7'', phoneNumber = ''555'', imageUrl = ''data:image/png;base64,QUJD'', sid = ''s1''\<rparr>] (\<lambda>_. Some '' s1 '') = Some \<lparr>name = ''Ann'', rollNumber = ''7'', phoneNumber = ''555'', imageUrl = ''data:image/png;base64,QUJD'', sid = ''s1''\<rparr>"
    by (simp add: oracle_defs apiKeyPresent_def js_trim_def js_is_space_def js_starts_with_def)
  show ?thesis using r recognize_sound [OF r] by simp
qed

text \<open>Claim C22: when the key is set, the roster has distinct identifiers, and the oracle
  answers with the identifier of a roster student (an identifier starting with \<open>s\<close>),
  surrounded by any white space, the client returns that student.\<close>

theorem recognize_complete:
  assumes "apiKeyPresent key" "st \<in> set students" "distinct (map sid students)"
    "js_starts_with (sid st) ''s''"
    "oracle \<lparr>model = ''gemini-2.5-flash'', parts = buildParts frame students\<rparr> = Some reply"
    "js_trim reply = sid st"
  shows "recognizeStudentFace key frame students oracle = Some st"
proof -
  have "students \<noteq> []" using assms(2) by auto
  moreover have "find (\<lambda>s. sid s = sid st) students = Some st"
    using assms(2,3) by (rule find_distinct_key)
  ultimately show ?thesis
    using assms by (simp add: oracle_defs starts_with_s_not_NONE)
qed

theorem recognize_complete_witness:
  "apiKeyPresent (Some ''key'') \<and> distinct (map sid [\<lparr>name = ''Ann'', rollNumber = ''7'', phoneNumber = ''555'', imageUrl = ''data:image/png;base64,QUJD'', sid = ''s1''\<rparr>, \<lparr>name = ''Bo'', rollNumber = ''8'', phoneNumber = ''556'', imageUrl = [], sid = ''s2''\<rparr>]) \<and>
   recognizeStudentFace (Some ''key'') ''frame'' [\<lparr>name = ''Ann'', rollNumber = ''7'', phoneNumber = ''555'', imageUrl = ''data:image/png;base64,QUJD'', sid = ''s1''\<rparr>, \<lparr>name = ''Bo'', rollNumber = ''8'', phoneNumber = ''556'', imageUrl = [], sid = ''s2''\<rparr>] (\<lambda>_. Some ''s2'') = Some \<lparr>name = ''Bo'', rollNumber = ''8'', phoneNumber = ''556'', imageUrl = [], sid = ''s2''\<rparr>"
proof -
  have k: "apiKeyPresent (Some ''key'')" by (simp add: apiKeyPresent_def)
  have "recognizeStudentFace (Some ''key'') ''frame'' [\<lparr>name = ''Ann'', rollNumber = ''7'', phoneNumber = ''555'', imageUrl = ''data:image/png;base64,QUJD'', sid = ''s1''\<rparr>, \<lparr>name = ''Bo'', rollNumber = ''8'', phoneNumber = ''556'', imageUrl = [], sid = ''s2''\<rparr>] (\<lambda>_. Some ''s2'') = Some \<lparr>name = ''Bo'', rollNumber = ''8'', phoneNumber = ''556'', imageUrl = [], sid = ''s2''\<rparr>"
    by (rule recognize_complete [OF k, where reply = "''s2''"])
      (simp_all add: js_starts_with_def js_is_space_def)
  then show ?thesis using k by simp
qed

text \<open>The client folds every failure into \<open>null\<close>: it answers \<open>null\<close> exactly
  when no request is made, the call fails, or the trimmed answer is not an identifier
  starting with \<open>s\<close> of some roster student; the caller cannot tell these apart.\<close>

theorem recognize_none_iff:
  "recognizeStudentFace key frame students oracle = None \<longleftrightarrow>
     (case oracleRequest key frame students of
        None \<Rightarrow> True
      | Some request \<Rightarrow>
          (case oracle request of
             None \<Rightarrow> True
           | Some text \<Rightarrow> \<not> js_starts_with (js_trim text) ''s'' \<or>
                          (\<forall>s \<in> set students. sid s \<noteq> js_trim text)))"
proof (cases "oracleRequest key frame students")
  case None
  then show ?thesis by (simp add: recognizeStudentFace_def)
next
  case (Some request)
  show ?thesis
  proof (cases "oracle request")
    case None
    with Some show ?thesis by (simp add: recognizeStudentFace_def interpretReply_def)
  next
    case (Some reply)
    with \<open>oracleRequest key frame students = Some request\<close> show ?thesis
      using NONE_not_starts_with_s
      by (auto simp add: recognizeStudentFace_def interpretReply_def Let_def find_None_iff)
  qed
qed
theorem recognize_none_iff_witness:
  "recognizeStudentFace (Some ''key'') ''frame'' [\<lparr>name = ''Ann'', rollNumber = ''7'', phoneNumber = ''555'', imageUrl = ''data:image/png;base64,QUJD'', sid = ''s1''\<rparr>] (\<lambda>_. Some ''s9'') = None"
proof -
  have "oracleRequest (Some ''key'') ''frame'' [\<lparr>name = ''Ann'', rollNumber = ''7'', phoneNumber = ''555'', imageUrl = ''data:image/png;base64,QUJD'', sid = ''s1''\<rparr>] \<noteq> None"
    by (simp add: oracleRequest_def apiKeyPresent_def)
  then show ?thesis
    using recognize_none_iff [of "Some ''key''" "''frame''" "[\<lparr>name = ''Ann'', rollNumber = ''7'', phoneNumber = ''555'', imageUrl = ''data:image/png;base64,QUJD'', sid = ''s1''\<rparr>]" "\<lambda>_. Some ''s9''"]
    by (auto simp: js_trim_def js_is_space_def split: option.splits)
qed

text \<open>Claim C26: the client reads back the media type and the payload of every data URL
  whose media type is a non-empty token without \<open>; : ,\<close> and whose payload has no
  comma, as base64 text never has.\<close>

theorem dataUrl_roundtrip:
  assumes "mime \<noteq> []" "CHR '';'' \<notin> set mime" "CHR '':'' \<notin> set mime" "CHR '','' \<notin> set mime"
    "CHR '','' \<notin> set payload"
  shows "dataUrlMime (dataUrl mime payload) = mime \<and> dataUrlPayload (dataUrl mime payload) = payload"
  using assms dataUrl_mime_roundtrip dataUrl_payload_roundtrip by blast

theorem dataUrl_roundtrip_witness:
  "dataUrlMime (dataUrl ''image/png'' ''QUJD'') = ''image/png'' \<and>
   dataUrlPayload (dataUrl ''image/png'' ''QUJD'') = ''QUJD''"
  using dataUrl_roundtrip [of "''image/png''" "''QUJD''"] by simp

text \<open>Every roster student whose image is a data URL appears in the request,
  as its identifier tag immediately followed by its image with the right media type.\<close>

theorem request_shows_student:
  assumes "apiKeyPresent key" "st \<in> set students" "imageUrl st = dataUrl mime payload"
    "mime \<noteq> []" "CHR '';'' \<notin> set mime" "CHR '':'' \<notin> set mime" "CHR '','' \<notin> set mime"
    "CHR '','' \<notin> set payload"
  shows "\<exists>request pre post. oracleRequest key frame students = Some request \<and>
           parts request = pre @ [TextPart (''Student ID: '' @ sid st), InlineData mime payload] @ post"
proof -
  obtain xs ys where "students = xs @ st # ys" using assms(2) by (meson split_list)
  with assms(1) obtain request pre post where
    "oracleRequest key frame students = Some request" "parts request = pre @ studentParts st @ post"
    by (blast dest: oracleRequest_student_split)
  with studentParts_dataUrl [OF assms(3-)] show ?thesis by auto
qed

theorem request_shows_student_witness:
  "\<exists>request pre post. oracleRequest (Some ''key'') ''frame'' [\<lparr>name = ''Bo'', rollNumber = ''8'', phoneNumber = ''556'', imageUrl = [], sid = ''s2''\<rparr>, \<lparr>name = ''Ann'', rollNumber = ''7'', phoneNumber = ''555'', imageUrl = ''data:image/png;base64,QUJD'', sid = ''s1''\<rparr>] = Some request \<and>
     parts request = pre @ [TextPart ''Student ID: s1'', InlineData ''image/png'' ''QUJD''] @ post"
  using request_shows_student [of "Some ''key''" "\<lparr>name = ''Ann'', rollNumber = ''7'', phoneNumber = ''555'', imageUrl = ''data:image/png;base64,QUJD'', sid = ''s1''\<rparr>" "[\<lparr>name = ''Bo'', rollNumber = ''8'', phoneNumber = ''556'', imageUrl = [], sid = ''s2''\<rparr>, \<lparr>name = ''Ann'', rollNumber = ''7'', phoneNumber = ''555'', imageUrl = ''data:image/png;base64,QUJD'', sid = ''s1''\<rparr>]" "''image/png''" "''QUJD''" "''frame''"]
  by (simp add: apiKeyPresent_def dataUrl_def)

text \<open>Claim C31: a student whose image is not a data URL is left out of the request,
  yet the client still returns that student when the oracle names its identifier.\<close>

theorem recognize_returns_unshown_student:
  "studentParts \<lparr>name = ''Bo'', rollNumber = ''8'', phoneNumber = ''556'', imageUrl = [], sid = ''s2''\<rparr> = [] \<and>
   recognizeStudentFace (Some ''key'') ''frame'' [\<lparr>name = ''Ann'', rollNumber = ''7'', phoneNumber = ''555'', imageUrl = ''data:image/png;base64,QUJD'', sid = ''s1''\<rparr>, \<lparr>name = ''Bo'', rollNumber = ''8'', phoneNumber = ''556'', imageUrl = [], sid = ''s2''\<rparr>] (\<lambda>_. Some ''s2'') = Some \<lparr>name = ''Bo'', rollNumber = ''8'', phoneNumber = ''556'', imageUrl = [], sid = ''s2''\<rparr>"
  by (simp add: studentParts_def oracle_defs apiKeyPresent_def js_trim_def js_is_space_def
      js_starts_with_def)

end
