(* ===== verification/CaptureLoop.thy ===== *)
theory CaptureLoop
  imports Oracle
begin

text \<open>
  The capture loop, \<open>CameraView\<close> of \<open>src/components/CameraView.tsx\<close>.  Its React state
  (\<open>isCameraOn\<close>, \<open>isRecognizing\<close>, \<open>showSuccess\<close>, \<open>lastRecognitionTime\<close>,
  \<open>error\<close>, \<open>lastMarkedStudentId\<close>) is a record, extended with what the code's effects
  create outside React: the stream attached to the \<open><video>\<close> element
  (\<open>videoRef.current.srcObject\<close>), the camera streams whose tracks are not stopped,
  the \<open>getUserMedia\<close> calls not yet settled, the \<open>recognizeStudentFace\<close> call being
  awaited (with the roster and the \<open>lastMarkedStudentId\<close> its closure captured), the
  pending 4-second timers, and the log of remote requests.

  Each handler is one definition; an event is one callback the browser runs to
  completion (React batches the state updates of one callback).  \<open>cam_step\<close> dispatches
  an event and returns the new state with the students passed to \<open>onAttendanceMarked\<close>.
  Which events can happen in a state is \<open>cam_enabled\<close> (the rendered buttons, the
  interval that exists only while the camera is on and no success is shown, the pending
  promises and timers); \<open>cam_reach\<close> is the set of states reachable under a
  non-decreasing clock.  Times are \<open>Date.now()\<close> values as integers.
\<close>

subsection \<open>State and events\<close>

record InFlight =
  ifStudents :: "Student list"
  ifLastMarked :: "string option"
  ifRequest :: "GenerateRequest option"

record CameraView =
  isCameraOn :: bool
  isRecognizing :: bool
  showSuccess :: "Student option"
  lastRecognitionTime :: int
  error :: "string option"
  lastMarkedStudentId :: "string option"
  srcObject :: "nat option"
  liveStreams :: "nat list"
  nextStream :: nat
  pendingStarts :: nat
  inFlight :: "InFlight option"
  successTimers :: "int list"
  oracleCalls :: "(int \<times> GenerateRequest) list"

text \<open>The state at mount: every \<open>useState\<close> initial value, no stream, nothing pending.\<close>

definition cameraInit :: CameraView where
  "cameraInit =
     \<lparr>isCameraOn = False, isRecognizing = False, showSuccess = None, lastRecognitionTime = 0,
      error = None, lastMarkedStudentId = None, srcObject = None, liveStreams = [],
      nextStream = 0, pendingStarts = 0, inFlight = None, successTimers = [], oracleCalls = []\<rparr>"

datatype CameraEvent =
    ClickStart
  | MediaGranted
  | MediaDenied
  | ClickStop
  | IntervalTick int "string option"
  | RecognitionSettled int "string option"
  | SuccessTimerFired int

subsection \<open>Handlers\<close>

text \<open>\<open>startCamera\<close>, up to its \<open>await\<close>: the error is cleared and a
  \<open>getUserMedia\<close> call is pending.\<close>

definition startCamera :: "CameraView \<Rightarrow> CameraView" where
  "startCamera s = s\<lparr>error := None, pendingStarts := Suc (pendingStarts s)\<rparr>"

text \<open>The rest of \<open>startCamera\<close> when the promise resolves: the new stream is attached
  to the video element, replacing whatever was attached, and the camera is on.\<close>

definition startCameraGranted :: "CameraView \<Rightarrow> CameraView" where
  "startCameraGranted s =
     (let stream = nextStream s
      in s\<lparr>liveStreams := stream # liveStreams s, nextStream := Suc stream,
           srcObject := Some stream, isCameraOn := True, pendingStarts := pendingStarts s - 1\<rparr>)"

definition startCameraDenied :: "CameraView \<Rightarrow> CameraView" where
  "startCameraDenied s =
     s\<lparr>error := Some ''Could not access the camera. Please check permissions and try again.'',
       isCameraOn := False, pendingStarts := pendingStarts s - 1\<rparr>"

text \<open>\<open>stopCamera\<close>: only an attached stream is stopped and detached.\<close>

definition stopCamera :: "CameraView \<Rightarrow> CameraView" where
  "stopCamera s =
     (case srcObject s of
        None \<Rightarrow> s
      | Some stream \<Rightarrow>
          s\<lparr>liveStreams := removeAll stream (liveStreams s), srcObject := None, isCameraOn := False\<rparr>)"

text \<open>\<open>captureAndRecognize\<close>, up to its \<open>await\<close>.  \<open>frame\<close> is the result of
  \<open>canvas.toDataURL('image/jpeg', 0.8)\<close>, or \<open>None\<close> when \<open>getContext('2d')\<close>
  returns \<open>null\<close>; then the call ends at once.  Otherwise \<open>recognizeStudentFace\<close> runs
  up to its own \<open>await\<close>: the request (if any) is issued now, with the roster of this
  render.\<close>

definition captureAndRecognize ::
  "string option \<Rightarrow> Student list \<Rightarrow> int \<Rightarrow> string option \<Rightarrow> CameraView \<Rightarrow> CameraView" where
  "captureAndRecognize key students now frame s =
     (if isRecognizing s then s
      else case frame of
        None \<Rightarrow> s\<lparr>isRecognizing := False, lastRecognitionTime := now\<rparr>
      | Some dataUrl' \<Rightarrow>
          (let request = oracleRequest key (dataUrlPayload dataUrl') students
           in s\<lparr>isRecognizing := True,
                inFlight := Some \<lparr>ifStudents = students, ifLastMarked = lastMarkedStudentId s,
                                  ifRequest = request\<rparr>,
                oracleCalls := (case request of None \<Rightarrow> oracleCalls s
                                | Some r \<Rightarrow> (now, r) # oracleCalls s)\<rparr>))"

text \<open>The \<open>setInterval\<close> callback of the polling effect.\<close>

definition intervalTick ::
  "string option \<Rightarrow> Student list \<Rightarrow> int \<Rightarrow> string option \<Rightarrow> CameraView \<Rightarrow> CameraView" where
  "intervalTick key students now frame s =
     (if now - lastRecognitionTime s > 5000 then captureAndRecognize key students now frame s else s)"

text \<open>The success branch after the \<open>await\<close>: \<open>onAttendanceMarked\<close>, the success
  state, \<open>stopCamera()\<close> and the 4-second timer.\<close>

definition markSuccess :: "int \<Rightarrow> Student \<Rightarrow> CameraView \<Rightarrow> CameraView" where
  "markSuccess now student s =
     (let s1 = s\<lparr>lastMarkedStudentId := Some (sid student), showSuccess := Some student\<rparr>;
          s2 = stopCamera s1
      in s2\<lparr>successTimers := successTimers s2 @ [now + 4000]\<rparr>)"

text \<open>The rest of \<open>captureAndRecognize\<close> when the awaited call settles with the
  oracle's \<open>reply\<close>: the answer of \<open>recognizeStudentFace\<close> for the request issued at
  the start (no request: \<open>null\<close>), the duplicate check against the captured
  \<open>lastMarkedStudentId\<close>, then \<open>isRecognizing\<close> and \<open>lastRecognitionTime\<close>.\<close>

definition settledStudent :: "InFlight \<Rightarrow> string option \<Rightarrow> Student option" where
  "settledStudent f reply =
     (case ifRequest f of None \<Rightarrow> None | Some _ \<Rightarrow> interpretReply (ifStudents f) reply)"

definition recognitionSettled ::
  "int \<Rightarrow> string option \<Rightarrow> CameraView \<Rightarrow> CameraView \<times> Student list" where
  "recognitionSettled now reply s =
     (case inFlight s of
        None \<Rightarrow> (s, [])
      | Some f \<Rightarrow>
          (let (s1, marked) =
             (case settledStudent f reply of
                None \<Rightarrow> (s, [])
              | Some student \<Rightarrow>
                  if ifLastMarked f \<noteq> Some (sid student) then (markSuccess now student s, [student])
                  else (s, []))
           in (s1\<lparr>isRecognizing := False, lastRecognitionTime := now, inFlight := None\<rparr>, marked)))"

text \<open>The \<open>setTimeout\<close> callback: the oldest pending timer fires.\<close>

definition successTimerFired :: "CameraView \<Rightarrow> CameraView" where
  "successTimerFired s =
     s\<lparr>showSuccess := None, lastMarkedStudentId := None, successTimers := tl (successTimers s)\<rparr>"

fun cam_step ::
  "string option \<Rightarrow> Student list \<Rightarrow> CameraEvent \<Rightarrow> CameraView \<Rightarrow> CameraView \<times> Student list" where
  "cam_step key students ClickStart s = (startCamera s, [])"
| "cam_step key students MediaGranted s = (startCameraGranted s, [])"
| "cam_step key students MediaDenied s = (startCameraDenied s, [])"
| "cam_step key students ClickStop s = (stopCamera s, [])"
| "cam_step key students (IntervalTick now frame) s = (intervalTick key students now frame s, [])"
| "cam_step key students (RecognitionSettled now reply) s = recognitionSettled now reply s"
| "cam_step key students (SuccessTimerFired now) s = (successTimerFired s, [])"

subsection \<open>Which events can occur\<close>

text \<open>The Start button is rendered while \<open>!isCameraOn\<close>, the Stop button otherwise; the
  interval exists while the camera is on and no success is shown; a settlement needs a
  pending promise, a timer a pending timer that is due.\<close>

fun cam_enabled :: "CameraView \<Rightarrow> CameraEvent \<Rightarrow> bool" where
  "cam_enabled s ClickStart = (\<not> isCameraOn s)"
| "cam_enabled s MediaGranted = (0 < pendingStarts s)"
| "cam_enabled s MediaDenied = (0 < pendingStarts s)"
| "cam_enabled s ClickStop = isCameraOn s"
| "cam_enabled s (IntervalTick now frame) = (isCameraOn s \<and> showSuccess s = None)"
| "cam_enabled s (RecognitionSettled now reply) = (inFlight s \<noteq> None)"
| "cam_enabled s (SuccessTimerFired now) = (successTimers s \<noteq> [] \<and> hd (successTimers s) \<le> now)"

fun event_time :: "CameraEvent \<Rightarrow> int option" where
  "event_time (IntervalTick now frame) = Some now"
| "event_time (RecognitionSettled now reply) = Some now"
| "event_time (SuccessTimerFired now) = Some now"
| "event_time ev = None"

definition clock_after :: "int \<Rightarrow> CameraEvent \<Rightarrow> int" where
  "clock_after t ev = (case event_time ev of None \<Rightarrow> t | Some now \<Rightarrow> now)"

definition clock_ok :: "int \<Rightarrow> CameraEvent \<Rightarrow> bool" where
  "clock_ok t ev = (case event_time ev of None \<Rightarrow> True | Some now \<Rightarrow> t \<le> now)"

inductive cam_reach :: "string option \<Rightarrow> CameraView \<Rightarrow> int \<Rightarrow> bool" where
  mount: "cam_reach key cameraInit t"
| step: "cam_reach key s t \<Longrightarrow> cam_enabled s ev \<Longrightarrow> clock_ok t ev \<Longrightarrow>
     cam_reach key (fst (cam_step key students ev s)) (clock_after t ev)"


subsection \<open>The invariant\<close>

fun call_gaps :: "int list \<Rightarrow> bool" where
  "call_gaps (x # y # zs) = (5000 < x - y \<and> call_gaps (y # zs))"
| "call_gaps _ = True"

definition cam_inv :: "CameraView \<Rightarrow> int \<Rightarrow> bool" where
  "cam_inv s t \<longleftrightarrow>
     (isRecognizing s \<longleftrightarrow> inFlight s \<noteq> None) \<and>
     lastMarkedStudentId s = map_option sid (showSuccess s) \<and>
     (\<forall>f. inFlight s = Some f \<longrightarrow> showSuccess s = None \<and> ifLastMarked f = None) \<and>
     (successTimers s = [] \<longleftrightarrow> showSuccess s = None) \<and> length (successTimers s) \<le> 1 \<and>
     (isCameraOn s \<longrightarrow> srcObject s \<noteq> None) \<and>
     (\<forall>h. srcObject s = Some h \<longrightarrow> h \<in> set (liveStreams s)) \<and>
     call_gaps (map fst (oracleCalls s)) \<and>
     (\<forall>c \<in> set (map fst (oracleCalls s)). c \<le> t) \<and>
     (inFlight s = None \<longrightarrow> (\<forall>c \<in> set (map fst (oracleCalls s)). c \<le> lastRecognitionTime s))"

lemma call_gaps_Cons:
  "call_gaps (x # xs) \<longleftrightarrow> (xs = [] \<or> 5000 < x - hd xs) \<and> call_gaps xs"
  by (cases xs) auto

lemma cam_inv_init: "cam_inv cameraInit t"
  by (simp add: cam_inv_def cameraInit_def)

lemma cam_inv_clock_mono: "cam_inv s t \<Longrightarrow> t \<le> t' \<Longrightarrow> cam_inv s t'"
  by (auto simp: cam_inv_def)

lemma startCamera_inv: "cam_inv s t \<Longrightarrow> cam_inv (startCamera s) t"
  by (simp add: cam_inv_def startCamera_def)

lemma startCameraGranted_inv: "cam_inv s t \<Longrightarrow> cam_inv (startCameraGranted s) t"
  by (simp add: cam_inv_def startCameraGranted_def Let_def)

lemma startCameraDenied_inv: "cam_inv s t \<Longrightarrow> cam_inv (startCameraDenied s) t"
  by (simp add: cam_inv_def startCameraDenied_def)

lemma stopCamera_sel [simp]:
  "showSuccess (stopCamera s) = showSuccess s"
  "isRecognizing (stopCamera s) = isRecognizing s"
  "inFlight (stopCamera s) = inFlight s"
  "lastMarkedStudentId (stopCamera s) = lastMarkedStudentId s"
  "successTimers (stopCamera s) = successTimers s"
  "oracleCalls (stopCamera s) = oracleCalls s"
  "lastRecognitionTime (stopCamera s) = lastRecognitionTime s"
  "isCameraOn (stopCamera s) = (isCameraOn s \<and> srcObject s = None)"
  "srcObject (stopCamera s) = None"
  by (simp_all add: stopCamera_def split: option.split)

lemma stopCamera_streams:
  "set (liveStreams (stopCamera s)) = set (liveStreams s) - set_option (srcObject s)"
  by (auto simp: stopCamera_def split: option.split)

lemma stopCamera_inv: "cam_inv s t \<Longrightarrow> cam_inv (stopCamera s) t"
  by (simp add: cam_inv_def)

lemma intervalTick_inv:
  assumes "cam_inv s t" "showSuccess s = None" "t \<le> now"
  shows "cam_inv (intervalTick key students now frame s) now"
proof -
  have inv: "cam_inv s now" using assms(1,3) by (rule cam_inv_clock_mono)
  show ?thesis
  proof (cases "5000 < now - lastRecognitionTime s \<and> \<not> isRecognizing s")
    case False
    with inv show ?thesis by (auto simp: intervalTick_def captureAndRecognize_def)
  next
    case True
    then have nf: "inFlight s = None" using inv by (simp add: cam_inv_def)
    then have le: "\<forall>c \<in> set (map fst (oracleCalls s)). c \<le> lastRecognitionTime s"
      using inv by (simp add: cam_inv_def)
    have gap: "map fst (oracleCalls s) = [] \<or> 5000 < now - hd (map fst (oracleCalls s))"
      using True le by (cases "oracleCalls s") auto
    show ?thesis
      using inv True nf gap assms(2)
      by (auto simp: intervalTick_def captureAndRecognize_def cam_inv_def Let_def call_gaps_Cons
          split: option.split)
  qed
qed

lemma markSuccess_sel [simp]:
  "showSuccess (markSuccess now st s) = Some st"
  "lastMarkedStudentId (markSuccess now st s) = Some (sid st)"
  "successTimers (markSuccess now st s) = successTimers s @ [now + 4000]"
  "isCameraOn (markSuccess now st s) = (isCameraOn s \<and> srcObject s = None)"
  "srcObject (markSuccess now st s) = None"
  "set (liveStreams (markSuccess now st s)) = set (liveStreams s) - set_option (srcObject s)"
  "inFlight (markSuccess now st s) = inFlight s"
  "isRecognizing (markSuccess now st s) = isRecognizing s"
  "oracleCalls (markSuccess now st s) = oracleCalls s"
  "lastRecognitionTime (markSuccess now st s) = lastRecognitionTime s"
  by (simp_all add: markSuccess_def Let_def stopCamera_streams)

lemma recognitionSettled_cases:
  "inFlight s = Some f \<Longrightarrow>
   recognitionSettled now reply s =
     (case settledStudent f reply of
        None \<Rightarrow> (s\<lparr>isRecognizing := False, lastRecognitionTime := now, inFlight := None\<rparr>, [])
      | Some st \<Rightarrow>
          if ifLastMarked f \<noteq> Some (sid st)
          then ((markSuccess now st s)\<lparr>isRecognizing := False, lastRecognitionTime := now,
                                       inFlight := None\<rparr>, [st])
          else (s\<lparr>isRecognizing := False, lastRecognitionTime := now, inFlight := None\<rparr>, []))"
  by (simp add: recognitionSettled_def split: option.split)

lemma recognitionSettled_inv:
  assumes "cam_inv s t" "inFlight s = Some f" "t \<le> now"
  shows "cam_inv (fst (recognitionSettled now reply s)) now"
proof -
  have inv: "cam_inv s now" using assms(1,3) by (rule cam_inv_clock_mono)
  then have f: "showSuccess s = None" "ifLastMarked f = None" "successTimers s = []"
    "lastMarkedStudentId s = None"
    using assms(2) by (auto simp: cam_inv_def)
  show ?thesis
  proof (cases "settledStudent f reply")
    case None
    with inv assms(2) show ?thesis
      by (auto simp: recognitionSettled_cases cam_inv_def)
  next
    case (Some st)
    with inv assms(2) f show ?thesis
      by (auto simp: recognitionSettled_cases cam_inv_def)
  qed
qed

lemma successTimerFired_inv: "cam_inv s t \<Longrightarrow> cam_inv (successTimerFired s) t"
  by (auto simp: cam_inv_def successTimerFired_def length_Suc_conv le_Suc_eq)

lemma cam_step_inv:
  assumes "cam_inv s t" "cam_enabled s ev" "clock_ok t ev"
  shows "cam_inv (fst (cam_step key students ev s)) (clock_after t ev)"
proof (cases ev)
  case ClickStart
  with assms show ?thesis by (simp add: clock_after_def startCamera_inv)
next
  case MediaGranted
  with assms show ?thesis by (simp add: clock_after_def startCameraGranted_inv)
next
  case MediaDenied
  with assms show ?thesis by (simp add: clock_after_def startCameraDenied_inv)
next
  case ClickStop
  with assms show ?thesis by (simp add: clock_after_def stopCamera_inv)
next
  case (IntervalTick now frame)
  with assms show ?thesis by (simp add: clock_after_def clock_ok_def intervalTick_inv)
next
  case (RecognitionSettled now reply)
  with assms show ?thesis
    by (auto simp: clock_after_def clock_ok_def intro: recognitionSettled_inv)
next
  case (SuccessTimerFired now)
  with assms show ?thesis
    by (auto simp: clock_after_def clock_ok_def intro: successTimerFired_inv cam_inv_clock_mono)
qed

lemma cam_reach_inv: "cam_reach key s t \<Longrightarrow> cam_inv s t"
proof (induction rule: cam_reach.induct)
  case (mount key t)
  show ?case by (rule cam_inv_init)
next
  case (step key s t ev students)
  from step.IH step.hyps(2,3) show ?case by (rule cam_step_inv)
qed

subsection \<open>Runs\<close>

fun cam_run ::
  "string option \<Rightarrow> Student list \<Rightarrow> CameraEvent list \<Rightarrow> CameraView \<Rightarrow> CameraView \<times> Student list" where
  "cam_run key students [] s = (s, [])"
| "cam_run key students (ev # evs) s =
     (let (s1, out1) = cam_step key students ev s; (s2, out2) = cam_run key students evs s1
      in (s2, out1 @ out2))"

fun cam_valid :: "Student list \<Rightarrow> string option \<Rightarrow> int \<Rightarrow> CameraEvent list \<Rightarrow> CameraView \<Rightarrow> bool" where
  "cam_valid students key t [] s = True"
| "cam_valid students key t (ev # evs) s =
     (cam_enabled s ev \<and> clock_ok t ev \<and>
      cam_valid students key (clock_after t ev) evs (fst (cam_step key students ev s)))"

lemma cam_reach_run:
  "cam_reach key s t \<Longrightarrow> cam_valid students key t evs s \<Longrightarrow>
   cam_reach key (fst (cam_run key students evs s)) (foldl clock_after t evs)"
proof (induction evs arbitrary: s t)
  case Nil
  then show ?case by simp
next
  case (Cons ev evs)
  then have "cam_reach key (fst (cam_step key students ev s)) (clock_after t ev)"
    by (auto intro: cam_reach.step)
  with Cons.IH [OF this] Cons.prems(2) show ?case
    by (auto simp: split_def Let_def)
qed

lemma call_gaps_nth:
  "call_gaps xs \<Longrightarrow> Suc i < length xs \<Longrightarrow> 5000 < xs ! i - xs ! Suc i"
proof (induction xs arbitrary: i rule: call_gaps.induct)
  case (1 x y zs)
  then show ?case by (cases i) auto
qed auto

lemma intervalTick_busy: "isRecognizing s \<Longrightarrow> intervalTick key students now frame s = s"
  by (simp add: intervalTick_def captureAndRecognize_def)

lemma cam_step_calls_in_flight:
  assumes "cam_inv s t" "inFlight s \<noteq> None"
  shows "oracleCalls (fst (cam_step key students ev s)) = oracleCalls s"
proof -
  have "isRecognizing s" using assms by (simp add: cam_inv_def)
  then show ?thesis
    by (cases ev) (auto simp: startCamera_def startCameraGranted_def startCameraDenied_def Let_def
        intervalTick_busy recognitionSettled_def successTimerFired_def split_def
        split: option.split)
qed

definition streams_ok :: "CameraView \<Rightarrow> bool" where
  "streams_ok s \<longleftrightarrow> set (liveStreams s) \<subseteq> set_option (srcObject s)"

definition off_idle :: "CameraView \<Rightarrow> bool" where
  "off_idle s \<longleftrightarrow> \<not> isCameraOn s \<and> inFlight s = None"

lemma off_idle_step:
  assumes "off_idle s" "cam_enabled s ev" "ev \<noteq> MediaGranted"
  shows "off_idle (fst (cam_step key students ev s)) \<and> snd (cam_step key students ev s) = []"
  using assms
  by (cases ev) (auto simp: off_idle_def startCamera_def startCameraDenied_def stopCamera_def
      successTimerFired_def split: option.split)

lemma settle_emits_off_idle:
  assumes "cam_inv s t" "snd (cam_step key students ev s) \<noteq> []"
  shows "off_idle (fst (cam_step key students ev s)) \<and> length (snd (cam_step key students ev s)) = 1"
proof (cases ev)
  case (RecognitionSettled now reply)
  then obtain f st where f: "inFlight s = Some f" "settledStudent f reply = Some st"
    "ifLastMarked f \<noteq> Some (sid st)"
    using assms(2) by (auto simp: recognitionSettled_def split: option.splits if_splits)
  have "isCameraOn s \<longrightarrow> srcObject s \<noteq> None" using assms(1) by (simp add: cam_inv_def)
  with f RecognitionSettled show ?thesis
    by (auto simp: recognitionSettled_cases off_idle_def)
qed (use assms(2) in simp_all)

lemma off_idle_run:
  assumes "off_idle s" "cam_valid students key t evs s" "MediaGranted \<notin> set evs"
  shows "snd (cam_run key students evs s) = []"
  using assms
proof (induction evs arbitrary: s t)
  case (Cons ev evs)
  then have "off_idle (fst (cam_step key students ev s)) \<and> snd (cam_step key students ev s) = []"
    by (intro off_idle_step) auto
  with Cons show ?case by (auto simp: split_def Let_def)
qed simp

abbreviation demoKey :: "string option" where
  "demoKey \<equiv> Some ''key''"

abbreviation demoAnn :: Student where
  "demoAnn \<equiv> \<lparr>name = ''Ann'', rollNumber = ''7'', phoneNumber = ''555'',
     imageUrl = ''data:image/png;base64,QUJD'', sid = ''s1''\<rparr>"

abbreviation demoFrame :: string where
  "demoFrame \<equiv> ''data:image/jpeg;base64,RlJN''"

lemmas cam_eval = cameraInit_def startCamera_def startCameraGranted_def startCameraDenied_def
  stopCamera_def intervalTick_def captureAndRecognize_def oracleRequest_def apiKeyPresent_def
  recognitionSettled_def settledStudent_def interpretReply_def js_starts_with_def js_is_space_def
  markSuccess_def successTimerFired_def clock_ok_def clock_after_def Let_def

lemma cam_reach_from_mount:
  "cam_valid students key t evs cameraInit \<Longrightarrow>
   cam_reach key (fst (cam_run key students evs cameraInit)) (foldl clock_after t evs)"
  by (rule cam_reach_run [OF cam_reach.mount])

lemma cam_inv_settle_emits:
  assumes "cam_inv s t" "inFlight s = Some f" "settledStudent f reply = Some st"
  shows "cam_step key students (RecognitionSettled now reply) s =
           ((markSuccess now st s)\<lparr>isRecognizing := False, lastRecognitionTime := now, inFlight := None\<rparr>,
            [st])"
proof -
  have "ifLastMarked f = None" using assms(1,2) by (simp add: cam_inv_def)
  then show ?thesis using assms(2,3) by (simp add: recognitionSettled_cases)
qed

subsection \<open>Properties\<close>

text \<open>Claim C1: the duplicate check never suppresses an event: in every reachable state the
  awaited call captured an empty \<open>lastMarkedStudentId\<close>, so whenever the settled call
  identifies a student the loop reports that student and enters the success state.\<close>

theorem settle_marks_every_match:
  assumes "cam_reach key s t" "inFlight s = Some f" "settledStudent f reply = Some st"
  shows "cam_step key students (RecognitionSettled now reply) s =
           ((markSuccess now st s)\<lparr>isRecognizing := False, lastRecognitionTime := now, inFlight := None\<rparr>,
            [st])"
  using cam_inv_settle_emits [OF cam_reach_inv [OF assms(1)] assms(2,3)] .

theorem settle_marks_every_match_witness:
  "snd (cam_step demoKey [demoAnn] (RecognitionSettled 10400 (Some ''s1''))
     (fst (cam_run demoKey [demoAnn] [ClickStart, MediaGranted, IntervalTick 10000 (Some demoFrame)] cameraInit))) = [demoAnn]"
proof -
  have v0: "cam_valid [demoAnn] demoKey 0 [ClickStart, MediaGranted, IntervalTick 10000 (Some demoFrame)] cameraInit" by (simp add: cam_eval)
  have r: "cam_reach demoKey (fst (cam_run demoKey [demoAnn] [ClickStart, MediaGranted, IntervalTick 10000 (Some demoFrame)] cameraInit)) (foldl clock_after 0 [ClickStart, MediaGranted, IntervalTick 10000 (Some demoFrame)])"
    using cam_reach_from_mount [OF v0] .
  let ?f = "the (inFlight (fst (cam_run demoKey [demoAnn] [ClickStart, MediaGranted, IntervalTick 10000 (Some demoFrame)] cameraInit)))"
  have f: "inFlight (fst (cam_run demoKey [demoAnn] [ClickStart, MediaGranted, IntervalTick 10000 (Some demoFrame)] cameraInit)) = Some ?f"
    by (simp add: cam_eval)
  have st: "settledStudent ?f (Some ''s1'') = Some demoAnn"
    by (simp add: cam_eval)
  show ?thesis using settle_marks_every_match [OF r f st, of "[demoAnn]" 10400] by simp
qed

text \<open>Claim C3: the loop rate-limits the oracle: in every reachable state, each remote
  request in the log was issued more than 5000 ms after the one before it.\<close>

theorem oracle_calls_spaced:
  assumes "cam_reach key s t" "Suc i < length (oracleCalls s)"
  shows "fst (oracleCalls s ! Suc i) + 5000 < fst (oracleCalls s ! i)"
proof -
  have "call_gaps (map fst (oracleCalls s))" using cam_reach_inv [OF assms(1)] by (simp add: cam_inv_def)
  from call_gaps_nth [OF this, of i] assms(2)
  have "5000 < fst (oracleCalls s ! i) - fst (oracleCalls s ! Suc i)" by simp
  then show ?thesis by linarith
qed

theorem oracle_calls_spaced_witness:
  "fst (oracleCalls (fst (cam_run demoKey [demoAnn] [ClickStart, MediaGranted, IntervalTick 10000 (Some demoFrame), RecognitionSettled 10300 (Some ''NONE''), IntervalTick 16000 (Some demoFrame)] cameraInit)) ! 1) + 5000 < fst (oracleCalls (fst (cam_run demoKey [demoAnn] [ClickStart, MediaGranted, IntervalTick 10000 (Some demoFrame), RecognitionSettled 10300 (Some ''NONE''), IntervalTick 16000 (Some demoFrame)] cameraInit)) ! 0) \<and>
   length (oracleCalls (fst (cam_run demoKey [demoAnn] [ClickStart, MediaGranted, IntervalTick 10000 (Some demoFrame), RecognitionSettled 10300 (Some ''NONE''), IntervalTick 16000 (Some demoFrame)] cameraInit))) = 2"
proof -
  have v0: "cam_valid [demoAnn] demoKey 0 [ClickStart, MediaGranted, IntervalTick 10000 (Some demoFrame), RecognitionSettled 10300 (Some ''NONE''), IntervalTick 16000 (Some demoFrame)] cameraInit" by (simp add: cam_eval)
  have r: "cam_reach demoKey (fst (cam_run demoKey [demoAnn] [ClickStart, MediaGranted, IntervalTick 10000 (Some demoFrame), RecognitionSettled 10300 (Some ''NONE''), IntervalTick 16000 (Some demoFrame)] cameraInit)) (foldl clock_after 0 [ClickStart, MediaGranted, IntervalTick 10000 (Some demoFrame), RecognitionSettled 10300 (Some ''NONE''), IntervalTick 16000 (Some demoFrame)])"
    using cam_reach_from_mount [OF v0] .
  have len: "length (oracleCalls (fst (cam_run demoKey [demoAnn] [ClickStart, MediaGranted, IntervalTick 10000 (Some demoFrame), RecognitionSettled 10300 (Some ''NONE''), IntervalTick 16000 (Some demoFrame)] cameraInit))) = 2"
    by (simp add: cam_eval)
  then show ?thesis using oracle_calls_spaced [OF r, of 0] by simp
qed

text \<open>Claim C4: while a recognition is being awaited no event of any kind issues another
  remote request.\<close>

theorem no_request_while_in_flight:
  assumes "cam_reach key s t" "inFlight s \<noteq> None"
  shows "oracleCalls (fst (cam_step key students ev s)) = oracleCalls s"
  using cam_step_calls_in_flight [OF cam_reach_inv [OF assms(1)] assms(2)] .

theorem no_request_while_in_flight_witness:
  "oracleCalls (fst (cam_step demoKey [demoAnn] (IntervalTick 20000 (Some demoFrame)) (fst (cam_run demoKey [demoAnn] [ClickStart, MediaGranted, IntervalTick 10000 (Some demoFrame)] cameraInit)))) =
   oracleCalls (fst (cam_run demoKey [demoAnn] [ClickStart, MediaGranted, IntervalTick 10000 (Some demoFrame)] cameraInit))"
proof -
  have v0: "cam_valid [demoAnn] demoKey 0 [ClickStart, MediaGranted, IntervalTick 10000 (Some demoFrame)] cameraInit" by (simp add: cam_eval)
  have r: "cam_reach demoKey (fst (cam_run demoKey [demoAnn] [ClickStart, MediaGranted, IntervalTick 10000 (Some demoFrame)] cameraInit)) (foldl clock_after 0 [ClickStart, MediaGranted, IntervalTick 10000 (Some demoFrame)])"
    using cam_reach_from_mount [OF v0] .
  have f: "inFlight (fst (cam_run demoKey [demoAnn] [ClickStart, MediaGranted, IntervalTick 10000 (Some demoFrame)] cameraInit)) \<noteq> None"
    by (simp add: cam_eval)
  show ?thesis by (rule no_request_while_in_flight [OF r f])
qed

text \<open>Claim C5: a successful recognition releases the camera: the attached stream is
  stopped and detached, the camera is off, the success panel shows the student with one
  4-second timer, and the loop is idle with the settle time as its last attempt.\<close>

theorem success_releases_camera:
  assumes "cam_reach key s t" "inFlight s = Some f" "settledStudent f reply = Some st"
  shows "\<not> isCameraOn (fst (cam_step key students (RecognitionSettled now reply) s)) \<and>
         srcObject (fst (cam_step key students (RecognitionSettled now reply) s)) = None \<and>
         set (liveStreams (fst (cam_step key students (RecognitionSettled now reply) s))) =
           set (liveStreams s) - set_option (srcObject s) \<and>
         showSuccess (fst (cam_step key students (RecognitionSettled now reply) s)) = Some st \<and>
         successTimers (fst (cam_step key students (RecognitionSettled now reply) s)) = [now + 4000] \<and>
         \<not> isRecognizing (fst (cam_step key students (RecognitionSettled now reply) s)) \<and>
         lastRecognitionTime (fst (cam_step key students (RecognitionSettled now reply) s)) = now"
proof -
  have inv: "cam_inv s t" by (rule cam_reach_inv [OF assms(1)])
  then have "ifLastMarked f = None" "successTimers s = []" "isCameraOn s \<longrightarrow> srcObject s \<noteq> None"
    using assms(2) by (auto simp: cam_inv_def)
  with assms(2,3) show ?thesis by (auto simp: recognitionSettled_cases)
qed

theorem success_releases_camera_witness:
  "\<not> isCameraOn (fst (cam_step demoKey [demoAnn] (RecognitionSettled 10400 (Some ''s1'')) (fst (cam_run demoKey [demoAnn] [ClickStart, MediaGranted, IntervalTick 10000 (Some demoFrame)] cameraInit)))) \<and>
   showSuccess (fst (cam_step demoKey [demoAnn] (RecognitionSettled 10400 (Some ''s1'')) (fst (cam_run demoKey [demoAnn] [ClickStart, MediaGranted, IntervalTick 10000 (Some demoFrame)] cameraInit)))) =
     Some demoAnn"
proof -
  have v0: "cam_valid [demoAnn] demoKey 0 [ClickStart, MediaGranted, IntervalTick 10000 (Some demoFrame)] cameraInit" by (simp add: cam_eval)
  have r: "cam_reach demoKey (fst (cam_run demoKey [demoAnn] [ClickStart, MediaGranted, IntervalTick 10000 (Some demoFrame)] cameraInit)) (foldl clock_after 0 [ClickStart, MediaGranted, IntervalTick 10000 (Some demoFrame)])"
    using cam_reach_from_mount [OF v0] .
  let ?f = "the (inFlight (fst (cam_run demoKey [demoAnn] [ClickStart, MediaGranted, IntervalTick 10000 (Some demoFrame)] cameraInit)))"
  have f: "inFlight (fst (cam_run demoKey [demoAnn] [ClickStart, MediaGranted, IntervalTick 10000 (Some demoFrame)] cameraInit)) = Some ?f"
    by (simp add: cam_eval)
  have st: "settledStudent ?f (Some ''s1'') = Some demoAnn"
    by (simp add: cam_eval)
  show ?thesis using success_releases_camera [OF r f st, of "[demoAnn]" 10400] by simp
qed

text \<open>Claim C2: one camera session yields at most one attendance event: from any reachable
  state, a run of enabled events in which the camera is never (re)granted reports at most
  one student.\<close>

theorem one_event_per_session:
  assumes "cam_reach key s t" "cam_valid students key t evs s" "MediaGranted \<notin> set evs"
  shows "length (snd (cam_run key students evs s)) \<le> 1"
  using assms
proof (induction evs arbitrary: s t)
  case Nil
  then show ?case by simp
next
  case (Cons ev evs)
  let ?s1 = "fst (cam_step key students ev s)"
  have r1: "cam_reach key ?s1 (clock_after t ev)"
    using Cons.prems by (auto intro: cam_reach.step)
  have v1: "cam_valid students key (clock_after t ev) evs ?s1" using Cons.prems(2) by simp
  show ?case
  proof (cases "snd (cam_step key students ev s) = []")
    case True
    with Cons.IH [OF r1 v1] Cons.prems(3) show ?thesis by (simp add: split_def Let_def)
  next
    case False
    with settle_emits_off_idle [OF cam_reach_inv [OF Cons.prems(1)]]
    have "off_idle ?s1" "length (snd (cam_step key students ev s)) = 1" by blast+
    with off_idle_run [OF _ v1] Cons.prems(3) show ?thesis by (simp add: split_def Let_def)
  qed
qed

theorem one_event_per_session_witness:
  "length (snd (cam_run demoKey [demoAnn] [IntervalTick 10000 (Some demoFrame), RecognitionSettled 10300 (Some ''s1''), SuccessTimerFired 14300, ClickStart] (fst (cam_run demoKey [demoAnn] [ClickStart, MediaGranted] cameraInit)))) = 1"
proof -
  have v0: "cam_valid [demoAnn] demoKey 0 [ClickStart, MediaGranted] cameraInit" by (simp add: cam_eval)
  have r: "cam_reach demoKey (fst (cam_run demoKey [demoAnn] [ClickStart, MediaGranted] cameraInit)) (foldl clock_after 0 [ClickStart, MediaGranted])"
    using cam_reach_from_mount [OF v0] .
  have v: "cam_valid [demoAnn] demoKey (foldl clock_after 0 [ClickStart, MediaGranted]) [IntervalTick 10000 (Some demoFrame), RecognitionSettled 10300 (Some ''s1''), SuccessTimerFired 14300, ClickStart] (fst (cam_run demoKey [demoAnn] [ClickStart, MediaGranted] cameraInit))"
    by (simp add: cam_eval)
  have "snd (cam_run demoKey [demoAnn] [IntervalTick 10000 (Some demoFrame), RecognitionSettled 10300 (Some ''s1''), SuccessTimerFired 14300, ClickStart] (fst (cam_run demoKey [demoAnn] [ClickStart, MediaGranted] cameraInit))) = [demoAnn]"
    by (simp add: cam_eval)
  moreover have "length (snd (cam_run demoKey [demoAnn] [IntervalTick 10000 (Some demoFrame), RecognitionSettled 10300 (Some ''s1''), SuccessTimerFired 14300, ClickStart] (fst (cam_run demoKey [demoAnn] [ClickStart, MediaGranted] cameraInit)))) \<le> 1"
    using one_event_per_session [OF r v] by simp
  ultimately show ?thesis by simp
qed

text \<open>The only way the loop loses track of a camera stream is a grant that
  arrives while another stream is attached: every other event keeps every live stream
  attached to the video element.\<close>

theorem streams_tracked_unless_regranted:
  assumes "streams_ok s" "\<not> (ev = MediaGranted \<and> srcObject s \<noteq> None)"
  shows "streams_ok (fst (cam_step key students ev s))"
proof (cases ev)
  case (RecognitionSettled now reply)
  with assms(1) show ?thesis
    by (auto simp: streams_ok_def recognitionSettled_def split_def split: option.split)
next
  case MediaGranted
  with assms show ?thesis by (auto simp: streams_ok_def startCameraGranted_def Let_def)
qed (use assms in \<open>auto simp: streams_ok_def startCamera_def startCameraDenied_def
      stopCamera_streams intervalTick_def captureAndRecognize_def successTimerFired_def Let_def
      split: option.split\<close>)

theorem streams_tracked_unless_regranted_witness:
  "streams_ok (fst (cam_step demoKey [] ClickStop (fst (cam_run demoKey [demoAnn] [ClickStart, MediaGranted] cameraInit))))"
proof -
  have ok: "streams_ok (fst (cam_run demoKey [demoAnn] [ClickStart, MediaGranted] cameraInit))"
    by (simp add: streams_ok_def cameraInit_def startCamera_def startCameraGranted_def)
  show ?thesis using streams_tracked_unless_regranted [OF ok, of ClickStop demoKey "[]"] by simp
qed

text \<open>Splitting \<open>captureAndRecognize\<close> at its \<open>await\<close> computes what
  \<open>recognizeStudentFace\<close> computes: the student the settled call yields is the answer of
  the service for the frame's payload and the roster captured when the call started.\<close>

theorem settle_agrees_with_service:
  assumes "\<not> isRecognizing s"
  shows "settledStudent (the (inFlight (captureAndRecognize key students now (Some frame) s))) reply =
         recognizeStudentFace key (dataUrlPayload frame) students (\<lambda>_. reply)"
  using assms
  by (simp add: captureAndRecognize_def settledStudent_def recognizeStudentFace_def Let_def
      split: option.split)

theorem settle_agrees_with_service_witness:
  "settledStudent (the (inFlight (captureAndRecognize demoKey [demoAnn] 10000 (Some demoFrame) cameraInit)))
     (Some ''s1'') = Some demoAnn"
proof -
  have "\<not> isRecognizing cameraInit" by (simp add: cameraInit_def)
  from settle_agrees_with_service [OF this, of demoKey "[demoAnn]" 10000 demoFrame "Some ''s1''"]
  show ?thesis
    by (simp add: recognizeStudentFace_def interpretReply_def oracleRequest_def apiKeyPresent_def
        js_starts_with_def js_is_space_def)
qed

text \<open>Claim C29: overlapping starts leak the camera: after two clicks on Start (the button
  stays rendered until a grant) and two grants, Stop leaves the first stream running with
  nothing attached; after one grant and one denial the camera streams while the view
  reports it off and offers Start again.\<close>

theorem overlapping_starts_leak_stream:
  "(\<exists>t. cam_reach key (fst (cam_run key students [ClickStart, ClickStart, MediaGranted, MediaGranted, ClickStop] cameraInit)) t) \<and>
   \<not> isCameraOn (fst (cam_run key students [ClickStart, ClickStart, MediaGranted, MediaGranted, ClickStop] cameraInit)) \<and>
   srcObject (fst (cam_run key students [ClickStart, ClickStart, MediaGranted, MediaGranted, ClickStop] cameraInit)) = None \<and>
   liveStreams (fst (cam_run key students [ClickStart, ClickStart, MediaGranted, MediaGranted, ClickStop] cameraInit)) = [0] \<and>
   (\<exists>t. cam_reach key (fst (cam_run key students [ClickStart, ClickStart, MediaGranted, MediaDenied] cameraInit)) t) \<and>
   \<not> isCameraOn (fst (cam_run key students [ClickStart, ClickStart, MediaGranted, MediaDenied] cameraInit)) \<and>
   liveStreams (fst (cam_run key students [ClickStart, ClickStart, MediaGranted, MediaDenied] cameraInit)) = [0]"
proof -
  have v1: "cam_valid students key 0 [ClickStart, ClickStart, MediaGranted, MediaGranted, ClickStop] cameraInit"
    by (simp add: cameraInit_def startCamera_def startCameraGranted_def clock_ok_def clock_after_def)
  have v2: "cam_valid students key 0 [ClickStart, ClickStart, MediaGranted, MediaDenied] cameraInit"
    by (simp add: cameraInit_def startCamera_def startCameraGranted_def clock_ok_def clock_after_def)
  show ?thesis
    using cam_reach_from_mount [OF v1] cam_reach_from_mount [OF v2]
    by (auto simp: cam_eval)
qed

end
