(* ===== verification/CaptureSpec.thy ===== *)
theory CaptureSpec
  imports CaptureLoop
begin

text \<open>
  The capture loop against the state machine its design describes (Off, Idle,
  Recognizing, Matched), and what \<open>CameraView\<close> renders (\<open>src/components/CameraView.tsx\<close>,
  lines 105--168).  The phase of a state is read off the state the way the design
  names it: a shown success is Matched, a camera that is off is Off, a pending
  recognition is Recognizing, and otherwise the loop is Idle.  Each code event is
  labelled with the design action its guards perform (\<open>design_action\<close>), and every
  step between reachable states is the design's transition for that action or one of
  seven divergences listed in \<open>divergence\<close>, each of which occurs in a reachable run
  (\<open>divergences_occur\<close>).
\<close>

datatype Phase = Off | Idle | Recognizing | Matched

definition phase_of :: "CameraView \<Rightarrow> Phase" where
  "phase_of s =
     (if showSuccess s \<noteq> None then Matched
      else if \<not> isCameraOn s then Off
      else if isRecognizing s then Recognizing
      else Idle)"

text \<open>The actions of the design: start, a poll, a result with no new match, a new
  match, the end of the display window, a stop, and nothing.  A code event performs the
  design action that the design's own gates name: a grant is the start; Stop is the
  stop; a tick is a poll exactly when no attempt is in flight, the 5000 ms cooldown has
  passed and a frame could be taken; a settlement is a new match when its student
  differs from the one remembered; the display timer ends the window.  Every other event
  is no action of the design.\<close>

datatype Action = AStart | APoll | ANoMatch | AMatch | AWindow | AStop | ANone

fun design_action :: "CameraView \<Rightarrow> CameraEvent \<Rightarrow> Action" where
  "design_action s ClickStart = ANone"
| "design_action s MediaGranted = AStart"
| "design_action s MediaDenied = ANone"
| "design_action s ClickStop = AStop"
| "design_action s (IntervalTick now frame) =
     (if \<not> isRecognizing s \<and> 5000 < now - lastRecognitionTime s \<and> frame \<noteq> None then APoll else ANone)"
| "design_action s (RecognitionSettled now reply) =
     (case inFlight s of
        None \<Rightarrow> ANone
      | Some f \<Rightarrow>
          (case settledStudent f reply of
             None \<Rightarrow> ANoMatch
           | Some st \<Rightarrow> if lastMarkedStudentId s = Some (sid st) then ANoMatch else AMatch))"
| "design_action s (SuccessTimerFired now) = AWindow"

text \<open>The design's transitions, each with the one action that takes it.  Only the
  action of no event leaves the phase alone; a stop goes to Off from anywhere.\<close>

inductive design_step :: "Action \<Rightarrow> Phase \<Rightarrow> Phase \<Rightarrow> bool" where
  start: "design_step AStart Off Idle"
| poll: "design_step APoll Idle Recognizing"
| no_match: "design_step ANoMatch Recognizing Idle"
| matched: "design_step AMatch Recognizing Matched"
| window: "design_step AWindow Matched Idle"
| stop: "design_step AStop p Off"
| none: "design_step ANone p p"

inductive_simps design_step_simps [simp]: "design_step a p q"

text \<open>The steps where the code leaves the design, each one a finding of this
  development: the window ends with the camera off, because the match released it
  (\<open>success_releases_camera\<close>); a grant arrives while the camera streams or the success
  card shows (\<open>overlapping_starts_leak_stream\<close>), or under a recognition left pending by
  Stop, which then settles with the camera off (\<open>stop_then_settle_marks\<close>); a refused
  overlapping start turns a streaming camera off; Stop under the success card keeps the
  card.\<close>

inductive divergence :: "Action \<Rightarrow> Phase \<Rightarrow> Phase \<Rightarrow> bool" where
  window_off: "divergence AWindow Matched Off"
| regrant: "p \<noteq> Off \<Longrightarrow> divergence AStart p p"
| stale_grant: "divergence AStart Off Recognizing"
| denied_while_on: "p = Idle \<or> p = Recognizing \<Longrightarrow> divergence ANone p Off"
| stop_under_card: "divergence AStop Matched Matched"
| stale_no_match: "divergence ANoMatch Off Off"
| stale_match: "divergence AMatch Off Matched"

inductive_simps divergence_simps [simp]: "divergence a p q"

text \<open>The camera view's render.  \<open>renderCamera\<close> keeps what is shown, not how: the
  video element is visible while the camera is on, the ``Camera is off'' placeholder,
  the overlay (success card, spinner, prompt, in that priority), the error banner and
  the one button.\<close>

datatype Overlay = SuccessCard string | RecognizingSpinner | FacePrompt | NoOverlay

datatype CameraButton = StartButton | StopButton

record CameraScreen =
  videoVisible :: bool
  offPlaceholder :: bool
  overlay :: Overlay
  errorBanner :: "string option"
  cameraButton :: CameraButton

definition cameraOverlay :: "CameraView \<Rightarrow> Overlay" where
  "cameraOverlay s =
     (case showSuccess s of
        Some student \<Rightarrow> SuccessCard (name student)
      | None \<Rightarrow> if isRecognizing s then RecognizingSpinner
                else if isCameraOn s then FacePrompt else NoOverlay)"

definition renderCamera :: "CameraView \<Rightarrow> CameraScreen" where
  "renderCamera s =
     \<lparr>videoVisible = isCameraOn s,
      offPlaceholder = (\<not> isCameraOn s \<and> showSuccess s = None),
      overlay = cameraOverlay s,
      errorBanner = (case error s of Some e \<Rightarrow> if e = [] then None else Some e | None \<Rightarrow> None),
      cameraButton = (if \<not> isCameraOn s then StartButton else StopButton)\<rparr>"

text \<open>The message \<open>startCamera\<close> shows when \<open>getUserMedia\<close> is refused.\<close>

abbreviation refusalText :: string where
  "refusalText \<equiv> ''Could not access the camera. Please check permissions and try again.''"

subsection \<open>Phases of the handlers\<close>

lemma cam_inv_phase_facts:
  assumes "cam_inv s t"
  shows "isRecognizing s \<longleftrightarrow> inFlight s \<noteq> None"
    and "inFlight s \<noteq> None \<Longrightarrow> showSuccess s = None"
    and "successTimers s \<noteq> [] \<longleftrightarrow> showSuccess s \<noteq> None"
    and "isCameraOn s \<Longrightarrow> srcObject s \<noteq> None"
  using assms by (auto simp: cam_inv_def)

lemma phase_granted:
  "cam_inv s t \<Longrightarrow>
   design_step AStart (phase_of s) (phase_of (startCameraGranted s)) \<or>
   divergence AStart (phase_of s) (phase_of (startCameraGranted s))"
  by (auto simp: phase_of_def startCameraGranted_def Let_def)

lemma phase_denied:
  "design_step ANone (phase_of s) (phase_of (startCameraDenied s)) \<or>
   divergence ANone (phase_of s) (phase_of (startCameraDenied s))"
  by (auto simp: phase_of_def startCameraDenied_def)

lemma phase_stop:
  "isCameraOn s \<Longrightarrow> cam_inv s t \<Longrightarrow>
   design_step AStop (phase_of s) (phase_of (stopCamera s)) \<or>
   divergence AStop (phase_of s) (phase_of (stopCamera s))"
  by (auto simp: phase_of_def stopCamera_def cam_inv_def split: option.splits)

lemma phase_tick:
  "isCameraOn s \<Longrightarrow> showSuccess s = None \<Longrightarrow>
   design_step (design_action s (IntervalTick now frame)) (phase_of s)
     (phase_of (intervalTick key students now frame s))"
  by (auto simp: phase_of_def intervalTick_def captureAndRecognize_def Let_def split: option.splits)

lemma phase_settled:
  assumes "cam_inv s t" "inFlight s = Some f"
  shows "design_step (design_action s (RecognitionSettled now reply)) (phase_of s)
           (phase_of (fst (recognitionSettled now reply s))) \<or>
         divergence (design_action s (RecognitionSettled now reply)) (phase_of s)
           (phase_of (fst (recognitionSettled now reply s)))"
proof -
  have pre: "isRecognizing s" "showSuccess s = None" "lastMarkedStudentId s = None"
    "ifLastMarked f = None"
    using assms by (auto simp: cam_inv_def)
  show ?thesis
    using pre assms(2)
    by (cases "settledStudent f reply") (auto simp: recognitionSettled_cases phase_of_def)
qed

lemma phase_timer:
  assumes "cam_inv s t" "successTimers s \<noteq> []"
  shows "design_step AWindow (phase_of s) (phase_of (successTimerFired s)) \<or>
         divergence AWindow (phase_of s) (phase_of (successTimerFired s))"
proof -
  have "showSuccess s \<noteq> None" "inFlight s = None"
    using cam_inv_phase_facts(2,3) [OF assms(1)] assms(2) by (cases "inFlight s", auto)+
  then have "\<not> isRecognizing s" using cam_inv_phase_facts(1) [OF assms(1)] by simp
  with \<open>showSuccess s \<noteq> None\<close> show ?thesis
    by (simp add: phase_of_def successTimerFired_def)
qed

text \<open>A divergence as a concrete run from the mount: the run and the event are
  enabled in turn, and the event performs the action and moves the phase as given.\<close>

definition shows_divergence :: "CameraEvent list \<Rightarrow> CameraEvent \<Rightarrow> Action \<Rightarrow> Phase \<Rightarrow> Phase \<Rightarrow> bool" where
  "shows_divergence evs ev a p q \<longleftrightarrow>
     cam_valid [demoAnn] demoKey 0 (evs @ [ev]) cameraInit \<and>
     (let s = fst (cam_run demoKey [demoAnn] evs cameraInit)
      in design_action s ev = a \<and> phase_of s = p \<and> phase_of (fst (cam_step demoKey [demoAnn] ev s)) = q)"

abbreviation demoMatched :: "CameraEvent list" where
  "demoMatched \<equiv> [ClickStart, MediaGranted, IntervalTick 10000 (Some demoFrame),
                   RecognitionSettled 10300 (Some ''s1'')]"

subsection \<open>Properties\<close>

text \<open>Claim C11: every step of the capture loop between reachable states performs the
  design action its event names (\<open>design_action\<close>), and moves the phase the way the
  design's transition for that action does, or the way one of the listed divergences
  does (\<open>divergence\<close>); no other phase change occurs.\<close>

theorem loop_refines_design:
  assumes "cam_reach key s t" "cam_enabled s ev"
  shows "design_step (design_action s ev) (phase_of s) (phase_of (fst (cam_step key students ev s))) \<or>
         divergence (design_action s ev) (phase_of s) (phase_of (fst (cam_step key students ev s)))"
proof -
  have inv: "cam_inv s t" by (rule cam_reach_inv [OF assms(1)])
  show ?thesis
  proof (cases ev)
    case ClickStart
    then show ?thesis by (simp add: phase_of_def startCamera_def)
  next
    case MediaGranted
    then show ?thesis using phase_granted [OF inv] by simp
  next
    case MediaDenied
    then show ?thesis using phase_denied [of s] by simp
  next
    case ClickStop
    then show ?thesis using assms(2) phase_stop [OF _ inv] by simp
  next
    case (IntervalTick now frame)
    then show ?thesis using assms(2) phase_tick by simp
  next
    case (RecognitionSettled now reply)
    then obtain f where "inFlight s = Some f" using assms(2) by auto
    with RecognitionSettled show ?thesis using phase_settled [OF inv] by simp
  next
    case (SuccessTimerFired now)
    then show ?thesis using assms(2) phase_timer [OF inv] by simp
  qed
qed

text \<open>Each divergence occurs in a reachable run, and none of them is a step of the
  design: the list in \<open>divergence\<close> holds no case the code cannot take.\<close>

theorem divergences_occur:
  "shows_divergence demoMatched (SuccessTimerFired 14300) AWindow Matched Off \<and>
   shows_divergence [ClickStart, ClickStart, MediaGranted] MediaGranted AStart Idle Idle \<and>
   shows_divergence (take 3 demoMatched @ [ClickStop, ClickStart]) MediaGranted AStart Off Recognizing \<and>
   shows_divergence [ClickStart, ClickStart, MediaGranted] MediaDenied ANone Idle Off \<and>
   shows_divergence (demoMatched @ [ClickStart, MediaGranted]) ClickStop AStop Matched Matched \<and>
   shows_divergence (take 3 demoMatched @ [ClickStop]) (RecognitionSettled 10300 None) ANoMatch Off Off \<and>
   shows_divergence (take 3 demoMatched @ [ClickStop]) (RecognitionSettled 10300 (Some ''s1'')) AMatch Off Matched \<and>
   \<not> design_step AWindow Matched Off \<and> \<not> design_step AStart Idle Idle \<and>
   \<not> design_step AStart Off Recognizing \<and> \<not> design_step ANone Idle Off \<and>
   \<not> design_step AStop Matched Matched \<and> \<not> design_step ANoMatch Off Off \<and>
   \<not> design_step AMatch Off Matched"
  by (simp add: shows_divergence_def cam_eval phase_of_def)

text \<open>Claim C12: in every reachable state the render is faithful to the loop: the spinner
  is shown exactly while a recognition call is pending, the success card exactly while
  its 4-second timer is pending, and the Start button exactly while a click on it is
  possible.\<close>

theorem render_tracks_loop:
  assumes "cam_reach key s t"
  shows "(overlay (renderCamera s) = RecognizingSpinner \<longleftrightarrow> inFlight s \<noteq> None) \<and>
         ((\<exists>n. overlay (renderCamera s) = SuccessCard n) \<longleftrightarrow> successTimers s \<noteq> []) \<and>
         (cameraButton (renderCamera s) = StartButton \<longleftrightarrow> cam_enabled s ClickStart)"
proof -
  have inv: "cam_inv s t" by (rule cam_reach_inv [OF assms])
  note f = cam_inv_phase_facts [OF inv]
  show ?thesis
    using f by (auto simp: renderCamera_def cameraOverlay_def split: option.splits)
qed

abbreviation demoPoll :: "CameraEvent list" where
  "demoPoll \<equiv> [ClickStart, MediaGranted, IntervalTick 10000 (Some demoFrame)]"

theorem loop_refines_design_witness:
  "phase_of (fst (cam_step demoKey [demoAnn] (IntervalTick 10000 (Some demoFrame))
     (fst (cam_run demoKey [demoAnn] [ClickStart, MediaGranted] cameraInit)))) = Recognizing"
proof -
  have v: "cam_valid [demoAnn] demoKey 0 [ClickStart, MediaGranted] cameraInit" by (simp add: cam_eval)
  have e: "cam_enabled (fst (cam_run demoKey [demoAnn] [ClickStart, MediaGranted] cameraInit))
             (IntervalTick 10000 (Some demoFrame))" by (simp add: cam_eval)
  have a: "design_action (fst (cam_run demoKey [demoAnn] [ClickStart, MediaGranted] cameraInit))
             (IntervalTick 10000 (Some demoFrame)) = APoll" by (simp add: cam_eval)
  have p: "phase_of (fst (cam_run demoKey [demoAnn] [ClickStart, MediaGranted] cameraInit)) = Idle"
    by (simp add: cam_eval phase_of_def)
  show ?thesis
    using loop_refines_design [OF cam_reach_from_mount [OF v] e, of "[demoAnn]"]
    unfolding a p by simp
qed

theorem render_tracks_loop_witness:
  "overlay (renderCamera (fst (cam_run demoKey [demoAnn] demoPoll cameraInit))) = RecognizingSpinner \<and>
   cameraButton (renderCamera (fst (cam_run demoKey [demoAnn] demoPoll cameraInit))) = StopButton"
proof -
  have v: "cam_valid [demoAnn] demoKey 0 demoPoll cameraInit" by (simp add: cam_eval)
  have "inFlight (fst (cam_run demoKey [demoAnn] demoPoll cameraInit)) \<noteq> None" by (simp add: cam_eval)
  moreover have "\<not> cam_enabled (fst (cam_run demoKey [demoAnn] demoPoll cameraInit)) ClickStart"
    by (simp add: cam_eval)
  ultimately show ?thesis
    using render_tracks_loop [OF cam_reach_from_mount [OF v]] by (auto intro: CameraButton.exhaust)
qed

text \<open>Claim C36: Stop does not end a recognition already pending: when it settles with a
  student, the camera is off and the loop goes from Off straight to Matched, showing the
  success card and reporting the student.\<close>

theorem stop_then_settle_marks:
  "cam_reach demoKey (fst (cam_run demoKey [demoAnn] (demoPoll @ [ClickStop]) cameraInit)) 10000 \<and>
   phase_of (fst (cam_run demoKey [demoAnn] (demoPoll @ [ClickStop]) cameraInit)) = Off \<and>
   phase_of (fst (cam_step demoKey [demoAnn] (RecognitionSettled 10300 (Some ''s1''))
     (fst (cam_run demoKey [demoAnn] (demoPoll @ [ClickStop]) cameraInit)))) = Matched \<and>
   snd (cam_step demoKey [demoAnn] (RecognitionSettled 10300 (Some ''s1''))
     (fst (cam_run demoKey [demoAnn] (demoPoll @ [ClickStop]) cameraInit))) = [demoAnn]"
proof -
  have v: "cam_valid [demoAnn] demoKey 0 (demoPoll @ [ClickStop]) cameraInit" by (simp add: cam_eval)
  have "cam_reach demoKey (fst (cam_run demoKey [demoAnn] (demoPoll @ [ClickStop]) cameraInit)) 10000"
    using cam_reach_from_mount [OF v] by (simp add: cam_eval)
  then show ?thesis by (simp add: cam_eval phase_of_def)
qed

subsection \<open>The error banner\<close>

text \<open>Only \<open>startCamera\<close> calls \<open>setError(null)\<close>: every other event keeps the
  refusal message.\<close>

lemma error_kept_but_start:
  assumes "error s = Some refusalText" "ev \<noteq> ClickStart"
  shows "error (fst (cam_step key students ev s)) = Some refusalText"
proof (cases ev)
  case (RecognitionSettled now reply)
  with assms(1) show ?thesis
    by (auto simp: recognitionSettled_def markSuccess_def stopCamera_def split_def Let_def
        split: option.split)
qed (use assms in \<open>auto simp: startCameraGranted_def startCameraDenied_def stopCamera_def
      intervalTick_def captureAndRecognize_def successTimerFired_def Let_def split: option.split\<close>)

lemma error_kept_run:
  "error s = Some refusalText \<Longrightarrow> ClickStart \<notin> set evs \<Longrightarrow>
   error (fst (cam_run key students evs s)) = Some refusalText"
proof (induction evs arbitrary: s)
  case (Cons ev evs)
  then have "error (fst (cam_step key students ev s)) = Some refusalText"
    by (intro error_kept_but_start) auto
  with Cons show ?case by (auto simp: split_def Let_def)
qed simp

text \<open>Claim C18: a refused camera request is reported as the design asks (an error
  kind of its own): the view shows the permission message, hides the video and offers
  Start; the message stays on screen through every later event until the next click on
  Start.\<close>

theorem refusal_reported:
  "errorBanner (renderCamera (startCameraDenied s)) = Some refusalText \<and>
   cameraButton (renderCamera (startCameraDenied s)) = StartButton \<and>
   \<not> videoVisible (renderCamera (startCameraDenied s)) \<and>
   (ClickStart \<notin> set evs \<longrightarrow>
      errorBanner (renderCamera (fst (cam_run key students evs (startCameraDenied s)))) = Some refusalText)"
  using error_kept_run [of "startCameraDenied s" evs key students]
  by (simp add: renderCamera_def startCameraDenied_def)

theorem refusal_reported_witness:
  "errorBanner (renderCamera (fst (cam_run demoKey [demoAnn] [ClickStop, IntervalTick 9000 None]
      (startCameraDenied (startCamera cameraInit))))) = Some refusalText"
  using refusal_reported [of "startCamera cameraInit" "[ClickStop, IntervalTick 9000 None]" demoKey "[demoAnn]"]
  by simp

text \<open>Claim C30: the banner is not tied to the camera: when one of two overlapping
  starts is refused and the other granted, the camera streams under the message that it
  could not be accessed.\<close>

theorem error_banner_over_live_camera:
  "cam_reach key (fst (cam_run key students [ClickStart, ClickStart, MediaDenied, MediaGranted] cameraInit)) 0 \<and>
   renderCamera (fst (cam_run key students [ClickStart, ClickStart, MediaDenied, MediaGranted] cameraInit)) =
     \<lparr>videoVisible = True, offPlaceholder = False, overlay = FacePrompt,
      errorBanner = Some refusalText, cameraButton = StopButton\<rparr>"
proof -
  have v: "cam_valid students key 0 [ClickStart, ClickStart, MediaDenied, MediaGranted] cameraInit"
    by (simp add: cam_eval)
  show ?thesis
    using cam_reach_from_mount [OF v]
    by (simp add: cam_eval renderCamera_def cameraOverlay_def)
qed

end
