(* ===== verification/CaptureProgress.thy ===== *)
theory CaptureProgress
  imports CaptureLoop
begin

text \<open>
  Quantitative and progress properties of the capture loop
  (\<open>src/components/CameraView.tsx\<close>): how many oracle calls a time window can hold,
  that the callbacks already scheduled run out, and that a running camera always gets
  to its next poll.  The work the loop has scheduled but not yet run is measured by
  \<open>pending_work\<close>: the outstanding \<open>getUserMedia\<close> promises, twice the pending
  recognition (its settlement may start the 4-second timer), and the pending timers.
  The callbacks are the events the browser delivers for that work; the user's clicks
  and the interval's ticks are not callbacks.
\<close>

definition pending_work :: "CameraView \<Rightarrow> nat" where
  "pending_work s =
     pendingStarts s + (case inFlight s of None \<Rightarrow> 0 | Some _ \<Rightarrow> 2) + length (successTimers s)"

fun callback_event :: "CameraEvent \<Rightarrow> bool" where
  "callback_event MediaGranted = True"
| "callback_event MediaDenied = True"
| "callback_event (RecognitionSettled now reply) = True"
| "callback_event (SuccessTimerFired now) = True"
| "callback_event ev = False"

subsection \<open>Lemmas\<close>





lemma markSuccess_pendingStarts [simp]: "pendingStarts (markSuccess now st s) = pendingStarts s"
  by (simp add: markSuccess_def stopCamera_def Let_def split: option.splits)

lemma recognitionSettled_work:
  assumes "cam_inv s t" "inFlight s = Some f"
  shows "pending_work (fst (recognitionSettled now reply s)) < pending_work s"
proof -
  have "successTimers s = []"
    using assms by (auto simp: cam_inv_def)
  then show ?thesis
    using assms(2)
    by (cases "settledStudent f reply") (auto simp: recognitionSettled_cases pending_work_def)
qed

lemma callback_decreases_work:
  assumes "cam_inv s t" "cam_enabled s ev" "callback_event ev"
  shows "pending_work (fst (cam_step key students ev s)) < pending_work s"
proof (cases ev)
  case (RecognitionSettled now reply)
  with assms(2) obtain f where "inFlight s = Some f" by auto
  with RecognitionSettled show ?thesis using recognitionSettled_work [OF assms(1)] by simp
next
  case (SuccessTimerFired now)
  with assms(2) show ?thesis by (auto simp: pending_work_def successTimerFired_def)
qed (use assms in \<open>auto simp: pending_work_def startCameraGranted_def startCameraDenied_def Let_def\<close>)

lemma cam_reach_step_inv:
  "cam_reach key s t \<Longrightarrow> cam_enabled s ev \<Longrightarrow> clock_ok t ev \<Longrightarrow>
   cam_inv (fst (cam_step key students ev s)) (clock_after t ev)"
  by (rule cam_reach_inv [OF cam_reach.step])

subsection \<open>Properties\<close>


text \<open>Claim C14: the callbacks the loop has scheduled run out: from a reachable state,
  any run made only of callbacks (grants and refusals of the camera, settlements,
  timers) has at most \<open>pending_work\<close> events, since each of them lowers it.\<close>

theorem callbacks_run_out:
  assumes "cam_reach key s t" "cam_valid students key t evs s" "list_all callback_event evs"
  shows "length evs \<le> pending_work s"
  using assms
proof (induction evs arbitrary: s t)
  case Nil
  then show ?case by simp
next
  case (Cons ev evs)
  have en: "cam_enabled s ev" "clock_ok t ev" using Cons.prems(2) by simp_all
  have r: "cam_reach key (fst (cam_step key students ev s)) (clock_after t ev)"
    by (rule cam_reach.step [OF Cons.prems(1) en])
  have "length evs \<le> pending_work (fst (cam_step key students ev s))"
    using Cons.IH [OF r] Cons.prems(2,3) by simp
  moreover have "pending_work (fst (cam_step key students ev s)) < pending_work s"
    using callback_decreases_work [OF cam_reach_inv [OF Cons.prems(1)] en(1)] Cons.prems(3) by simp
  ultimately show ?case by simp
qed

text \<open>Claim C15: a running camera always gets to its next poll: from a reachable state
  with the camera on, no success shown and no call pending, a tick at most 5001 ms
  after the last recognition (or now, if that is later) starts a recognition.\<close>

theorem polling_progress:
  assumes "cam_reach key s t" "isCameraOn s" "showSuccess s = None" "inFlight s = None"
  shows "\<exists>now. now \<le> max t (lastRecognitionTime s + 5001) \<and>
           cam_enabled s (IntervalTick now (Some frame)) \<and> clock_ok t (IntervalTick now (Some frame)) \<and>
           inFlight (fst (cam_step key students (IntervalTick now (Some frame)) s)) \<noteq> None"
proof -
  have "\<not> isRecognizing s" using cam_reach_inv [OF assms(1)] assms(4) by (simp add: cam_inv_def)
  then show ?thesis
    using assms(2,3)
    by (intro exI [of _ "max t (lastRecognitionTime s + 5001)"])
      (auto simp: clock_ok_def intervalTick_def captureAndRecognize_def Let_def max_def)
qed



theorem callbacks_run_out_witness:
  "length [MediaGranted, MediaDenied] \<le> pending_work (fst (cam_run demoKey [demoAnn] [ClickStart, ClickStart] cameraInit)) \<and>
   pending_work (fst (cam_run demoKey [demoAnn] [ClickStart, ClickStart] cameraInit)) = 2"
proof -
  have v: "cam_valid [demoAnn] demoKey 0 [ClickStart, ClickStart] cameraInit" by (simp add: cam_eval)
  have r: "cam_reach demoKey (fst (cam_run demoKey [demoAnn] [ClickStart, ClickStart] cameraInit)) 0"
    using cam_reach_from_mount [OF v] by (simp add: cam_eval)
  have "cam_valid [demoAnn] demoKey 0 [MediaGranted, MediaDenied]
      (fst (cam_run demoKey [demoAnn] [ClickStart, ClickStart] cameraInit))" by (simp add: cam_eval)
  from callbacks_run_out [OF r this] show ?thesis by (simp add: cam_eval pending_work_def)
qed

theorem polling_progress_witness:
  "inFlight (fst (cam_step demoKey [demoAnn] (IntervalTick 5001 (Some demoFrame))
     (fst (cam_run demoKey [demoAnn] [ClickStart, MediaGranted] cameraInit)))) \<noteq> None"
proof -
  have v: "cam_valid [demoAnn] demoKey 0 [ClickStart, MediaGranted] cameraInit" by (simp add: cam_eval)
  have r: "cam_reach demoKey (fst (cam_run demoKey [demoAnn] [ClickStart, MediaGranted] cameraInit)) 0"
    using cam_reach_from_mount [OF v] by (simp add: cam_eval)
  obtain now where "now \<le> 5001"
    "inFlight (fst (cam_step demoKey [demoAnn] (IntervalTick now (Some demoFrame))
       (fst (cam_run demoKey [demoAnn] [ClickStart, MediaGranted] cameraInit)))) \<noteq> None"
    using polling_progress [OF r, of demoFrame "[demoAnn]"] by (auto simp: cam_eval)
  then show ?thesis by (simp add: cam_eval)
qed

end
