(* ===== verification/Ledger.thy ===== *)
theory Ledger
  imports Types
begin

text \<open>
  The attendance ledger: the \<open>attendance\<close> state of \<open>App\<close> (\<open>src/App.tsx\<close>), the
  handler \<open>handleAttendanceMarked\<close> that records a recognised student with same-day
  de-duplication, the attendance half of \<open>handleDeleteStudent\<close> (the cascade), the
  resend stub, and the date filter of \<open>src/components/AttendanceList.tsx\<close>.
  The invariant \<open>ledger_ok\<close> says that no student has two records for one date; every
  operation keeps it.
\<close>

subsection \<open>Operations\<close>

text \<open>The record built from one clock reading: \<open>recordId\<close> is \<open>`att-${Date.now()}`\<close>.\<close>

definition newAttendanceRecord :: "Clock \<Rightarrow> Student \<Rightarrow> AttendanceRecord" where
  "newAttendanceRecord now student =
     \<lparr>recordId = ''att-'' @ js_nat_string (now_ms now),
      studentId = sid student,
      studentName = name student,
      date = locale_date now,
      time = locale_time now,
      status = Present\<rparr>"

text \<open>\<open>prev.some(record => record.studentId === student.id && record.date === newRecord.date)\<close>\<close>

definition alreadyMarked :: "AttendanceRecord list \<Rightarrow> Student \<Rightarrow> string \<Rightarrow> bool" where
  "alreadyMarked prev student d =
     list_ex (\<lambda>record. studentId record = sid student \<and> date record = d) prev"

definition handleAttendanceMarked ::
  "Clock \<Rightarrow> Student \<Rightarrow> AttendanceRecord list \<Rightarrow> AttendanceRecord list" where
  "handleAttendanceMarked now student prev =
     (let newRecord = newAttendanceRecord now student
      in if alreadyMarked prev student (date newRecord) then prev else newRecord # prev)"

text \<open>The cascade of \<open>handleDeleteStudent\<close>:
  \<open>prevAtt.filter(rec => rec.studentId !== studentId)\<close>.\<close>

definition purgeAttendance :: "string \<Rightarrow> AttendanceRecord list \<Rightarrow> AttendanceRecord list" where
  "purgeAttendance studentId' prevAtt = filter (\<lambda>rec. studentId rec \<noteq> studentId') prevAtt"

text \<open>\<open>handleResendNotification\<close> only logs and shows an alert: its whole effect is the
  text it shows, and the ledger is left as it is.\<close>

definition handleResendNotification :: "string \<Rightarrow> string" where
  "handleResendNotification rid =
     ''WhatsApp notification for record '' @ rid @ '' has been resent (simulated).''"

text \<open>\<open>filteredAttendance\<close> of \<open>AttendanceList\<close>: an empty filter (\<open>!filterDate\<close>) shows
  everything, otherwise the records of that date, in ledger order.\<close>

definition filteredAttendance :: "string \<Rightarrow> AttendanceRecord list \<Rightarrow> AttendanceRecord list" where
  "filteredAttendance filterDate attendance =
     (if filterDate = [] then attendance else filter (\<lambda>record. date record = filterDate) attendance)"

subsection \<open>The invariant: one record per student and date\<close>

definition day_key :: "AttendanceRecord \<Rightarrow> string \<times> string" where
  "day_key r = (studentId r, date r)"

definition ledger_ok :: "AttendanceRecord list \<Rightarrow> bool" where
  "ledger_ok att \<longleftrightarrow> distinct (map day_key att)"

definition marks_of :: "string \<Rightarrow> string \<Rightarrow> AttendanceRecord list \<Rightarrow> AttendanceRecord list" where
  "marks_of s d att = filter (\<lambda>r. studentId r = s \<and> date r = d) att"

lemmas ledger_defs = handleAttendanceMarked_def alreadyMarked_def newAttendanceRecord_def
  purgeAttendance_def filteredAttendance_def ledger_ok_def day_key_def marks_of_def

lemma newAttendanceRecord_sel [simp]:
  "studentId (newAttendanceRecord now st) = sid st"
  "date (newAttendanceRecord now st) = locale_date now"
  "studentName (newAttendanceRecord now st) = name st"
  "recordId (newAttendanceRecord now st) = ''att-'' @ js_nat_string (now_ms now)"
  by (simp_all add: newAttendanceRecord_def)

lemma alreadyMarked_iff:
  "alreadyMarked prev st d \<longleftrightarrow> (\<exists>r \<in> set prev. studentId r = sid st \<and> date r = d)"
  by (simp add: alreadyMarked_def list_ex_iff)

lemma handleAttendanceMarked_cases:
  "handleAttendanceMarked now st prev =
     (if \<exists>r \<in> set prev. studentId r = sid st \<and> date r = locale_date now then prev
      else newAttendanceRecord now st # prev)"
  by (simp add: handleAttendanceMarked_def alreadyMarked_iff Let_def)

lemma marks_of_empty_iff:
  "marks_of s d att = [] \<longleftrightarrow> \<not> (\<exists>r \<in> set att. studentId r = s \<and> date r = d)"
  by (auto simp: marks_of_def filter_empty_conv)

text \<open>Under the invariant a student has at most one record per date.\<close>

lemma ledger_ok_marks_of_le1: "ledger_ok att \<Longrightarrow> length (marks_of s d att) \<le> 1"
proof (induction att)
  case Nil
  then show ?case by (simp add: marks_of_def)
next
  case (Cons r att)
  then show ?case
    by (auto simp: ledger_ok_def marks_of_def day_key_def filter_empty_conv image_iff)
qed

lemma ledger_ok_Cons:
  "ledger_ok (r # att) \<longleftrightarrow> ledger_ok att \<and> (\<forall>q \<in> set att. day_key q \<noteq> day_key r)"
  by (auto simp: ledger_ok_def image_iff)

lemma ledger_ok_filter: "ledger_ok att \<Longrightarrow> ledger_ok (filter P att)"
  by (simp add: ledger_ok_def distinct_map_filter)

lemma handleAttendanceMarked_keeps_ok:
  "ledger_ok att \<Longrightarrow> ledger_ok (handleAttendanceMarked now st att)"
  by (auto simp: handleAttendanceMarked_cases ledger_ok_Cons day_key_def)

lemma purgeAttendance_keeps_ok: "ledger_ok att \<Longrightarrow> ledger_ok (purgeAttendance x att)"
  by (simp add: purgeAttendance_def ledger_ok_filter)

lemma marks_of_handleAttendanceMarked:
  "marks_of s d (handleAttendanceMarked now st att) =
     (if s = sid st \<and> d = locale_date now \<and> marks_of s d att = []
      then [newAttendanceRecord now st] else marks_of s d att)"
  by (auto simp: handleAttendanceMarked_cases marks_of_def filter_empty_conv)

subsection \<open>The writers of the ledger\<close>

text \<open>Two handlers of \<open>App\<close> write \<open>attendance\<close>: the recognition callback and the
  cascade of a confirmed delete.  As operations:\<close>

datatype LedgerOp = MarkOp Clock Student | PurgeOp string

fun ledger_step :: "AttendanceRecord list \<Rightarrow> LedgerOp \<Rightarrow> AttendanceRecord list" where
  "ledger_step att (MarkOp now st) = handleAttendanceMarked now st att"
| "ledger_step att (PurgeOp x) = purgeAttendance x att"

definition ledger_run :: "AttendanceRecord list \<Rightarrow> LedgerOp list \<Rightarrow> AttendanceRecord list" where
  "ledger_run att ops = foldl ledger_step att ops"

lemma ledger_step_keeps_ok: "ledger_ok att \<Longrightarrow> ledger_ok (ledger_step att op)"
  by (cases op) (simp_all add: handleAttendanceMarked_keeps_ok purgeAttendance_keeps_ok)

lemma ledger_ok_day_distinct:
  "ledger_ok att \<Longrightarrow> distinct (map studentId (filter (\<lambda>r. date r = d) att))"
proof -
  assume "ledger_ok att"
  then have "distinct (map day_key (filter (\<lambda>r. date r = d) att))"
    by (simp add: ledger_ok_def distinct_map_filter)
  then show ?thesis by (induction att) (auto simp: day_key_def)
qed

subsection \<open>Properties\<close>

text \<open>Starting from an empty ledger, every sequence of recognitions and
  cascading deletes leaves at most one attendance record per student and date.\<close>

theorem ledger_run_one_per_day:
  "length (marks_of s d (ledger_run [] ops)) \<le> 1"
proof -
  have "ledger_ok (foldl ledger_step att ops)" if "ledger_ok att" for att
    using that by (induction ops arbitrary: att) (simp_all add: ledger_step_keeps_ok)
  then have "ledger_ok (ledger_run [] ops)" by (simp add: ledger_run_def ledger_ok_def)
  then show ?thesis by (rule ledger_ok_marks_of_le1)
qed

text \<open>Claim C19: marking the same student any positive number of times on one date
  leaves exactly one record of the student for that date.\<close>

theorem mark_same_day_exactly_once:
  assumes "ledger_ok att" and "cs \<noteq> []" and "\<forall>c \<in> set cs. locale_date c = d"
  shows "length (marks_of (sid st) d (fold (\<lambda>c. handleAttendanceMarked c st) cs att)) = 1"
  using assms
proof (induction cs arbitrary: att rule: rev_induct)
  case Nil
  then show ?case by simp
next
  case (snoc c cs)
  let ?att = "fold (\<lambda>c. handleAttendanceMarked c st) cs att"
  have "ledger_ok ?att"
    using snoc.prems(1) by (induction cs arbitrary: att) (simp_all add: handleAttendanceMarked_keeps_ok)
  then have le: "length (marks_of (sid st) d ?att) \<le> 1" by (rule ledger_ok_marks_of_le1)
  have "locale_date c = d" using snoc.prems(3) by simp
  with le show ?case
    by (cases "marks_of (sid st) d ?att") (simp_all add: marks_of_handleAttendanceMarked)
qed


theorem mark_same_day_exactly_once_witness:
  "length (marks_of ''s1'' ''2025-09-01''
     (fold (\<lambda>c. handleAttendanceMarked c
        \<lparr>name = ''Ann'', rollNumber = ''7'', phoneNumber = ''555'', imageUrl = [], sid = ''s1''\<rparr>)
      [\<lparr>now_ms = 1000, locale_date = ''2025-09-01'', locale_time = ''09:00''\<rparr>,
       \<lparr>now_ms = 9000, locale_date = ''2025-09-01'', locale_time = ''09:05''\<rparr>] [])) = 1"
  using mark_same_day_exactly_once [of "[]"
      "[\<lparr>now_ms = 1000, locale_date = ''2025-09-01'', locale_time = ''09:00''\<rparr>,
        \<lparr>now_ms = 9000, locale_date = ''2025-09-01'', locale_time = ''09:05''\<rparr>]"
      "''2025-09-01''"
      "\<lparr>name = ''Ann'', rollNumber = ''7'', phoneNumber = ''555'', imageUrl = [], sid = ''s1''\<rparr>"]
  by (simp add: ledger_ok_def)

text \<open>A second recognition of a student on the same date leaves the ledger
  as the first one left it, whatever the time of day and whatever the first call did.\<close>

theorem mark_same_day_idempotent:
  assumes "locale_date now' = locale_date now"
  shows "handleAttendanceMarked now' st (handleAttendanceMarked now st att) =
         handleAttendanceMarked now st att"
  using assms by (auto simp: handleAttendanceMarked_cases)


theorem mark_same_day_idempotent_witness:
  "locale_date \<lparr>now_ms = 9000, locale_date = ''2025-09-01'', locale_time = ''09:05''\<rparr> =
     locale_date \<lparr>now_ms = 1000, locale_date = ''2025-09-01'', locale_time = ''09:00''\<rparr> \<and>
   handleAttendanceMarked \<lparr>now_ms = 9000, locale_date = ''2025-09-01'', locale_time = ''09:05''\<rparr>
     \<lparr>name = ''Ann'', rollNumber = ''7'', phoneNumber = ''555'', imageUrl = [], sid = ''s1''\<rparr>
     (handleAttendanceMarked \<lparr>now_ms = 1000, locale_date = ''2025-09-01'', locale_time = ''09:00''\<rparr>
       \<lparr>name = ''Ann'', rollNumber = ''7'', phoneNumber = ''555'', imageUrl = [], sid = ''s1''\<rparr> []) =
   handleAttendanceMarked \<lparr>now_ms = 1000, locale_date = ''2025-09-01'', locale_time = ''09:00''\<rparr>
     \<lparr>name = ''Ann'', rollNumber = ''7'', phoneNumber = ''555'', imageUrl = [], sid = ''s1''\<rparr> []"
  using mark_same_day_idempotent
    [of "\<lparr>now_ms = 9000, locale_date = ''2025-09-01'', locale_time = ''09:05''\<rparr>"
        "\<lparr>now_ms = 1000, locale_date = ''2025-09-01'', locale_time = ''09:00''\<rparr>"
        "\<lparr>name = ''Ann'', rollNumber = ''7'', phoneNumber = ''555'', imageUrl = [], sid = ''s1''\<rparr>" "[]"]
  by simp

text \<open>Claim C24: deleting a student removes every record of that student, whenever it
  was made: marking the student and then purging equals purging alone, and a purge of
  one student commutes with marking another.\<close>

theorem purge_after_mark:
  "purgeAttendance (sid st) (handleAttendanceMarked now st att) = purgeAttendance (sid st) att \<and>
   (x \<noteq> sid st \<longrightarrow> purgeAttendance x (handleAttendanceMarked now st att) =
                    handleAttendanceMarked now st (purgeAttendance x att))"
  by (auto simp: handleAttendanceMarked_cases purgeAttendance_def)


theorem purge_after_mark_witness:
  "''s2'' \<noteq> sid \<lparr>name = ''Ann'', rollNumber = ''7'', phoneNumber = ''555'', imageUrl = [], sid = ''s1''\<rparr> \<and>
   purgeAttendance ''s2''
     (handleAttendanceMarked \<lparr>now_ms = 1000, locale_date = ''2025-09-01'', locale_time = ''09:00''\<rparr>
       \<lparr>name = ''Ann'', rollNumber = ''7'', phoneNumber = ''555'', imageUrl = [], sid = ''s1''\<rparr> []) =
   handleAttendanceMarked \<lparr>now_ms = 1000, locale_date = ''2025-09-01'', locale_time = ''09:00''\<rparr>
     \<lparr>name = ''Ann'', rollNumber = ''7'', phoneNumber = ''555'', imageUrl = [], sid = ''s1''\<rparr>
     (purgeAttendance ''s2'' [])"
  using purge_after_mark
    [of "\<lparr>name = ''Ann'', rollNumber = ''7'', phoneNumber = ''555'', imageUrl = [], sid = ''s1''\<rparr>"
        "\<lparr>now_ms = 1000, locale_date = ''2025-09-01'', locale_time = ''09:00''\<rparr>" "[]" "''s2''"]
  by simp

text \<open>With a date filter set, the attendance table lists each student at most
  once, and with the filter cleared it lists the whole ledger.\<close>

theorem filtered_day_one_row_per_student:
  assumes "ledger_ok att"
  shows "(filterDate \<noteq> [] \<longrightarrow> distinct (map studentId (filteredAttendance filterDate att))
            \<and> (\<forall>r \<in> set (filteredAttendance filterDate att). date r = filterDate))
         \<and> filteredAttendance [] att = att"
  using ledger_ok_day_distinct [OF assms, of filterDate] by (simp add: filteredAttendance_def)


theorem filtered_day_one_row_per_student_witness:
  "ledger_ok [] \<and> ''2025-09-01'' \<noteq> [] \<and>
   distinct (map studentId (filteredAttendance ''2025-09-01''
     (handleAttendanceMarked \<lparr>now_ms = 1000, locale_date = ''2025-09-01'', locale_time = ''09:00''\<rparr>
       \<lparr>name = ''Ann'', rollNumber = ''7'', phoneNumber = ''555'', imageUrl = [], sid = ''s1''\<rparr> [])))"
proof -
  let ?att = "handleAttendanceMarked \<lparr>now_ms = 1000, locale_date = ''2025-09-01'', locale_time = ''09:00''\<rparr>
       \<lparr>name = ''Ann'', rollNumber = ''7'', phoneNumber = ''555'', imageUrl = [], sid = ''s1''\<rparr> []"
  have ok: "ledger_ok ?att" by (simp add: handleAttendanceMarked_cases ledger_ok_def)
  have "distinct (map studentId (filteredAttendance ''2025-09-01'' ?att))"
    using filtered_day_one_row_per_student [OF ok, of "''2025-09-01''"] by simp
  then show ?thesis by (simp add: ledger_ok_def)
qed

end
