(* ===== verification/Roster.thy ===== *)
theory Roster
  imports Oracle
begin

text \<open>
  The roster store: the \<open>students\<close> state of \<open>App\<close> (\<open>src/App.tsx\<close>) with
  \<open>handleSaveStudent\<close> (create with a time-derived identifier and an avatar when no
  photo was given, or update by identifier), the roster half of
  \<open>handleDeleteStudent\<close>, and \<open>createAvatar\<close>.  The avatar is drawn on an off-screen
  canvas; the drawing calls are kept as a list of canvas operations, and the canvas
  itself (rasterising the operations and base64-encoding the PNG) is a parameter of
  the model: \<open>None\<close> when \<open>getContext('2d')\<close> returns \<open>null\<close>.
\<close>

subsection \<open>The avatar\<close>

datatype CanvasOp =
    FillStyle string
  | FillRect int int int int
  | Font string
  | TextAlign string
  | TextBaseline string
  | FillText string int int

type_synonym Rasterizer = "CanvasOp list \<Rightarrow> string"

definition avatarColors :: "string list" where
  "avatarColors = [''#4A90E2'', ''#50E3C2'', ''#B8E986'', ''#F8E71C'', ''#F5A623'', ''#BD10E0'', ''#9013FE'']"

text \<open>\<open>name.split(' ').map(n => n[0]).slice(0, 2).join('').toUpperCase()\<close>: the first
  character of each space-separated word (none for an empty word, whose \<open>n[0]\<close> is
  \<open>undefined\<close> and joins as the empty text), of the first two words.\<close>

definition avatarInitials :: "string \<Rightarrow> string" where
  "avatarInitials name' = js_to_upper (concat (take 2 (map (take 1) (js_split (CHR '' '') name'))))"

definition avatarOps :: "string \<Rightarrow> CanvasOp list" where
  "avatarOps name' =
     [FillStyle (avatarColors ! (length name' mod length avatarColors)), FillRect 0 0 200 200,
      Font ''bold 80px Arial'', FillStyle ''#FFFFFF'', TextAlign ''center'', TextBaseline ''middle'',
      FillText (avatarInitials name') 100 105]"

definition createAvatar :: "Rasterizer option \<Rightarrow> string \<Rightarrow> string" where
  "createAvatar canvas name' =
     (case canvas of None \<Rightarrow> [] | Some raster \<Rightarrow> dataUrl ''image/png'' (raster (avatarOps name')))"

subsection \<open>Saving and deleting\<close>

text \<open>\<open>if (studentId)\<close>: \<open>null\<close> and the empty text are falsy.\<close>

definition jsTruthy :: "string option \<Rightarrow> bool" where
  "jsTruthy x = (case x of None \<Rightarrow> False | Some v \<Rightarrow> v \<noteq> [])"

text \<open>The new student of the create branch: \<open>id: `s${Date.now()}`\<close>, the form's
  fields, and \<open>studentData.imageUrl || createAvatar(studentData.name)\<close>.\<close>

definition newStudent :: "Clock \<Rightarrow> Rasterizer option \<Rightarrow> StudentFormData \<Rightarrow> Student" where
  "newStudent now canvas studentData =
     \<lparr>name = name studentData, rollNumber = rollNumber studentData,
      phoneNumber = phoneNumber studentData,
      imageUrl = (if imageUrl studentData \<noteq> [] then imageUrl studentData
                  else createAvatar canvas (name studentData)),
      sid = ''s'' @ js_nat_string (now_ms now)\<rparr>"

definition updateStudents :: "string \<Rightarrow> StudentFormData \<Rightarrow> Student list \<Rightarrow> Student list" where
  "updateStudents studentId' studentData prevStudents =
     map (\<lambda>s. if sid s = studentId' then student_of_form (sid s) studentData else s) prevStudents"

definition handleSaveStudent ::
  "Clock \<Rightarrow> Rasterizer option \<Rightarrow> StudentFormData \<Rightarrow> string option \<Rightarrow> Student list \<Rightarrow> Student list" where
  "handleSaveStudent now canvas studentData studentId' prevStudents =
     (if jsTruthy studentId' then updateStudents (the studentId') studentData prevStudents
      else newStudent now canvas studentData # prevStudents)"

text \<open>The roster half of a confirmed \<open>handleDeleteStudent\<close>.\<close>

definition deleteStudentRoster :: "string \<Rightarrow> Student list \<Rightarrow> Student list" where
  "deleteStudentRoster studentId' prevStudents = filter (\<lambda>s. sid s \<noteq> studentId') prevStudents"

definition roster_ok :: "Student list \<Rightarrow> bool" where
  "roster_ok students \<longleftrightarrow> distinct (map sid students)"

lemma map_sid_updateStudents [simp]: "map sid (updateStudents i d xs) = map sid xs"
  by (induction xs) (auto simp: updateStudents_def)

lemma updateStudents_unknown: "i \<notin> sid ` set xs \<Longrightarrow> updateStudents i d xs = xs"
  by (induction xs) (auto simp: updateStudents_def)

lemma sid_newStudent [simp]: "sid (newStudent now canvas d) = ''s'' @ js_nat_string (now_ms now)"
  by (simp add: newStudent_def)

lemma updateStudents_target:
  "st \<in> set xs \<Longrightarrow> sid st = i \<Longrightarrow> student_of_form i d \<in> set (updateStudents i d xs)"
  by (induction xs) (auto simp: updateStudents_def)

lemma updateStudents_others:
  "x \<in> set xs \<Longrightarrow> sid x \<noteq> i \<Longrightarrow> x \<in> set (updateStudents i d xs)"
  by (induction xs) (auto simp: updateStudents_def)

lemma createAvatar_dataUrl:
  "createAvatar (Some raster) n = dataUrl ''image/png'' (raster (avatarOps n))"
  by (simp add: createAvatar_def)

subsection \<open>Properties\<close>

text \<open>Saving form data under an identifier no student has leaves the roster
  unchanged, silently: the caller gets no sign that nothing was edited.\<close>

theorem save_unknown_id_is_noop:
  assumes "i \<noteq> []" "i \<notin> sid ` set students"
  shows "handleSaveStudent now canvas d (Some i) students = students"
  using assms by (simp add: handleSaveStudent_def jsTruthy_def updateStudents_unknown)

theorem save_unknown_id_is_noop_witness:
  "handleSaveStudent \<lparr>now_ms = 1700000000000, locale_date = ''2025-09-01'', locale_time = ''09:00''\<rparr> None \<lparr>name = ''Cy Dee'', rollNumber = ''9'', phoneNumber = ''557'', imageUrl = []\<rparr> (Some ''s9'') [\<lparr>name = ''Ann'', rollNumber = ''7'', phoneNumber = ''555'', imageUrl = ''data:image/png;base64,QUJD'', sid = ''s1''\<rparr>] = [\<lparr>name = ''Ann'', rollNumber = ''7'', phoneNumber = ''555'', imageUrl = ''data:image/png;base64,QUJD'', sid = ''s1''\<rparr>]"
  using save_unknown_id_is_noop [of "''s9''" "[\<lparr>name = ''Ann'', rollNumber = ''7'', phoneNumber = ''555'', imageUrl = ''data:image/png;base64,QUJD'', sid = ''s1''\<rparr>]" "\<lparr>now_ms = 1700000000000, locale_date = ''2025-09-01'', locale_time = ''09:00''\<rparr>" None "\<lparr>name = ''Cy Dee'', rollNumber = ''9'', phoneNumber = ''557'', imageUrl = []\<rparr>"] by simp

text \<open>Claim C25: editing a student keeps every identifier and its position, stores the
  form's fields under the edited identifier, and keeps every other student.\<close>

theorem save_edit_updates_target:
  assumes "i \<noteq> []" "st \<in> set students" "sid st = i"
  shows "map sid (handleSaveStudent now canvas d (Some i) students) = map sid students \<and>
         student_of_form i d \<in> set (handleSaveStudent now canvas d (Some i) students) \<and>
         (\<forall>x \<in> set students. sid x \<noteq> i \<longrightarrow> x \<in> set (handleSaveStudent now canvas d (Some i) students))"
  using assms by (simp add: handleSaveStudent_def jsTruthy_def updateStudents_target updateStudents_others)

theorem save_edit_updates_target_witness:
  "handleSaveStudent \<lparr>now_ms = 1700000000000, locale_date = ''2025-09-01'', locale_time = ''09:00''\<rparr> None \<lparr>name = ''Cy Dee'', rollNumber = ''9'', phoneNumber = ''557'', imageUrl = []\<rparr> (Some ''s1'') [\<lparr>name = ''Ann'', rollNumber = ''7'', phoneNumber = ''555'', imageUrl = ''data:image/png;base64,QUJD'', sid = ''s1''\<rparr>] =
     [student_of_form ''s1'' \<lparr>name = ''Cy Dee'', rollNumber = ''9'', phoneNumber = ''557'', imageUrl = []\<rparr>]"
proof -
  have "map sid (handleSaveStudent \<lparr>now_ms = 1700000000000, locale_date = ''2025-09-01'', locale_time = ''09:00''\<rparr> None \<lparr>name = ''Cy Dee'', rollNumber = ''9'', phoneNumber = ''557'', imageUrl = []\<rparr> (Some ''s1'') [\<lparr>name = ''Ann'', rollNumber = ''7'', phoneNumber = ''555'', imageUrl = ''data:image/png;base64,QUJD'', sid = ''s1''\<rparr>]) = [''s1'']"
    using save_edit_updates_target [of "''s1''" "\<lparr>name = ''Ann'', rollNumber = ''7'', phoneNumber = ''555'', imageUrl = ''data:image/png;base64,QUJD'', sid = ''s1''\<rparr>" "[\<lparr>name = ''Ann'', rollNumber = ''7'', phoneNumber = ''555'', imageUrl = ''data:image/png;base64,QUJD'', sid = ''s1''\<rparr>]" "\<lparr>now_ms = 1700000000000, locale_date = ''2025-09-01'', locale_time = ''09:00''\<rparr>" None "\<lparr>name = ''Cy Dee'', rollNumber = ''9'', phoneNumber = ''557'', imageUrl = []\<rparr>"] by simp
  then show ?thesis by (simp add: handleSaveStudent_def jsTruthy_def updateStudents_def)
qed

text \<open>A student created without a photo while the canvas works gets a PNG
  avatar, and with an API key the next recognition request shows that student: its
  generated identifier \<open>s<Date.now()>\<close> followed by the avatar image.\<close>

theorem new_student_in_request:
  assumes "apiKeyPresent key" "imageUrl d = []" "CHR '','' \<notin> set (raster (avatarOps (name d)))"
  shows "\<exists>request pre post.
           oracleRequest key frame (handleSaveStudent now (Some raster) d None students) = Some request \<and>
           parts request = pre @ [TextPart (''Student ID: s'' @ js_nat_string (now_ms now)),
                                  InlineData ''image/png'' (raster (avatarOps (name d)))] @ post"
proof -
  let ?st = "newStudent now (Some raster) d"
  have roster: "handleSaveStudent now (Some raster) d None students = [] @ ?st # students"
    by (simp add: handleSaveStudent_def jsTruthy_def)
  have "imageUrl ?st = dataUrl ''image/png'' (raster (avatarOps (name d)))"
    using assms(2) by (simp add: newStudent_def createAvatar_dataUrl)
  then have sp: "studentParts ?st = [TextPart (''Student ID: s'' @ js_nat_string (now_ms now)),
                                     InlineData ''image/png'' (raster (avatarOps (name d)))]"
    using assms(3) by (subst studentParts_dataUrl) simp_all
  from oracleRequest_student_split [OF assms(1) roster, of frame] sp show ?thesis by auto
qed

theorem new_student_in_request_witness:
  "\<exists>request pre post.
     oracleRequest (Some ''key'') ''frame'' (handleSaveStudent \<lparr>now_ms = 1700000000000, locale_date = ''2025-09-01'', locale_time = ''09:00''\<rparr> (Some (\<lambda>_. ''QUJD'')) \<lparr>name = ''Cy Dee'', rollNumber = ''9'', phoneNumber = ''557'', imageUrl = []\<rparr> None [\<lparr>name = ''Ann'', rollNumber = ''7'', phoneNumber = ''555'', imageUrl = ''data:image/png;base64,QUJD'', sid = ''s1''\<rparr>])
       = Some request \<and>
     parts request = pre @ [TextPart (''Student ID: s'' @ js_nat_string 1700000000000),
                            InlineData ''image/png'' ''QUJD''] @ post"
  using new_student_in_request [where key = "Some ''key''" and d = "\<lparr>name = ''Cy Dee'', rollNumber = ''9'', phoneNumber = ''557'', imageUrl = []\<rparr>"
      and raster = "\<lambda>_. ''QUJD''" and frame = "''frame''" and now = "\<lparr>now_ms = 1700000000000, locale_date = ''2025-09-01'', locale_time = ''09:00''\<rparr>" and students = "[\<lparr>name = ''Ann'', rollNumber = ''7'', phoneNumber = ''555'', imageUrl = ''data:image/png;base64,QUJD'', sid = ''s1''\<rparr>]"]
  by (simp add: apiKeyPresent_def)

text \<open>The identifiers of created students are determined by the clock and
  tell creation times apart: two created students share an identifier exactly when
  they were created in the same millisecond.\<close>

theorem new_student_ids_by_time:
  "sid (newStudent now1 canvas1 d1) = sid (newStudent now2 canvas2 d2) \<longleftrightarrow> now_ms now1 = now_ms now2"
  by (simp add: js_nat_string_inj)

text \<open>Saving keeps the roster's identifiers distinct when the generated
  identifier is fresh or the save is an edit, and a delete keeps them distinct.\<close>

theorem save_delete_keep_roster_ok:
  assumes "roster_ok students"
    "jsTruthy studentId' \<or> ''s'' @ js_nat_string (now_ms now) \<notin> sid ` set students"
  shows "roster_ok (handleSaveStudent now canvas d studentId' students) \<and>
         roster_ok (deleteStudentRoster x students)"
  using assms by (auto simp: roster_ok_def handleSaveStudent_def deleteStudentRoster_def distinct_map_filter)

theorem save_delete_keep_roster_ok_witness:
  "roster_ok (handleSaveStudent \<lparr>now_ms = 1700000000000, locale_date = ''2025-09-01'', locale_time = ''09:00''\<rparr> None \<lparr>name = ''Cy Dee'', rollNumber = ''9'', phoneNumber = ''557'', imageUrl = []\<rparr> None [\<lparr>name = ''Ann'', rollNumber = ''7'', phoneNumber = ''555'', imageUrl = ''data:image/png;base64,QUJD'', sid = ''s1''\<rparr>])"
proof -
  have "roster_ok [\<lparr>name = ''Ann'', rollNumber = ''7'', phoneNumber = ''555'', imageUrl = ''data:image/png;base64,QUJD'', sid = ''s1''\<rparr>]" by (simp add: roster_ok_def)
  moreover have "''s'' @ js_nat_string (now_ms \<lparr>now_ms = 1700000000000, locale_date = ''2025-09-01'', locale_time = ''09:00''\<rparr>) \<notin> sid ` set [\<lparr>name = ''Ann'', rollNumber = ''7'', phoneNumber = ''555'', imageUrl = ''data:image/png;base64,QUJD'', sid = ''s1''\<rparr>]"
    by (simp add: js_nat_string.simps [of 1700000000000])
  ultimately show ?thesis
    using save_delete_keep_roster_ok [of "[\<lparr>name = ''Ann'', rollNumber = ''7'', phoneNumber = ''555'', imageUrl = ''data:image/png;base64,QUJD'', sid = ''s1''\<rparr>]" None "\<lparr>now_ms = 1700000000000, locale_date = ''2025-09-01'', locale_time = ''09:00''\<rparr>" None "\<lparr>name = ''Cy Dee'', rollNumber = ''9'', phoneNumber = ''557'', imageUrl = []\<rparr>" "''s1''"] by simp
qed

text \<open>Claim C32: two students created in the same millisecond get the same identifier,
  and deleting one of them deletes both.\<close>

theorem same_ms_creates_collide:
  "map sid (handleSaveStudent now canvas d2 None (handleSaveStudent now canvas d1 None [])) =
     [''s'' @ js_nat_string (now_ms now), ''s'' @ js_nat_string (now_ms now)] \<and>
   deleteStudentRoster (''s'' @ js_nat_string (now_ms now))
     (handleSaveStudent now canvas d2 None (handleSaveStudent now canvas d1 None [])) = []"
  by (simp add: handleSaveStudent_def jsTruthy_def deleteStudentRoster_def)

end
