(* ===== verification/App.thy ===== *)
theory App
  imports Ledger Roster CaptureLoop
begin

text \<open>
  The application shell, \<open>App\<close> of \<open>src/App.tsx\<close> with the view switch of
  \<open>src/components/Header.tsx\<close>: the current view, the roster, the ledger, and the
  \<open>CameraView\<close> mounted while the camera view is shown.  It composes the other
  components: a camera event runs \<open>cam_step\<close> with the current roster as the
  \<open>students\<close> prop and passes every reported student to \<open>handleAttendanceMarked\<close>
  (the \<open>onAttendanceMarked\<close> callback); the dashboard's callbacks run
  \<open>handleSaveStudent\<close> and \<open>handleDeleteStudent\<close>.

  Leaving the camera view unmounts \<open>CameraView\<close>.  Its cleanups run: the interval is
  cleared, and the unmount effect calls \<open>stopCamera()\<close>, which reads
  \<open>videoRef.current\<close>; React detaches the refs of a removed element before it runs
  the cleanups of \<open>useEffect\<close>, so that read is \<open>null\<close> and nothing is stopped.  What
  the unmounted component had started goes on without it: an awaited recognition still
  calls \<open>onAttendanceMarked\<close> when it settles (its state updates and its
  \<open>stopCamera()\<close> do nothing), and a pending \<open>getUserMedia\<close> still acquires a stream,
  which \<open>if (videoRef.current)\<close> then never attaches.  The state keeps these as
  \<open>orphanCalls\<close>, \<open>orphanStarts\<close> and the count of camera streams nobody can stop.
\<close>

datatype View = CameraV | DashboardV

record AppState =
  currentView :: View
  appStudents :: "Student list"
  appAttendance :: "AttendanceRecord list"
  cameraView :: "CameraView option"
  orphanCalls :: "InFlight list"
  orphanStarts :: nat
  leakedStreams :: nat

text \<open>The initial roster \<open>STUDENTS_MOCK\<close> comes from \<open>./constants\<close>, which is not
  part of the sources; it is a parameter.\<close>

definition appInit :: "Student list \<Rightarrow> AppState" where
  "appInit studentsMock =
     \<lparr>currentView = DashboardV, appStudents = studentsMock, appAttendance = [], cameraView = None,
      orphanCalls = [], orphanStarts = 0, leakedStreams = 0\<rparr>"

definition unmountCamera :: "CameraView \<Rightarrow> AppState \<Rightarrow> AppState" where
  "unmountCamera cam a =
     a\<lparr>cameraView := None,
       orphanCalls := orphanCalls a @ (case inFlight cam of None \<Rightarrow> [] | Some f \<Rightarrow> [f]),
       orphanStarts := orphanStarts a + pendingStarts cam,
       leakedStreams := leakedStreams a + length (liveStreams cam)\<rparr>"

text \<open>\<open>setCurrentView\<close>: setting the current view again changes nothing; the camera view
  mounts a fresh \<open>CameraView\<close>; the dashboard unmounts it.\<close>

definition setCurrentView :: "View \<Rightarrow> AppState \<Rightarrow> AppState" where
  "setCurrentView v a =
     (if v = currentView a then a
      else if v = CameraV then a\<lparr>currentView := CameraV, cameraView := Some cameraInit\<rparr>
      else (case cameraView a of
              None \<Rightarrow> a\<lparr>currentView := v\<rparr>
            | Some cam \<Rightarrow> unmountCamera cam (a\<lparr>currentView := v\<rparr>)))"

definition markAll :: "Clock \<Rightarrow> Student list \<Rightarrow> AttendanceRecord list \<Rightarrow> AttendanceRecord list" where
  "markAll now marked att = fold (handleAttendanceMarked now) marked att"

definition appSaveStudent ::
  "Clock \<Rightarrow> Rasterizer option \<Rightarrow> StudentFormData \<Rightarrow> string option \<Rightarrow> AppState \<Rightarrow> AppState" where
  "appSaveStudent now canvas studentData studentId' a =
     a\<lparr>appStudents := handleSaveStudent now canvas studentData studentId' (appStudents a)\<rparr>"

text \<open>\<open>handleDeleteStudent\<close>, with the answer of \<open>window.confirm\<close>.\<close>

definition handleDeleteStudent :: "string \<Rightarrow> bool \<Rightarrow> AppState \<Rightarrow> AppState" where
  "handleDeleteStudent studentId' confirmed a =
     (if confirmed
      then a\<lparr>appStudents := deleteStudentRoster studentId' (appStudents a),
             appAttendance := purgeAttendance studentId' (appAttendance a)\<rparr>
      else a)"

definition appCameraEvent :: "string option \<Rightarrow> CameraEvent \<Rightarrow> Clock \<Rightarrow> AppState \<Rightarrow> AppState" where
  "appCameraEvent key ev now a =
     (case cameraView a of
        None \<Rightarrow> a
      | Some cam \<Rightarrow>
          (let (cam', marked) = cam_step key (appStudents a) ev cam
           in a\<lparr>cameraView := Some cam', appAttendance := markAll now marked (appAttendance a)\<rparr>))"

text \<open>An orphaned recognition settles: the continuation of \<open>captureAndRecognize\<close> runs
  with the values its closure captured; only \<open>onAttendanceMarked\<close> has an effect.\<close>

definition orphanMarked :: "InFlight \<Rightarrow> string option \<Rightarrow> Student list" where
  "orphanMarked f reply =
     (case settledStudent f reply of
        None \<Rightarrow> []
      | Some student \<Rightarrow> if ifLastMarked f \<noteq> Some (sid student) then [student] else [])"

definition orphanSettled :: "nat \<Rightarrow> string option \<Rightarrow> Clock \<Rightarrow> AppState \<Rightarrow> AppState" where
  "orphanSettled i reply now a =
     (if i < length (orphanCalls a)
      then a\<lparr>orphanCalls := take i (orphanCalls a) @ drop (Suc i) (orphanCalls a),
             appAttendance := markAll now (orphanMarked (orphanCalls a ! i) reply) (appAttendance a)\<rparr>
      else a)"

definition orphanMediaGranted :: "AppState \<Rightarrow> AppState" where
  "orphanMediaGranted a =
     a\<lparr>orphanStarts := orphanStarts a - 1, leakedStreams := Suc (leakedStreams a)\<rparr>"

definition orphanMediaDenied :: "AppState \<Rightarrow> AppState" where
  "orphanMediaDenied a = a\<lparr>orphanStarts := orphanStarts a - 1\<rparr>"

datatype AppEvent =
    ClickView View
  | SaveStudent Clock "Rasterizer option" StudentFormData "string option"
  | DeleteStudent string bool
  | ResendNotification string
  | CameraUI CameraEvent Clock
  | OrphanSettled nat "string option" Clock
  | OrphanMediaGranted
  | OrphanMediaDenied

fun app_step :: "string option \<Rightarrow> AppState \<Rightarrow> AppEvent \<Rightarrow> AppState" where
  "app_step key a (ClickView v) = setCurrentView v a"
| "app_step key a (SaveStudent now canvas d i) = appSaveStudent now canvas d i a"
| "app_step key a (DeleteStudent x confirmed) = handleDeleteStudent x confirmed a"
| "app_step key a (ResendNotification rid) = a"
| "app_step key a (CameraUI ev now) = appCameraEvent key ev now a"
| "app_step key a (OrphanSettled i reply now) = orphanSettled i reply now a"
| "app_step key a OrphanMediaGranted = orphanMediaGranted a"
| "app_step key a OrphanMediaDenied = orphanMediaDenied a"

text \<open>The dashboard's buttons exist only in the dashboard view; a delete button belongs
  to a listed student.  A save may name any identifier: the form was opened on a student
  who may have been deleted since.  A camera event needs the mounted camera view and
  happens at the clock it is given.\<close>

fun app_enabled :: "AppState \<Rightarrow> AppEvent \<Rightarrow> bool" where
  "app_enabled a (ClickView v) = True"
| "app_enabled a (SaveStudent now canvas d i) = (currentView a = DashboardV)"
| "app_enabled a (DeleteStudent x confirmed) =
     (currentView a = DashboardV \<and> x \<in> sid ` set (appStudents a))"
| "app_enabled a (ResendNotification rid) = (currentView a = DashboardV)"
| "app_enabled a (CameraUI ev now) =
     (case cameraView a of None \<Rightarrow> False
      | Some cam \<Rightarrow> cam_enabled cam ev \<and> event_time ev \<in> {None, Some (int (now_ms now))})"
| "app_enabled a (OrphanSettled i reply now) = (i < length (orphanCalls a))"
| "app_enabled a OrphanMediaGranted = (0 < orphanStarts a)"
| "app_enabled a OrphanMediaDenied = (0 < orphanStarts a)"

fun app_event_time :: "AppEvent \<Rightarrow> int option" where
  "app_event_time (CameraUI ev now) = event_time ev"
| "app_event_time (SaveStudent now canvas d i) = Some (int (now_ms now))"
| "app_event_time (OrphanSettled i reply now) = Some (int (now_ms now))"
| "app_event_time ev = None"

inductive app_reach :: "string option \<Rightarrow> Student list \<Rightarrow> AppState \<Rightarrow> int \<Rightarrow> bool" where
  init: "app_reach key mock (appInit mock) t"
| step: "app_reach key mock a t \<Longrightarrow> app_enabled a ev \<Longrightarrow>
     (case app_event_time ev of None \<Rightarrow> True | Some n \<Rightarrow> t \<le> n) \<Longrightarrow>
     app_reach key mock (app_step key a ev) (case app_event_time ev of None \<Rightarrow> t | Some n \<Rightarrow> n)"

subsection \<open>The invariant\<close>

definition app_inv :: "AppState \<Rightarrow> int \<Rightarrow> bool" where
  "app_inv a t \<longleftrightarrow>
     (cameraView a \<noteq> None \<longleftrightarrow> currentView a = CameraV) \<and>
     (\<forall>cam. cameraView a = Some cam \<longrightarrow>
        cam_inv cam t \<and> (\<forall>f. inFlight cam = Some f \<longrightarrow> set (ifStudents f) \<subseteq> set (appStudents a))) \<and>
     ledger_ok (appAttendance a)"

definition refs_ok :: "AppState \<Rightarrow> bool" where
  "refs_ok a \<longleftrightarrow> (\<forall>r \<in> set (appAttendance a). studentId r \<in> sid ` set (appStudents a))"

lemma markAll_keeps_ok: "ledger_ok att \<Longrightarrow> ledger_ok (markAll now marked att)"
  by (induction marked arbitrary: att) (simp_all add: markAll_def handleAttendanceMarked_keeps_ok)

lemma markAll_ids:
  "set (map studentId (markAll now marked att)) \<subseteq> set (map studentId att) \<union> sid ` set marked"
proof (induction marked arbitrary: att)
  case Nil
  then show ?case by (simp add: markAll_def)
next
  case (Cons st marked)
  have "set (map studentId (handleAttendanceMarked now st att)) \<subseteq> set (map studentId att) \<union> {sid st}"
    by (auto simp: handleAttendanceMarked_cases)
  with Cons.IH [of "handleAttendanceMarked now st att"] show ?case
    by (auto simp: markAll_def)
qed

lemma cam_step_inFlight:
  "inFlight (fst (cam_step key sts ev cam)) = Some f \<Longrightarrow> inFlight cam = Some f \<or> ifStudents f = sts"
  by (cases ev) (auto simp: startCamera_def startCameraGranted_def startCameraDenied_def stopCamera_def
      intervalTick_def captureAndRecognize_def Let_def recognitionSettled_def split_def
      successTimerFired_def split: option.splits if_splits)

lemma cam_step_marked:
  "set (snd (cam_step key sts ev cam)) \<subseteq>
     (case inFlight cam of None \<Rightarrow> {} | Some f \<Rightarrow> set (ifStudents f))"
  by (cases ev) (auto simp: recognitionSettled_def settledStudent_def interpretReply_def Let_def
      split_def split: option.splits if_splits dest: find_Some_in_set)

lemma app_inv_init: "app_inv (appInit mock) t"
  by (simp add: app_inv_def appInit_def ledger_ok_def)

lemma app_inv_clock_mono: "app_inv a t \<Longrightarrow> t \<le> t' \<Longrightarrow> app_inv a t'"
  by (auto simp: app_inv_def intro: cam_inv_clock_mono)

lemma setCurrentView_inv: "app_inv a t \<Longrightarrow> app_inv (setCurrentView v a) t"
  by (cases v; cases "cameraView a")
    (auto simp: app_inv_def setCurrentView_def unmountCamera_def cam_inv_init,
     simp_all add: cameraInit_def)

lemma appCameraEvent_inv:
  assumes "app_inv a t" "app_enabled a (CameraUI ev now)" "clock_ok t ev"
  shows "app_inv (appCameraEvent key ev now a) (clock_after t ev)"
proof -
  obtain cam where cam: "cameraView a = Some cam" "cam_enabled cam ev"
    using assms(2) by (auto split: option.splits)
  have ci: "cam_inv cam t" and snap: "\<forall>f. inFlight cam = Some f \<longrightarrow> set (ifStudents f) \<subseteq> set (appStudents a)"
    using assms(1) cam by (auto simp: app_inv_def)
  have ci': "cam_inv (fst (cam_step key (appStudents a) ev cam)) (clock_after t ev)"
    using cam_step_inv [OF ci cam(2) assms(3)] .
  have snap': "\<forall>f. inFlight (fst (cam_step key (appStudents a) ev cam)) = Some f \<longrightarrow>
      set (ifStudents f) \<subseteq> set (appStudents a)"
  proof (intro allI impI)
    fix f
    assume "inFlight (fst (cam_step key (appStudents a) ev cam)) = Some f"
    then have "inFlight cam = Some f \<or> ifStudents f = appStudents a" by (rule cam_step_inFlight)
    with snap show "set (ifStudents f) \<subseteq> set (appStudents a)" by auto
  qed
  show ?thesis
    using assms(1) cam ci' snap'
    by (auto simp: app_inv_def appCameraEvent_def split_def Let_def markAll_keeps_ok)
qed

lemma app_step_inv:
  assumes "app_inv a t" "app_enabled a ev"
    "case app_event_time ev of None \<Rightarrow> True | Some n \<Rightarrow> t \<le> n"
  shows "app_inv (app_step key a ev) (case app_event_time ev of None \<Rightarrow> t | Some n \<Rightarrow> n)"
proof (cases ev)
  case (ClickView v)
  with assms(1) show ?thesis by (simp add: setCurrentView_inv)
next
  case (SaveStudent now canvas d i)
  with assms show ?thesis
    by (auto simp: app_inv_def appSaveStudent_def)
next
  case (DeleteStudent x confirmed)
  with assms show ?thesis
    by (auto simp: app_inv_def handleDeleteStudent_def purgeAttendance_keeps_ok)
next
  case (ResendNotification rid)
  with assms(1) show ?thesis by simp
next
  case (CameraUI cev now)
  with assms appCameraEvent_inv [OF assms(1), of cev now key] show ?thesis
    by (auto simp: clock_ok_def clock_after_def split: option.splits)
next
  case (OrphanSettled i reply now)
  with assms have "app_inv a (int (now_ms now))" by (auto intro: app_inv_clock_mono)
  with OrphanSettled show ?thesis
    by (auto simp: app_inv_def orphanSettled_def markAll_keeps_ok)
next
  case OrphanMediaGranted
  with assms(1) show ?thesis by (simp add: app_inv_def orphanMediaGranted_def)
next
  case OrphanMediaDenied
  with assms(1) show ?thesis by (simp add: app_inv_def orphanMediaDenied_def)
qed

lemma app_reach_inv: "app_reach key mock a t \<Longrightarrow> app_inv a t"
proof (induction rule: app_reach.induct)
  case (init key mock t)
  show ?case by (rule app_inv_init)
next
  case (step key mock a t ev)
  from step.IH step.hyps(2,3) show ?case by (rule app_step_inv)
qed

subsection \<open>Record identifiers\<close>

text \<open>A record identifier is \<open>att-\<close> and a time no later than the clock.\<close>

definition ids_ok :: "AppState \<Rightarrow> int \<Rightarrow> bool" where
  "ids_ok a t \<longleftrightarrow>
     (\<forall>r \<in> set (appAttendance a). \<exists>n. recordId r = ''att-'' @ js_nat_string n \<and> int n \<le> t)"

lemma markAll_ids_from:
  "r \<in> set (markAll now marked att) \<Longrightarrow> r \<in> set att \<or> recordId r = ''att-'' @ js_nat_string (now_ms now)"
proof (induction marked arbitrary: att)
  case Nil
  then show ?case by (simp add: markAll_def)
next
  case (Cons st marked)
  then have "r \<in> set (handleAttendanceMarked now st att) \<or> recordId r = ''att-'' @ js_nat_string (now_ms now)"
    by (simp add: markAll_def)
  then show ?case
    by (auto simp: handleAttendanceMarked_cases newAttendanceRecord_def split: if_splits)
qed

lemma ids_ok_mono: "ids_ok a t \<Longrightarrow> t \<le> t' \<Longrightarrow> ids_ok a t'"
  by (fastforce simp: ids_ok_def)

lemma ids_ok_same:
  "set (appAttendance b) \<subseteq> set (appAttendance a) \<Longrightarrow> t \<le> t' \<Longrightarrow> ids_ok a t \<Longrightarrow> ids_ok b t'"
  by (fastforce simp: ids_ok_def)

lemma ids_ok_markAll:
  "ids_ok a t \<Longrightarrow> t \<le> int (now_ms now) \<Longrightarrow> appAttendance b = markAll now marked (appAttendance a) \<Longrightarrow>
   ids_ok b (int (now_ms now))"
  unfolding ids_ok_def by (fastforce dest: markAll_ids_from)

lemma cam_step_marked_settle:
  "snd (cam_step key sts ev cam) \<noteq> [] \<Longrightarrow> \<exists>n reply. ev = RecognitionSettled n reply"
  by (cases ev) auto

lemma app_step_ids:
  assumes "ids_ok a t" "app_enabled a ev"
    "case app_event_time ev of None \<Rightarrow> True | Some n \<Rightarrow> t \<le> n"
  shows "ids_ok (app_step key a ev) (case app_event_time ev of None \<Rightarrow> t | Some n \<Rightarrow> n)"
proof (cases ev)
  case (CameraUI cev now)
  then obtain cam where cam: "cameraView a = Some cam" using assms(2) by (auto split: option.splits)
  show ?thesis
  proof (cases "snd (cam_step key (appStudents a) cev cam) = []")
    case True
    then have "set (appAttendance (app_step key a ev)) \<subseteq> set (appAttendance a)"
      using CameraUI cam by (simp add: appCameraEvent_def markAll_def split_def Let_def)
    moreover have "t \<le> (case app_event_time ev of None \<Rightarrow> t | Some n \<Rightarrow> n)"
      using assms(3) by (simp split: option.splits)
    ultimately show ?thesis using assms(1) by (rule ids_ok_same)
  next
    case False
    then obtain n reply where "cev = RecognitionSettled n reply" by (blast dest: cam_step_marked_settle)
    with assms(2,3) CameraUI cam have t: "t \<le> int (now_ms now)" "n = int (now_ms now)" by auto
    have "appAttendance (app_step key a ev) = markAll now (snd (cam_step key (appStudents a) cev cam)) (appAttendance a)"
      using CameraUI cam by (simp add: appCameraEvent_def split_def Let_def)
    from ids_ok_markAll [OF assms(1) t(1) this] show ?thesis
      using CameraUI \<open>cev = RecognitionSettled n reply\<close> t(2) by simp
  qed
next
  case (OrphanSettled i reply now)
  show ?thesis
  proof (cases "i < length (orphanCalls a)")
    case True
    have "appAttendance (app_step key a ev) = markAll now (orphanMarked (orphanCalls a ! i) reply) (appAttendance a)"
      using OrphanSettled True by (simp add: orphanSettled_def)
    from ids_ok_markAll [OF assms(1) _ this] assms(3) OrphanSettled show ?thesis by simp
  next
    case False
    with assms(1,3) OrphanSettled show ?thesis by (auto simp: orphanSettled_def intro: ids_ok_mono)
  qed
qed (rule ids_ok_same [OF _ _ assms(1)],
     use assms(3) in \<open>auto simp: setCurrentView_def unmountCamera_def appSaveStudent_def
       handleDeleteStudent_def purgeAttendance_def orphanMediaGranted_def orphanMediaDenied_def
       split: option.splits\<close>)+

lemma app_reach_ids: "app_reach key mock a t \<Longrightarrow> ids_ok a t"
proof (induction rule: app_reach.induct)
  case (init key mock t)
  then show ?case by (simp add: ids_ok_def appInit_def)
next
  case (step key mock a t ev)
  from step.IH step.hyps(2,3) show ?case by (rule app_step_ids)
qed

subsection \<open>Runs\<close>

fun app_run :: "string option \<Rightarrow> AppEvent list \<Rightarrow> AppState \<Rightarrow> AppState" where
  "app_run key [] a = a"
| "app_run key (ev # evs) a = app_run key evs (app_step key a ev)"

fun app_valid :: "string option \<Rightarrow> int \<Rightarrow> AppEvent list \<Rightarrow> AppState \<Rightarrow> bool" where
  "app_valid key t [] a = True"
| "app_valid key t (ev # evs) a =
     (app_enabled a ev \<and> (case app_event_time ev of None \<Rightarrow> True | Some n \<Rightarrow> t \<le> n) \<and>
      app_valid key (case app_event_time ev of None \<Rightarrow> t | Some n \<Rightarrow> n) evs (app_step key a ev))"

lemma app_reach_run:
  "app_reach key mock a t \<Longrightarrow> app_valid key t evs a \<Longrightarrow> \<exists>t'. app_reach key mock (app_run key evs a) t'"
proof (induction evs arbitrary: a t)
  case Nil
  then show ?case by auto
next
  case (Cons ev evs)
  then have "app_reach key mock (app_step key a ev) (case app_event_time ev of None \<Rightarrow> t | Some n \<Rightarrow> n)"
    by (auto intro: app_reach.step)
  with Cons.IH Cons.prems(2) show ?case by auto
qed

lemmas app_eval = appInit_def setCurrentView_def unmountCamera_def appCameraEvent_def markAll_def
  handleDeleteStudent_def orphanSettled_def orphanMarked_def appSaveStudent_def cam_eval
  handleAttendanceMarked_cases deleteStudentRoster_def purgeAttendance_def

abbreviation demoClock :: "nat \<Rightarrow> string \<Rightarrow> Clock" where
  "demoClock ms t \<equiv> \<lparr>now_ms = ms, locale_date = ''2025-09-01'', locale_time = t\<rparr>"

text \<open>A demonstration session: open the camera view, start the camera, grant the
  camera and take one frame at 10000 ms, whose recognition is then in flight.\<close>

abbreviation demoSession :: "AppEvent list" where
  "demoSession \<equiv>
     [ClickView CameraV, CameraUI ClickStart (demoClock 9000 ''09:00''),
      CameraUI MediaGranted (demoClock 9000 ''09:00''),
      CameraUI (IntervalTick 10000 (Some demoFrame)) (demoClock 10000 ''09:00'')]"

abbreviation demoSettle :: AppEvent where
  "demoSettle \<equiv> CameraUI (RecognitionSettled 10500 (Some ''s1'')) (demoClock 10500 ''09:01'')"

lemma app_reach_from_init:
  "app_valid key t evs (appInit mock) \<Longrightarrow> \<exists>t'. app_reach key mock (app_run key evs (appInit mock)) t'"
  by (rule app_reach_run [OF app_reach.init])

subsection \<open>Properties\<close>

text \<open>Claim C7: in every reachable state of the whole application, whatever the
  interleaving of camera, dashboard and view events, no student has two attendance
  records for one date.\<close>

theorem app_one_record_per_day:
  assumes "app_reach key mock a t"
  shows "length (marks_of s d (appAttendance a)) \<le> 1"
proof -
  have "ledger_ok (appAttendance a)" using app_reach_inv [OF assms] by (simp add: app_inv_def)
  then show ?thesis by (rule ledger_ok_marks_of_le1)
qed

text \<open>Claim C6: end to end, when the mounted camera view's awaited recognition settles
  with a student, that student is on the roster and the ledger then holds exactly one
  record of the student for the day of the settlement.\<close>

theorem recognised_student_marked_present:
  assumes "app_reach key mock a t" "cameraView a = Some cam" "inFlight cam = Some f"
    "settledStudent f reply = Some st"
  shows "st \<in> set (appStudents a) \<and>
         length (marks_of (sid st) (locale_date now)
           (appAttendance (app_step key a (CameraUI (RecognitionSettled (int (now_ms now)) reply) now)))) = 1"
proof -
  have inv: "app_inv a t" by (rule app_reach_inv [OF assms(1)])
  then have ci: "cam_inv cam t" and snap: "set (ifStudents f) \<subseteq> set (appStudents a)"
    and ok: "ledger_ok (appAttendance a)"
    using assms(2,3) by (auto simp: app_inv_def)
  have "st \<in> set (ifStudents f)"
    using assms(4)
    by (auto simp: settledStudent_def interpretReply_def Let_def split: option.splits if_splits
        dest: find_Some_in_set)
  with snap have mem: "st \<in> set (appStudents a)" by auto
  have step: "appAttendance (app_step key a (CameraUI (RecognitionSettled (int (now_ms now)) reply) now)) =
      handleAttendanceMarked now st (appAttendance a)"
    using cam_inv_settle_emits [OF ci assms(3,4), of key "appStudents a" "int (now_ms now)"] assms(2)
    by (simp add: appCameraEvent_def markAll_def)
  have "length (marks_of (sid st) (locale_date now) (appAttendance a)) \<le> 1"
    using ok by (rule ledger_ok_marks_of_le1)
  then have "length (marks_of (sid st) (locale_date now) (handleAttendanceMarked now st (appAttendance a))) = 1"
    by (cases "marks_of (sid st) (locale_date now) (appAttendance a)")
      (simp_all add: marks_of_handleAttendanceMarked)
  with mem step show ?thesis by simp
qed

text \<open>Claim C8: every attendance record names a student of the roster, and every event
  keeps it so, except the settlement of a recognition that an unmounted camera view
  left running.\<close>

theorem app_refs_kept_except_orphans:
  assumes "app_reach key mock a t" "refs_ok a" "app_enabled a ev"
    "\<forall>i reply now. ev \<noteq> OrphanSettled i reply now"
  shows "refs_ok (app_step key a ev)"
proof (cases ev)
  case (ClickView v)
  with assms(2) show ?thesis
    by (cases "cameraView a") (auto simp: refs_ok_def setCurrentView_def unmountCamera_def)
next
  case (SaveStudent now canvas d i)
  have "sid ` set (appStudents a) \<subseteq> sid ` set (handleSaveStudent now canvas d i (appStudents a))"
  proof -
    have "set (map sid (appStudents a)) \<subseteq> set (map sid (handleSaveStudent now canvas d i (appStudents a)))"
      by (cases "jsTruthy i") (auto simp: handleSaveStudent_def)
    then show ?thesis by (simp only: set_map)
  qed
  with SaveStudent assms(2) show ?thesis by (auto simp: refs_ok_def appSaveStudent_def)
next
  case (DeleteStudent x confirmed)
  with assms(2) show ?thesis
    by (auto simp: refs_ok_def handleDeleteStudent_def deleteStudentRoster_def purgeAttendance_def)
next
  case (CameraUI cev now)
  then obtain cam where cam: "cameraView a = Some cam" using assms(3) by (auto split: option.splits)
  define M where "M = snd (cam_step key (appStudents a) cev cam)"
  have "\<forall>f. inFlight cam = Some f \<longrightarrow> set (ifStudents f) \<subseteq> set (appStudents a)"
    using app_reach_inv [OF assms(1)] cam by (auto simp: app_inv_def)
  then have "set M \<subseteq> set (appStudents a)"
    using cam_step_marked [of key "appStudents a" cev cam] unfolding M_def
    by (auto split: option.splits)
  then have m: "sid ` set M \<subseteq> sid ` set (appStudents a)" by (rule image_mono)
  have r: "set (map studentId (appAttendance a)) \<subseteq> sid ` set (appStudents a)"
    using assms(2) by (auto simp: refs_ok_def)
  have "set (map studentId (markAll now M (appAttendance a))) \<subseteq> sid ` set (appStudents a)"
    using markAll_ids [of now M "appAttendance a"] r m by (rule subset_trans [OF _ Un_least])
  with CameraUI cam show ?thesis
    by (auto simp: refs_ok_def appCameraEvent_def split_def Let_def M_def)
next
  case (OrphanSettled i reply now)
  with assms(4) show ?thesis by blast
qed (use assms(2) in \<open>simp_all add: refs_ok_def orphanMediaGranted_def orphanMediaDenied_def\<close>)

text \<open>Claim C9: a confirmed delete removes the student from the roster and every
  record of the student from the ledger, keeping all other students and records; an
  unconfirmed one changes nothing.\<close>

theorem delete_cascades:
  "x \<notin> sid ` set (appStudents (handleDeleteStudent x True a)) \<and>
   (\<forall>r \<in> set (appAttendance (handleDeleteStudent x True a)). studentId r \<noteq> x) \<and>
   (\<forall>s \<in> set (appStudents a). sid s \<noteq> x \<longrightarrow> s \<in> set (appStudents (handleDeleteStudent x True a))) \<and>
   (\<forall>r \<in> set (appAttendance a). studentId r \<noteq> x \<longrightarrow> r \<in> set (appAttendance (handleDeleteStudent x True a))) \<and>
   handleDeleteStudent x False a = a"
  by (auto simp: handleDeleteStudent_def deleteStudentRoster_def purgeAttendance_def)

lemma demo_session_reach: "\<exists>t. app_reach demoKey [demoAnn] (app_run demoKey demoSession (appInit [demoAnn])) t"
proof -
  have "app_valid demoKey 0 demoSession (appInit [demoAnn])" by (simp add: app_eval)
  then show ?thesis by (rule app_reach_from_init)
qed

text \<open>Claim C16: every attendance record of a reachable state is well formed: its
  identifier is \<open>att-\<close> followed by the decimal digits of a \<open>Date.now()\<close> reading no
  later than the current clock, and reading those digits back gives that time.\<close>

theorem record_ids_encode_time:
  assumes "app_reach key mock a t" "r \<in> set (appAttendance a)"
  shows "\<exists>n. recordId r = ''att-'' @ js_nat_string n \<and> int n \<le> t \<and> read_decimal (drop 4 (recordId r)) = n"
proof -
  obtain n where "recordId r = ''att-'' @ js_nat_string n" "int n \<le> t"
    using app_reach_ids [OF assms(1)] assms(2) by (auto simp: ids_ok_def)
  then show ?thesis by simp
qed

theorem record_ids_encode_time_witness:
  "recordId (hd (appAttendance (app_run demoKey (demoSession @ [demoSettle]) (appInit [demoAnn])))) =
     ''att-'' @ js_nat_string 10500 \<and>
   read_decimal (drop 4 (recordId (hd (appAttendance (app_run demoKey (demoSession @ [demoSettle]) (appInit [demoAnn])))))) = 10500"
proof -
  have "app_valid demoKey 0 (demoSession @ [demoSettle]) (appInit [demoAnn])" by (simp add: app_eval)
  then obtain t where r: "app_reach demoKey [demoAnn] (app_run demoKey (demoSession @ [demoSettle]) (appInit [demoAnn])) t"
    using app_reach_from_init by blast
  have m: "hd (appAttendance (app_run demoKey (demoSession @ [demoSettle]) (appInit [demoAnn])))
      \<in> set (appAttendance (app_run demoKey (demoSession @ [demoSettle]) (appInit [demoAnn])))"
    by (simp add: app_eval)
  from record_ids_encode_time [OF r m] show ?thesis by (simp add: app_eval newAttendanceRecord_def)
qed

theorem app_one_record_per_day_witness:
  "length (marks_of ''s1'' ''2025-09-01''
     (appAttendance (app_run demoKey (demoSession @ [demoSettle]) (appInit [demoAnn])))) \<le> 1"
proof -
  have "app_valid demoKey 0 (demoSession @ [demoSettle]) (appInit [demoAnn])" by (simp add: app_eval)
  then obtain t where "app_reach demoKey [demoAnn] (app_run demoKey (demoSession @ [demoSettle]) (appInit [demoAnn])) t"
    using app_reach_from_init by blast
  then show ?thesis by (rule app_one_record_per_day)
qed

theorem recognised_student_marked_present_witness:
  "demoAnn \<in> set (appStudents (app_run demoKey demoSession (appInit [demoAnn]))) \<and>
   length (marks_of ''s1'' ''2025-09-01''
     (appAttendance (app_step demoKey (app_run demoKey demoSession (appInit [demoAnn])) demoSettle))) = 1"
proof -
  obtain t where r: "app_reach demoKey [demoAnn] (app_run demoKey demoSession (appInit [demoAnn])) t"
    using demo_session_reach by blast
  let ?cam = "the (cameraView (app_run demoKey demoSession (appInit [demoAnn])))"
  have c: "cameraView (app_run demoKey demoSession (appInit [demoAnn])) = Some ?cam"
    by (simp add: app_eval)
  have f: "inFlight ?cam = Some (the (inFlight ?cam))" by (simp add: app_eval)
  have st: "settledStudent (the (inFlight ?cam)) (Some ''s1'') = Some demoAnn" by (simp add: app_eval)
  show ?thesis
    using recognised_student_marked_present [OF r c f st, of "demoClock 10500 ''09:01''"] by simp
qed

theorem app_refs_kept_except_orphans_witness:
  "refs_ok (app_step demoKey (app_run demoKey demoSession (appInit [demoAnn])) demoSettle)"
proof -
  obtain t where r: "app_reach demoKey [demoAnn] (app_run demoKey demoSession (appInit [demoAnn])) t"
    using demo_session_reach by blast
  have ok: "refs_ok (app_run demoKey demoSession (appInit [demoAnn]))" by (simp add: app_eval refs_ok_def)
  have e: "app_enabled (app_run demoKey demoSession (appInit [demoAnn])) demoSettle" by (simp add: app_eval)
  have o: "\<forall>i reply now. demoSettle \<noteq> OrphanSettled i reply now" by simp
  show ?thesis by (rule app_refs_kept_except_orphans [OF r ok e o])
qed

theorem delete_cascades_witness:
  "appStudents (handleDeleteStudent ''s1'' True (app_run demoKey (demoSession @ [demoSettle]) (appInit [demoAnn]))) = [] \<and>
   appAttendance (handleDeleteStudent ''s1'' True (app_run demoKey (demoSession @ [demoSettle]) (appInit [demoAnn]))) = []"
proof -
  have "x \<notin> set (appStudents (handleDeleteStudent ''s1'' True (app_run demoKey (demoSession @ [demoSettle]) (appInit [demoAnn]))))" for x
    using delete_cascades [of "''s1''" "app_run demoKey (demoSession @ [demoSettle]) (appInit [demoAnn])"]
    by (auto simp: app_eval)
  moreover have "r \<notin> set (appAttendance (handleDeleteStudent ''s1'' True (app_run demoKey (demoSession @ [demoSettle]) (appInit [demoAnn]))))" for r
    using delete_cascades [of "''s1''" "app_run demoKey (demoSession @ [demoSettle]) (appInit [demoAnn])"]
    by (auto simp: app_eval)
  ultimately show ?thesis by (metis ex_in_conv set_empty)
qed

text \<open>Claim C33: the camera view is left while a recognition is in flight, the recognised student is
  deleted, and the orphaned recognition then settles: the ledger holds a record of a
  student who is no longer on the roster.\<close>

theorem orphan_settle_dangles:
  "\<exists>t. app_reach demoKey [demoAnn]
        (app_run demoKey (demoSession @ [ClickView DashboardV, DeleteStudent ''s1'' True,
           OrphanSettled 0 (Some ''s1'') (demoClock 10500 ''09:01'')]) (appInit [demoAnn])) t \<and>
      ''s1'' \<in> studentId ` set (appAttendance (app_run demoKey (demoSession @ [ClickView DashboardV,
           DeleteStudent ''s1'' True, OrphanSettled 0 (Some ''s1'') (demoClock 10500 ''09:01'')]) (appInit [demoAnn]))) \<and>
      ''s1'' \<notin> sid ` set (appStudents (app_run demoKey (demoSession @ [ClickView DashboardV,
           DeleteStudent ''s1'' True, OrphanSettled 0 (Some ''s1'') (demoClock 10500 ''09:01'')]) (appInit [demoAnn])))"
proof -
  have "app_valid demoKey 0 (demoSession @ [ClickView DashboardV, DeleteStudent ''s1'' True,
           OrphanSettled 0 (Some ''s1'') (demoClock 10500 ''09:01'')]) (appInit [demoAnn])"
    by (simp add: app_eval)
  then show ?thesis
    using app_reach_from_init by (fastforce simp: app_eval)
qed

text \<open>Claim C34: leaving the camera view while the camera streams leaves the stream running:
  the cleanup's \<open>stopCamera\<close> finds no video element and stops nothing.\<close>

theorem leaving_camera_view_leaks_stream:
  "\<exists>t. app_reach demoKey [demoAnn]
        (app_run demoKey (take 3 demoSession @ [ClickView DashboardV]) (appInit [demoAnn])) t \<and>
      cameraView (app_run demoKey (take 3 demoSession @ [ClickView DashboardV]) (appInit [demoAnn])) = None \<and>
      leakedStreams (app_run demoKey (take 3 demoSession @ [ClickView DashboardV]) (appInit [demoAnn])) = 1"
proof -
  have "app_valid demoKey 0 (take 3 demoSession @ [ClickView DashboardV]) (appInit [demoAnn])"
    by (simp add: app_eval)
  then show ?thesis
    using app_reach_from_init by (fastforce simp: app_eval)
qed

abbreviation demoBob :: Student where
  "demoBob \<equiv> \<lparr>name = ''Bob'', rollNumber = ''8'', phoneNumber = ''556'',
     imageUrl = ''data:image/png;base64,Qk9C'', sid = ''s2''\<rparr>"

text \<open>Two camera sessions: the first view's recognition is left running by a switch to
  the dashboard and back; the second view polls, and both recognitions settle in the
  same millisecond, one with each student.\<close>

abbreviation sameMsRun :: "AppEvent list" where
  "sameMsRun \<equiv>
     take 4 demoSession @
     [ClickView DashboardV, ClickView CameraV,
      CameraUI ClickStart (demoClock 10000 ''09:00''), CameraUI MediaGranted (demoClock 10000 ''09:00''),
      CameraUI (IntervalTick 15001 (Some demoFrame)) (demoClock 15001 ''09:00''),
      CameraUI (RecognitionSettled 20000 (Some ''s2'')) (demoClock 20000 ''09:01''),
      OrphanSettled 0 (Some ''s1'') (demoClock 20000 ''09:01'')]"

text \<open>Claim C35: record identifiers are not unique: a reachable run ends with two
  records of two different students under the same identifier.\<close>

theorem record_ids_collide:
  "\<exists>t. app_reach demoKey [demoAnn, demoBob] (app_run demoKey sameMsRun (appInit [demoAnn, demoBob])) t \<and>
      map recordId (appAttendance (app_run demoKey sameMsRun (appInit [demoAnn, demoBob]))) =
        [''att-'' @ js_nat_string 20000, ''att-'' @ js_nat_string 20000] \<and>
      map studentId (appAttendance (app_run demoKey sameMsRun (appInit [demoAnn, demoBob]))) = [''s1'', ''s2'']"
proof -
  have "app_valid demoKey 0 sameMsRun (appInit [demoAnn, demoBob])" by (simp add: app_eval)
  then show ?thesis
    using app_reach_from_init by (fastforce simp: app_eval newAttendanceRecord_def)
qed

text \<open>The second scenario of the design: roster A (\<open>s1\<close>) and B (\<open>s2\<close>).  The first
  poll recognises A: one record, the camera stops, the success window starts.  When the
  window's timer fires the memory of \<open>s1\<close> is cleared; after a restart A is
  recognised again, the success path runs a second time, and the ledger is unchanged.\<close>

abbreviation specSession :: "AppEvent list" where
  "specSession \<equiv>
     demoSession @ [demoSettle, CameraUI (SuccessTimerFired 14500) (demoClock 14500 ''09:01'')]"

abbreviation specSecondSession :: "AppEvent list" where
  "specSecondSession \<equiv>
     [CameraUI ClickStart (demoClock 14600 ''09:01''), CameraUI MediaGranted (demoClock 14600 ''09:01''),
      CameraUI (IntervalTick 15600 (Some demoFrame)) (demoClock 15600 ''09:01''),
      CameraUI (RecognitionSettled 16000 (Some ''s1'')) (demoClock 16000 ''09:01'')]"

text \<open>Claim C17: the design's scenario of a student recognised in two sessions runs
  through the application: after the first recognition the ledger holds one record of A
  and the camera is off; the display window clears the memory of A; the second
  recognition of A shows success again but leaves the ledger as it was.\<close>

theorem spec_second_session_no_duplicate:
  "(\<exists>t. app_reach demoKey [demoAnn, demoBob] (app_run demoKey (specSession @ specSecondSession) (appInit [demoAnn, demoBob])) t) \<and>
   map studentId (appAttendance (app_run demoKey (take 5 specSession) (appInit [demoAnn, demoBob]))) = [''s1''] \<and>
   \<not> isCameraOn (the (cameraView (app_run demoKey (take 5 specSession) (appInit [demoAnn, demoBob])))) \<and>
   lastMarkedStudentId (the (cameraView (app_run demoKey specSession (appInit [demoAnn, demoBob])))) = None \<and>
   showSuccess (the (cameraView (app_run demoKey (specSession @ specSecondSession) (appInit [demoAnn, demoBob])))) = Some demoAnn \<and>
   appAttendance (app_run demoKey (specSession @ specSecondSession) (appInit [demoAnn, demoBob])) =
     appAttendance (app_run demoKey (take 5 specSession) (appInit [demoAnn, demoBob]))"
proof -
  have "app_valid demoKey 0 (specSession @ specSecondSession) (appInit [demoAnn, demoBob])"
    by (simp add: app_eval)
  from app_reach_from_init [OF this] show ?thesis by (simp add: app_eval)
qed

end
