(* ===== verification/Forms.thy ===== *)
theory Forms
  imports Roster
begin

text \<open>
  The student form of the dashboard's modal: \<open>ImageCapture\<close>
  (\<open>src/components/ImageCapture.tsx\<close>) and \<open>StudentForm\<close>
  (\<open>src/components/StudentForm.tsx\<close>).  The form holds the form data of a student;
  the image capture holds the preview and the photo dialog with its camera stream.

  The camera of the photo dialog is handled by an effect on \<open>showCamera\<close>: it calls
  \<open>startCamera()\<close> when the dialog opens and \<open>stopCamera()\<close> when it closes and in
  its cleanup.  \<open>stopCamera()\<close> stops the stream of \<open>videoRef.current\<close>.  The
  \<open><video>\<close> element exists only while the dialog is shown, and React removes it and
  sets the ref to \<open>null\<close> in the commit that closes the dialog, before it runs the
  effect's cleanup and body.  The model keeps this order: the ref is the attached
  stream while the dialog is shown and \<open>None\<close> once it is closed, and \<open>stopCamera\<close>
  is applied to the ref's value at the time it runs.
\<close>

subsection \<open>Image capture\<close>

record ImageCaptureState =
  imagePreview :: "string option"
  showCamera :: bool
  videoRef :: "nat option"
  icStreams :: "nat list"
  icNextStream :: nat
  icPendingStarts :: nat

text \<open>\<open>initialImageUrl || null\<close>: the empty text is falsy.\<close>

definition js_or_null :: "string \<Rightarrow> string option" where
  "js_or_null x = (if x = [] then None else Some x)"

definition icMount :: "string \<Rightarrow> ImageCaptureState" where
  "icMount initialImageUrl =
     \<lparr>imagePreview = js_or_null initialImageUrl, showCamera = False, videoRef = None,
      icStreams = [], icNextStream = 0, icPendingStarts = 0\<rparr>"

text \<open>\<open>stopCamera\<close>, applied to the value of \<open>videoRef.current\<close> when it runs.\<close>

definition icStopCamera :: "nat option \<Rightarrow> ImageCaptureState \<Rightarrow> ImageCaptureState" where
  "icStopCamera ref ic =
     (case ref of
        None \<Rightarrow> ic
      | Some stream \<Rightarrow> ic\<lparr>icStreams := removeAll stream (icStreams ic), videoRef := None\<rparr>)"

text \<open>\<open>setShowCamera(b)\<close> and the effect on \<open>showCamera\<close> that it triggers.  Opening
  the dialog renders the video element (no stream yet) and calls \<open>startCamera()\<close>;
  closing it removes the element, so the cleanup's and the body's \<open>stopCamera()\<close>
  read a detached ref.  Setting the same value again renders nothing new.\<close>

definition setShowCamera :: "bool \<Rightarrow> ImageCaptureState \<Rightarrow> ImageCaptureState" where
  "setShowCamera b ic =
     (if b = showCamera ic then ic
      else if b then ic\<lparr>showCamera := True, videoRef := None, icPendingStarts := Suc (icPendingStarts ic)\<rparr>
      else (let ic1 = ic\<lparr>showCamera := False, videoRef := None\<rparr>
            in icStopCamera (videoRef ic1) (icStopCamera (videoRef ic1) ic1)))"

text \<open>The \<open>getUserMedia\<close> promise of \<open>startCamera\<close> settles: a granted stream is
  attached if the video element exists (\<open>if (videoRef.current)\<close>); a refusal shows an
  alert and changes nothing.\<close>

definition icCameraGranted :: "ImageCaptureState \<Rightarrow> ImageCaptureState" where
  "icCameraGranted ic =
     (let stream = icNextStream ic
      in ic\<lparr>icStreams := stream # icStreams ic, icNextStream := Suc stream,
            videoRef := (if showCamera ic then Some stream else videoRef ic),
            icPendingStarts := icPendingStarts ic - 1\<rparr>)"

definition icCameraDenied :: "ImageCaptureState \<Rightarrow> ImageCaptureState" where
  "icCameraDenied ic = ic\<lparr>icPendingStarts := icPendingStarts ic - 1\<rparr>"

text \<open>What \<open>handleCapture\<close> finds: no 2D context, or the current video frame, which
  has no pixels (\<open>videoWidth = 0\<close>) until the video shows a stream.  A canvas of width
  or height 0 encodes as \<open>data:,\<close>.\<close>

datatype PhotoFrame = NoContext | VideoFrame "string option"

definition canvasJpeg :: "string option \<Rightarrow> string" where
  "canvasJpeg frame = (case frame of None \<Rightarrow> ''data:,'' | Some payload \<Rightarrow> dataUrl ''image/jpeg'' payload)"

text \<open>\<open>handleCapture\<close>: without the video and canvas elements (the dialog is closed)
  it returns; with a context it sets the preview, reports the image and closes the
  dialog.  The reported image is returned beside the new state.\<close>

definition handleCapture :: "PhotoFrame \<Rightarrow> ImageCaptureState \<Rightarrow> ImageCaptureState \<times> string option" where
  "handleCapture frame ic =
     (if \<not> showCamera ic then (ic, None)
      else case frame of
        NoContext \<Rightarrow> (ic, None)
      | VideoFrame pixels \<Rightarrow>
          (let url = canvasJpeg pixels
           in (setShowCamera False (ic\<lparr>imagePreview := Some url\<rparr>), Some url)))"

text \<open>\<open>handleFileChange\<close> with the \<open>onloadend\<close> of its \<open>FileReader\<close>: \<open>file\<close> is the
  chosen file's data URL (\<open>reader.result\<close>), or \<open>None\<close> when no file was chosen.\<close>

definition handleFileChange :: "string option \<Rightarrow> ImageCaptureState \<Rightarrow> ImageCaptureState \<times> string option" where
  "handleFileChange file ic =
     (case file of None \<Rightarrow> (ic, None) | Some base64String \<Rightarrow> (ic\<lparr>imagePreview := Some base64String\<rparr>, Some base64String))"

text \<open>The effect on \<open>initialImageUrl\<close>.\<close>

definition syncPreview :: "string \<Rightarrow> ImageCaptureState \<Rightarrow> ImageCaptureState" where
  "syncPreview initialImageUrl ic = ic\<lparr>imagePreview := js_or_null initialImageUrl\<rparr>"

datatype PhotoView = PhotoImg string | NoPhoto

record ImageCaptureScreen =
  photo :: PhotoView
  captureDialog :: bool

definition renderImageCapture :: "ImageCaptureState \<Rightarrow> ImageCaptureScreen" where
  "renderImageCapture ic =
     \<lparr>photo = (case imagePreview ic of Some url \<Rightarrow> PhotoImg url | None \<Rightarrow> NoPhoto),
      captureDialog = showCamera ic\<rparr>"

subsection \<open>Student form\<close>

text \<open>The inputs of the form, by their \<open>name\<close> attribute.\<close>

datatype Field = NameField | RollNumberField | PhoneNumberField

record StudentFormState =
  formStudent :: "Student option"
  formData :: StudentFormData
  imageCapture :: ImageCaptureState

definition emptyFormData :: StudentFormData where
  "emptyFormData = \<lparr>name = [], rollNumber = [], phoneNumber = [], imageUrl = []\<rparr>"

definition formDataOf :: "Student option \<Rightarrow> StudentFormData" where
  "formDataOf student =
     (case student of
        Some s \<Rightarrow> \<lparr>name = name s, rollNumber = rollNumber s, phoneNumber = phoneNumber s,
                   imageUrl = imageUrl s\<rparr>
      | None \<Rightarrow> emptyFormData)"

text \<open>Mounting the form: the initial empty form data, then the effect on \<open>student\<close>,
  and the image capture's effect on the image it is given.\<close>

definition formMount :: "Student option \<Rightarrow> StudentFormState" where
  "formMount student =
     \<lparr>formStudent = student, formData = formDataOf student,
      imageCapture = icMount (imageUrl (formDataOf student))\<rparr>"

text \<open>A new \<open>student\<close> prop for a mounted form: the effect on \<open>[student]\<close> runs when the
  prop changed and resets the form data.\<close>

definition formSetStudent :: "Student option \<Rightarrow> StudentFormState \<Rightarrow> StudentFormState" where
  "formSetStudent student f =
     (if student = formStudent f then f
      else f\<lparr>formStudent := student, formData := formDataOf student,
             imageCapture := syncPreview (imageUrl (formDataOf student)) (imageCapture f)\<rparr>)"

definition setField :: "Field \<Rightarrow> string \<Rightarrow> StudentFormData \<Rightarrow> StudentFormData" where
  "setField field value d =
     (case field of
        NameField \<Rightarrow> d\<lparr>name := value\<rparr>
      | RollNumberField \<Rightarrow> d\<lparr>rollNumber := value\<rparr>
      | PhoneNumberField \<Rightarrow> d\<lparr>phoneNumber := value\<rparr>)"

definition handleChange :: "Field \<Rightarrow> string \<Rightarrow> StudentFormState \<Rightarrow> StudentFormState" where
  "handleChange field value f = f\<lparr>formData := setField field value (formData f)\<rparr>"

text \<open>\<open>handleImageChange\<close>, the \<open>onImageChange\<close> of the image capture; the new image
  is passed back as \<open>initialImageUrl\<close>.\<close>

definition handleImageChange :: "string \<Rightarrow> StudentFormState \<Rightarrow> StudentFormState" where
  "handleImageChange base64 f =
     f\<lparr>formData := (formData f)\<lparr>imageUrl := base64\<rparr>,
       imageCapture := syncPreview base64 (imageCapture f)\<rparr>"

text \<open>The \<open>required\<close> inputs: the browser submits the form only when none is empty.\<close>

definition formValid :: "StudentFormData \<Rightarrow> bool" where
  "formValid d \<longleftrightarrow> name d \<noteq> [] \<and> rollNumber d \<noteq> [] \<and> phoneNumber d \<noteq> []"

text \<open>\<open>handleSubmit\<close>: the arguments of \<open>onSave\<close>, if the browser submits.\<close>

definition handleSubmit :: "StudentFormState \<Rightarrow> (StudentFormData \<times> string option) option" where
  "handleSubmit f =
     (if formValid (formData f)
      then Some (formData f, case formStudent f of Some s \<Rightarrow> Some (sid s) | None \<Rightarrow> None)
      else None)"

text \<open>The events inside the modal's form.  \<open>Submit\<close> and \<open>Cancel\<close> are answered by
  the dashboard.\<close>

datatype FormEvent =
    FieldInput Field string
  | FilePicked "string option"
  | OpenCapture
  | CaptureGranted
  | CaptureDenied
  | CancelCapture
  | TakePhoto PhotoFrame
  | Submit
  | CancelForm

definition withIC :: "(ImageCaptureState \<Rightarrow> ImageCaptureState) \<Rightarrow> StudentFormState \<Rightarrow> StudentFormState" where
  "withIC g f = f\<lparr>imageCapture := g (imageCapture f)\<rparr>"

text \<open>One form event on a mounted form; the image reported by the image capture goes
  to \<open>handleImageChange\<close>.\<close>

fun form_step :: "FormEvent \<Rightarrow> StudentFormState \<Rightarrow> StudentFormState" where
  "form_step (FieldInput field value) f = handleChange field value f"
| "form_step (FilePicked file) f =
     (case handleFileChange file (imageCapture f) of
        (ic, None) \<Rightarrow> f\<lparr>imageCapture := ic\<rparr>
      | (ic, Some url) \<Rightarrow> handleImageChange url (f\<lparr>imageCapture := ic\<rparr>))"
| "form_step OpenCapture f = withIC (setShowCamera True) f"
| "form_step CaptureGranted f = withIC icCameraGranted f"
| "form_step CaptureDenied f = withIC icCameraDenied f"
| "form_step CancelCapture f = withIC (setShowCamera False) f"
| "form_step (TakePhoto frame) f =
     (case handleCapture frame (imageCapture f) of
        (ic, None) \<Rightarrow> f\<lparr>imageCapture := ic\<rparr>
      | (ic, Some url) \<Rightarrow> handleImageChange url (f\<lparr>imageCapture := ic\<rparr>))"
| "form_step Submit f = f"
| "form_step CancelForm f = f"

text \<open>Which form events can occur: the dialog's buttons exist while it is shown, a
  \<open>getUserMedia\<close> settles only when pending, and a frame with pixels needs a stream
  on the video element.\<close>

fun form_enabled :: "StudentFormState \<Rightarrow> FormEvent \<Rightarrow> bool" where
  "form_enabled f CancelCapture = showCamera (imageCapture f)"
| "form_enabled f CaptureGranted = (0 < icPendingStarts (imageCapture f))"
| "form_enabled f CaptureDenied = (0 < icPendingStarts (imageCapture f))"
| "form_enabled f (TakePhoto frame) =
     (showCamera (imageCapture f) \<and>
      (case frame of VideoFrame (Some p) \<Rightarrow> videoRef (imageCapture f) \<noteq> None | _ \<Rightarrow> True))"
| "form_enabled f ev = True"

text \<open>The forms a mounted modal can hold: mounted on a student (or none), then any
  possible form event, or a new \<open>student\<close> prop.\<close>

inductive form_reach :: "StudentFormState \<Rightarrow> bool" where
  mount: "form_reach (formMount student)"
| step: "form_reach f \<Longrightarrow> form_enabled f ev \<Longrightarrow> form_reach (form_step ev f)"
| set_student: "form_reach f \<Longrightarrow> form_reach (formSetStudent student f)"

definition ic_ok :: "ImageCaptureState \<Rightarrow> bool" where
  "ic_ok ic \<longleftrightarrow>
     (\<forall>x. videoRef ic = Some x \<longrightarrow> showCamera ic \<and> x \<in> set (icStreams ic)) \<and>
     (\<forall>x \<in> set (icStreams ic). x < icNextStream ic)"

definition form_inv :: "StudentFormState \<Rightarrow> bool" where
  "form_inv f \<longleftrightarrow>
     imagePreview (imageCapture f) = js_or_null (imageUrl (formData f)) \<and> ic_ok (imageCapture f)"

subsection \<open>Lemmas\<close>

lemma setShowCamera_sel [simp]:
  "showCamera (setShowCamera b ic) = b"
  "imagePreview (setShowCamera b ic) = imagePreview ic"
  "icStreams (setShowCamera b ic) = icStreams ic"
  "icNextStream (setShowCamera b ic) = icNextStream ic"
  by (simp_all add: setShowCamera_def icStopCamera_def Let_def)

lemma setShowCamera_ok: "ic_ok ic \<Longrightarrow> ic_ok (setShowCamera b ic)"
  by (auto simp: ic_ok_def setShowCamera_def icStopCamera_def Let_def)

lemma setShowCamera_ref [simp]: "showCamera ic \<noteq> b \<Longrightarrow> videoRef (setShowCamera b ic) = None"
  by (auto simp: setShowCamera_def icStopCamera_def Let_def)

lemma icCameraGranted_ok: "ic_ok ic \<Longrightarrow> ic_ok (icCameraGranted ic)"
  by (auto simp: ic_ok_def icCameraGranted_def Let_def)

lemma icCameraDenied_ok: "ic_ok ic \<Longrightarrow> ic_ok (icCameraDenied ic)"
  by (simp add: ic_ok_def icCameraDenied_def)

lemma icCamera_preview [simp]:
  "imagePreview (icCameraGranted ic) = imagePreview ic"
  "imagePreview (icCameraDenied ic) = imagePreview ic"
  by (simp_all add: icCameraGranted_def icCameraDenied_def Let_def)

lemma handleCapture_cases:
  "handleCapture frame ic = (ic', r) \<Longrightarrow>
     (ic' = ic \<and> r = None) \<or>
     (\<exists>url. r = Some url \<and> ic' = setShowCamera False (ic\<lparr>imagePreview := Some url\<rparr>))"
  by (auto simp: handleCapture_def Let_def split: if_splits PhotoFrame.splits)

lemma handleFileChange_cases:
  "handleFileChange file ic = (ic', r) \<Longrightarrow>
     (ic' = ic \<and> r = None) \<or> (\<exists>url. r = Some url \<and> ic' = ic\<lparr>imagePreview := Some url\<rparr>)"
  by (auto simp: handleFileChange_def split: option.splits)

lemma handleImageChange_inv:
  "ic_ok (imageCapture f) \<Longrightarrow> form_inv (handleImageChange url f)"
  by (simp add: form_inv_def handleImageChange_def syncPreview_def ic_ok_def)

lemma ic_ok_preview [simp]: "ic_ok (ic\<lparr>imagePreview := p\<rparr>) = ic_ok ic"
  by (simp add: ic_ok_def)

lemma form_step_inv: "form_inv f \<Longrightarrow> form_inv (form_step ev f)"
proof (cases ev)
  case (FilePicked chosen)
  assume inv: "form_inv f"
  then have ok: "ic_ok (imageCapture f)" by (simp add: form_inv_def)
  show ?thesis
  proof (cases "handleFileChange chosen (imageCapture f)")
    case (Pair ic r)
    from handleFileChange_cases [OF this] show ?thesis
    proof
      assume "ic = imageCapture f \<and> r = None"
      with inv FilePicked Pair show ?thesis by simp
    next
      assume "\<exists>url. r = Some url \<and> ic = imageCapture f\<lparr>imagePreview := Some url\<rparr>"
      then obtain url where "r = Some url" "ic = imageCapture f\<lparr>imagePreview := Some url\<rparr>" by blast
      with ok FilePicked Pair show ?thesis by (simp add: handleImageChange_inv)
    qed
  qed
next
  case (TakePhoto frame)
  assume inv: "form_inv f"
  then have ok: "ic_ok (imageCapture f)" by (simp add: form_inv_def)
  show ?thesis
  proof (cases "handleCapture frame (imageCapture f)")
    case (Pair ic r)
    from handleCapture_cases [OF this] show ?thesis
    proof
      assume "ic = imageCapture f \<and> r = None"
      with inv TakePhoto Pair show ?thesis by simp
    next
      assume "\<exists>url. r = Some url \<and> ic = setShowCamera False (imageCapture f\<lparr>imagePreview := Some url\<rparr>)"
      then obtain url where "r = Some url" "ic = setShowCamera False (imageCapture f\<lparr>imagePreview := Some url\<rparr>)"
        by blast
      with ok TakePhoto Pair show ?thesis by (simp add: handleImageChange_inv setShowCamera_ok)
    qed
  qed
qed (auto simp: form_inv_def withIC_def handleChange_def setField_def
       intro: setShowCamera_ok icCameraGranted_ok icCameraDenied_ok split: Field.splits)

lemma form_reach_inv: "form_reach f \<Longrightarrow> form_inv f"
proof (induction rule: form_reach.induct)
  case (mount student)
  then show ?case by (simp add: form_inv_def formMount_def icMount_def ic_ok_def)
next
  case (step f ev)
  then show ?case by (simp add: form_step_inv)
next
  case (set_student f student)
  then show ?case by (simp add: form_inv_def formSetStudent_def syncPreview_def ic_ok_def)
qed

lemma form_step_streams: "set (icStreams (imageCapture f)) \<subseteq> set (icStreams (imageCapture (form_step ev f)))"
proof (cases ev)
  case (FilePicked chosen)
  then show ?thesis
    by (auto simp: handleFileChange_def handleImageChange_def syncPreview_def split: option.splits)
next
  case (TakePhoto frame)
  then show ?thesis
    by (auto simp: handleCapture_def handleImageChange_def syncPreview_def Let_def
        split: PhotoFrame.splits)
qed (auto simp: handleChange_def withIC_def icCameraGranted_def icCameraDenied_def Let_def)

lemma formSetStudent_streams [simp]: "icStreams (imageCapture (formSetStudent st f)) = icStreams (imageCapture f)"
  by (simp add: formSetStudent_def syncPreview_def)

lemma updateStudents_same:
  "\<forall>x \<in> set xs. sid x = i \<longrightarrow> x = student_of_form i d \<Longrightarrow> updateStudents i d xs = xs"
  by (induction xs) (auto simp: updateStudents_def)

lemma student_of_formDataOf [simp]: "student_of_form (sid st) (formDataOf (Some st)) = st"
  by (simp add: student_of_form_def formDataOf_def)

lemma dataUrl_empty_parts:
  "dataUrlMime ''data:,'' = '','' \<and> dataUrlPayload ''data:,'' = []"
  by (simp add: dataUrlMime_def dataUrlPayload_def)

abbreviation formAnn :: Student where
  "formAnn \<equiv> \<lparr>name = ''Ann'', rollNumber = ''7'', phoneNumber = ''555'',
     imageUrl = ''data:image/png;base64,QUJD'', sid = ''s1''\<rparr>"

abbreviation formClock :: Clock where
  "formClock \<equiv> \<lparr>now_ms = 1700000000000, locale_date = ''2025-09-01'', locale_time = ''09:00''\<rparr>"

lemma form_reach_fold:
  "form_reach f \<Longrightarrow>
   (\<forall>k < length evs. form_enabled (fold form_step (take k evs) f) (evs ! k)) \<Longrightarrow>
   form_reach (fold form_step evs f)"
proof (induction evs arbitrary: f)
  case Nil
  then show ?case by simp
next
  case (Cons ev evs)
  have "form_enabled f ev" using Cons.prems(2) by (drule_tac x = 0 in spec) simp
  with Cons.prems(1) have "form_reach (form_step ev f)" by (rule form_reach.step)
  moreover have "\<forall>k < length evs. form_enabled (fold form_step (take k evs) (form_step ev f)) (evs ! k)"
    using Cons.prems(2) by (auto dest: spec [of _ "Suc k" for k])
  ultimately show ?case using Cons.IH by simp
qed

subsection \<open>Properties\<close>

text \<open>Claim C27: in every form the modal can hold, the photo shown is the image the form
  will submit: the image's data URL when it has one, ``No Photo'' when it is empty.\<close>

theorem preview_shows_form_image:
  assumes "form_reach f"
  shows "photo (renderImageCapture (imageCapture f)) =
           (if imageUrl (formData f) = [] then NoPhoto else PhotoImg (imageUrl (formData f)))"
  using form_reach_inv [OF assms]
  by (simp add: form_inv_def renderImageCapture_def js_or_null_def)

text \<open>Claim C37: the photo dialog never releases its camera: a stream it acquired stays
  live through every later event of the form, including taking the photo and closing
  the dialog, because both \<open>stopCamera()\<close> calls run after the video element is gone.\<close>

theorem photo_camera_never_released:
  assumes "form_reach f" "x \<in> set (icStreams (imageCapture f))"
  shows "x \<in> set (icStreams (imageCapture (fold form_step evs f)))"
  using assms(2)
proof (induction evs arbitrary: f)
  case Nil
  then show ?case by simp
next
  case (Cons ev evs)
  then show ?case using form_step_streams [of f ev] by auto
qed

text \<open>Opening a student's edit form and saving it without changes leaves the
  roster as it was, when the student's identifier is non-empty and the identifiers are
  distinct.\<close>

theorem edit_unchanged_is_noop:
  assumes "roster_ok students" "st \<in> set students" "sid st \<noteq> []"
    "handleSubmit (formMount (Some st)) = Some (d, i)"
  shows "handleSaveStudent now canvas d i students = students"
proof -
  have di: "d = formDataOf (Some st)" "i = Some (sid st)"
    using assms(4) by (auto simp: handleSubmit_def formMount_def split: if_splits)
  have "\<forall>x \<in> set students. sid x = sid st \<longrightarrow> x = st"
    using assms(1,2) by (auto simp: roster_ok_def inj_on_eq_iff [OF distinct_map [THEN iffD1, THEN conjunct2]])
  then have "updateStudents (sid st) d students = students"
    using di(1) by (intro updateStudents_same) auto
  then show ?thesis using di assms(3) by (simp add: handleSaveStudent_def jsTruthy_def)
qed

text \<open>Claim C38: a photo taken before the dialog's video shows a frame is the empty
  image \<open>data:,\<close>; a student created with it is sent to the recognition service with
  the media type \<open>,\<close> and no data.\<close>

theorem empty_photo_sent_as_comma_mime:
  assumes "showCamera (imageCapture f)"
  shows "imageUrl (formData (form_step (TakePhoto (VideoFrame None)) f)) = ''data:,'' \<and>
         studentParts (newStudent now canvas (formData (form_step (TakePhoto (VideoFrame None)) f))) =
           [TextPart (''Student ID: s'' @ js_nat_string (now_ms now)), InlineData '','' []]"
proof -
  have u: "imageUrl (formData (form_step (TakePhoto (VideoFrame None)) f)) = ''data:,''"
    using assms by (simp add: handleCapture_def canvasJpeg_def handleImageChange_def Let_def)
  then have "imageUrl (newStudent now canvas (formData (form_step (TakePhoto (VideoFrame None)) f))) = ''data:,''"
    by (simp add: newStudent_def)
  with u show ?thesis
    using dataUrl_empty_parts by (simp add: studentParts_def js_includes_def newStudent_def)
qed

theorem preview_shows_form_image_witness:
  "photo (renderImageCapture (imageCapture (form_step (FilePicked (Some ''data:image/png;base64,QUJD'')) (formMount None)))) =
     PhotoImg ''data:image/png;base64,QUJD''"
proof -
  have "form_reach (form_step (FilePicked (Some ''data:image/png;base64,QUJD'')) (formMount None))"
    by (rule form_reach.step [OF form_reach.mount]) simp
  from preview_shows_form_image [OF this] show ?thesis
    by (simp add: handleFileChange_def handleImageChange_def formMount_def formDataOf_def emptyFormData_def)
qed

theorem photo_camera_never_released_witness:
  "0 \<in> set (icStreams (imageCapture (fold form_step [TakePhoto (VideoFrame (Some ''RlJN''))]
       (fold form_step [OpenCapture, CaptureGranted] (formMount None))))) \<and>
   \<not> showCamera (imageCapture (fold form_step [TakePhoto (VideoFrame (Some ''RlJN''))]
       (fold form_step [OpenCapture, CaptureGranted] (formMount None)))) \<and>
   videoRef (imageCapture (fold form_step [TakePhoto (VideoFrame (Some ''RlJN''))]
       (fold form_step [OpenCapture, CaptureGranted] (formMount None)))) = None"
proof -
  have r: "form_reach (fold form_step [OpenCapture, CaptureGranted] (formMount None))"
    by (rule form_reach_fold [OF form_reach.mount])
      (auto simp: less_Suc_eq withIC_def setShowCamera_def formMount_def icMount_def)
  have x: "0 \<in> set (icStreams (imageCapture (fold form_step [OpenCapture, CaptureGranted] (formMount None))))"
    by (simp add: withIC_def setShowCamera_def formMount_def icMount_def icCameraGranted_def)
  have "0 \<in> set (icStreams (imageCapture (fold form_step [TakePhoto (VideoFrame (Some ''RlJN''))]
       (fold form_step [OpenCapture, CaptureGranted] (formMount None)))))"
    by (rule photo_camera_never_released [OF r x])
  then show ?thesis
    by (simp add: withIC_def setShowCamera_def formMount_def icMount_def icCameraGranted_def
        handleCapture_def handleImageChange_def syncPreview_def icStopCamera_def Let_def)
qed

theorem edit_unchanged_is_noop_witness:
  "handleSaveStudent formClock None (formDataOf (Some formAnn)) (Some ''s1'') [formAnn] = [formAnn]"
proof -
  have "handleSubmit (formMount (Some formAnn)) = Some (formDataOf (Some formAnn), Some ''s1'')"
    by (simp add: handleSubmit_def formMount_def formValid_def formDataOf_def)
  from edit_unchanged_is_noop [OF _ _ _ this, of "[formAnn]"] show ?thesis
    by (simp add: roster_ok_def)
qed

theorem empty_photo_sent_as_comma_mime_witness:
  "studentParts (newStudent formClock None (formData (form_step (TakePhoto (VideoFrame None))
     (form_step OpenCapture (formMount None))))) =
   [TextPart (''Student ID: s'' @ js_nat_string 1700000000000), InlineData '','' []]"
  using empty_photo_sent_as_comma_mime [of "form_step OpenCapture (formMount None)" formClock None]
  by (simp add: withIC_def)

end
