(* ===== verification/Dashboard.thy ===== *)
theory Dashboard
  imports Forms Ledger
begin

text \<open>
  The dashboard: \<open>DashboardView\<close> (\<open>src/components/DashboardView.tsx\<close>) with its modal
  (\<open>src/components/Modal.tsx\<close>), the student list (\<open>src/components/StudentList.tsx\<close>)
  and the attendance log (\<open>src/components/AttendanceList.tsx\<close>).  The dashboard
  holds whether the modal is open, the student being edited, the form inside the modal
  (mounted exactly while the modal is open, since \<open>Modal\<close> renders nothing when
  closed) and the log's date filter.  Its events are the clicks on the list, the log
  and the modal, and the form's events; its output is the list of calls it makes to
  the callbacks that \<open>App\<close> passes in.  The modal does not trap the focus, so the
  buttons of the page behind it can still be reached with the keyboard: every rendered
  button is an event here.
\<close>

record DashState =
  isModalOpen :: bool
  editingStudent :: "Student option"
  studentForm :: "StudentFormState option"
  filterDate :: string

text \<open>Mounting: the modal is closed, and the log's filter is today's date
  (\<open>new Date().toLocaleDateString('en-CA')\<close>).\<close>

definition dashMount :: "Clock \<Rightarrow> DashState" where
  "dashMount now =
     \<lparr>isModalOpen = False, editingStudent = None, studentForm = None, filterDate = locale_date now\<rparr>"

definition handleOpenAddModal :: "DashState \<Rightarrow> DashState" where
  "handleOpenAddModal d = d\<lparr>editingStudent := None, isModalOpen := True\<rparr>"

definition handleOpenEditModal :: "Student \<Rightarrow> DashState \<Rightarrow> DashState" where
  "handleOpenEditModal student d = d\<lparr>editingStudent := Some student, isModalOpen := True\<rparr>"

definition handleCloseModal :: "DashState \<Rightarrow> DashState" where
  "handleCloseModal d = d\<lparr>isModalOpen := False, editingStudent := None\<rparr>"

text \<open>The render after a handler: the modal's form mounts when the modal opens, is
  given the edited student as its \<open>student\<close> prop while it stays open, and unmounts
  when the modal closes.\<close>

definition syncModal :: "DashState \<Rightarrow> DashState" where
  "syncModal d =
     d\<lparr>studentForm :=
        (if isModalOpen d
         then (case studentForm d of
                 None \<Rightarrow> Some (formMount (editingStudent d))
               | Some f \<Rightarrow> Some (formSetStudent (editingStudent d) f))
         else None)\<rparr>"

definition modalTitle :: "DashState \<Rightarrow> string option" where
  "modalTitle d =
     (if \<not> isModalOpen d then None
      else Some (case editingStudent d of Some _ \<Rightarrow> ''Edit Student Details'' | None \<Rightarrow> ''Add New Student''))"

text \<open>Where a click in the open modal lands: the backdrop and the close button call
  \<open>onClose\<close>; a click on the content stops its propagation and closes nothing.\<close>

datatype ModalTarget = ModalBackdrop | ModalCloseButton | ModalContent

definition modalClickCloses :: "ModalTarget \<Rightarrow> bool" where
  "modalClickCloses tgt = (tgt \<noteq> ModalContent)"

subsection \<open>The lists\<close>

record StudentRow =
  rowImage :: string
  rowName :: string
  rowRoll :: string
  rowId :: string

definition studentRows :: "Student list \<Rightarrow> StudentRow list" where
  "studentRows students =
     map (\<lambda>s. \<lparr>rowImage = imageUrl s, rowName = name s, rowRoll = ''Roll No: '' @ rollNumber s,
               rowId = sid s\<rparr>) students"

definition studentListHeading :: "Student list \<Rightarrow> string" where
  "studentListHeading students = ''Registered Students ('' @ js_nat_string (length students) @ '')''"

record StudentListView =
  listHeading :: string
  listRows :: "StudentRow list"
  emptyNote :: bool

definition studentListView :: "Student list \<Rightarrow> StudentListView" where
  "studentListView students =
     \<lparr>listHeading = studentListHeading students, listRows = studentRows students,
      emptyNote = (length students = 0)\<rparr>"

datatype LogView = LogTable "(string \<times> string \<times> AttendanceStatus \<times> string) list" | NoRecordsNote

definition attendanceLog :: "string \<Rightarrow> AttendanceRecord list \<Rightarrow> LogView" where
  "attendanceLog filterDate' attendance =
     (case filteredAttendance filterDate' attendance of
        [] \<Rightarrow> NoRecordsNote
      | rows \<Rightarrow> LogTable (map (\<lambda>r. (studentName r, time r, status r, recordId r)) rows))"

text \<open>The log's card: the date input shows the filter, then the table or the note.\<close>

record AttendanceListView =
  dateInput :: string
  logView :: LogView

definition attendanceListView :: "string \<Rightarrow> AttendanceRecord list \<Rightarrow> AttendanceListView" where
  "attendanceListView filterDate' attendance =
     \<lparr>dateInput = filterDate', logView = attendanceLog filterDate' attendance\<rparr>"

subsection \<open>Events\<close>

datatype DashCallback = SaveCb StudentFormData "string option" | DeleteCb string | ResendCb string

datatype DashEvent =
    ClickAdd
  | ClickEdit nat
  | ClickDelete nat
  | ModalClick ModalTarget
  | FormUI FormEvent
  | PickDate string
  | ClickResend nat

text \<open>\<open>handleSave\<close>: \<open>onSaveStudent\<close>, then \<open>handleCloseModal\<close>.  The form's Cancel
  button is \<open>handleCloseModal\<close>; a submit the browser blocks does nothing.\<close>

fun dash_step ::
  "Student list \<Rightarrow> AttendanceRecord list \<Rightarrow> DashEvent \<Rightarrow> DashState \<Rightarrow> DashState \<times> DashCallback list" where
  "dash_step students att ClickAdd d = (syncModal (handleOpenAddModal d), [])"
| "dash_step students att (ClickEdit i) d = (syncModal (handleOpenEditModal (students ! i) d), [])"
| "dash_step students att (ClickDelete i) d = (d, [DeleteCb (sid (students ! i))])"
| "dash_step students att (ModalClick tgt) d =
     (if modalClickCloses tgt then syncModal (handleCloseModal d) else d, [])"
| "dash_step students att (FormUI Submit) d =
     (case studentForm d of
        None \<Rightarrow> (d, [])
      | Some f \<Rightarrow> (case handleSubmit f of
                     None \<Rightarrow> (d, [])
                   | Some (studentData, studentId') \<Rightarrow>
                       (syncModal (handleCloseModal d), [SaveCb studentData studentId'])))"
| "dash_step students att (FormUI CancelForm) d = (syncModal (handleCloseModal d), [])"
| "dash_step students att (FormUI fe) d = (d\<lparr>studentForm := map_option (form_step fe) (studentForm d)\<rparr>, [])"
| "dash_step students att (PickDate x) d = (d\<lparr>filterDate := x\<rparr>, [])"
| "dash_step students att (ClickResend i) d =
     (d, [ResendCb (recordId (filteredAttendance (filterDate d) att ! i))])"

text \<open>A click on a row needs the row; a form event needs the mounted form; the modal
  can be clicked only while it is rendered.\<close>

fun dash_enabled :: "Student list \<Rightarrow> AttendanceRecord list \<Rightarrow> DashState \<Rightarrow> DashEvent \<Rightarrow> bool" where
  "dash_enabled students att d (ClickEdit i) = (i < length students)"
| "dash_enabled students att d (ClickDelete i) = (i < length students)"
| "dash_enabled students att d (FormUI fe) =
     (case studentForm d of None \<Rightarrow> False | Some f \<Rightarrow> form_enabled f fe)"
| "dash_enabled students att d (ClickResend i) = (i < length (filteredAttendance (filterDate d) att))"
| "dash_enabled students att d (ModalClick tgt) = isModalOpen d"
| "dash_enabled students att d ev = True"

definition dash_ok :: "DashState \<Rightarrow> bool" where
  "dash_ok d \<longleftrightarrow>
     (case studentForm d of
        None \<Rightarrow> \<not> isModalOpen d
      | Some f \<Rightarrow> isModalOpen d \<and> formStudent f = editingStudent d \<and> form_reach f)"

subsection \<open>Lemmas\<close>

lemma formStudent_form_step [simp]: "formStudent (form_step ev f) = formStudent f"
  by (cases ev) (auto simp: handleChange_def withIC_def handleImageChange_def split: prod.splits option.splits)

lemma formStudent_formSetStudent [simp]: "formStudent (formSetStudent st f) = st"
  by (simp add: formSetStudent_def)

lemma formStudent_formMount [simp]: "formStudent (formMount st) = st"
  by (simp add: formMount_def)

lemma close_ok [simp]: "dash_ok (syncModal (handleCloseModal d))"
  by (simp add: dash_ok_def syncModal_def handleCloseModal_def)

lemma syncModal_ok:
  assumes "case studentForm d of None \<Rightarrow> True | Some f \<Rightarrow> form_reach f"
  shows "dash_ok (syncModal d)"
  using assms
  by (auto simp: dash_ok_def syncModal_def intro: form_reach.mount form_reach.set_student
      split: option.splits)

lemma dash_ok_form: "dash_ok d \<Longrightarrow> studentForm d = Some f \<Longrightarrow> form_reach f"
  by (simp add: dash_ok_def)

lemma dash_ok_reach_form: "dash_ok d \<Longrightarrow> case studentForm d of None \<Rightarrow> True | Some f \<Rightarrow> form_reach f"
  by (simp add: dash_ok_def split: option.splits)

lemma dash_ok_filterDate [simp]: "dash_ok (d\<lparr>filterDate := x\<rparr>) = dash_ok d"
  by (simp add: dash_ok_def split: option.splits)

lemma dash_step_ok:
  assumes "dash_ok d" "dash_enabled students att d ev"
  shows "dash_ok (fst (dash_step students att ev d))"
proof (cases ev)
  case (FormUI fe)
  show ?thesis
  proof (cases "fe = Submit \<or> fe = CancelForm")
    case True
    with FormUI assms(1) show ?thesis by (auto split: option.splits prod.splits)
  next
    case False
    then have "dash_step students att ev d = (d\<lparr>studentForm := map_option (form_step fe) (studentForm d)\<rparr>, [])"
      using FormUI by (cases fe) simp_all
    with FormUI assms show ?thesis
      by (auto simp: dash_ok_def intro: form_reach.step split: option.splits)
  qed
qed (use assms in \<open>auto simp: dash_ok_reach_form handleOpenAddModal_def handleOpenEditModal_def
       handleCloseModal_def intro!: syncModal_ok\<close>)

lemma dash_step_delete:
  "DeleteCb x \<in> set (snd (dash_step students att ev d)) \<Longrightarrow> \<exists>i. ev = ClickDelete i \<and> x = sid (students ! i)"
  by (induction students att ev d rule: dash_step.induct) (auto split: option.splits prod.splits)

lemma dash_submit_cases:
  assumes "dash_step students att (FormUI Submit) d = (d', [SaveCb data i])"
  obtains f where "studentForm d = Some f" "handleSubmit f = Some (data, i)"
    "d' = syncModal (handleCloseModal d)"
  using assms by (auto split: option.splits prod.splits)

subsection \<open>Properties\<close>

text \<open>Claim C28: a save from the modal passes the identifier of the student whose Edit
  button opened it (none after Add, as the modal's title says), form data that passed
  the browser's required-field check, and closes the modal, unmounting the form.\<close>

theorem modal_save_carries_edited_id:
  assumes "dash_ok d" "dash_step students att (FormUI Submit) d = (d', [SaveCb data i])"
  shows "i = map_option sid (editingStudent d) \<and> formValid data \<and>
         modalTitle d = Some (if i = None then ''Add New Student'' else ''Edit Student Details'') \<and>
         \<not> isModalOpen d' \<and> studentForm d' = None"
proof -
  obtain f where f: "studentForm d = Some f" "handleSubmit f = Some (data, i)"
    and d': "d' = syncModal (handleCloseModal d)"
    using assms(2) by (rule dash_submit_cases)
  have "isModalOpen d" "formStudent f = editingStudent d" using assms(1) f(1) by (auto simp: dash_ok_def)
  moreover have "i = map_option sid (formStudent f)" "formValid data"
    using f(2) by (auto simp: handleSubmit_def split: if_splits option.splits)
  ultimately show ?thesis
    using d' by (auto simp: modalTitle_def syncModal_def handleCloseModal_def split: option.splits)
qed

text \<open>The attendance log shows a table when the selected date has records,
  and the Resend button of each row resends the record of that row.\<close>

theorem resend_sends_row_record:
  assumes "dash_enabled students att d (ClickResend i)"
  shows "\<exists>rows. attendanceLog (filterDate d) att = LogTable rows \<and> i < length rows \<and>
           snd (dash_step students att (ClickResend i) d) = [ResendCb (snd (snd (snd (rows ! i))))]"
proof -
  have i: "i < length (filteredAttendance (filterDate d) att)" using assms by simp
  then have "attendanceLog (filterDate d) att =
      LogTable (map (\<lambda>r. (studentName r, time r, status r, recordId r)) (filteredAttendance (filterDate d) att))"
    by (cases "filteredAttendance (filterDate d) att") (simp_all add: attendanceLog_def)
  with i show ?thesis by simp
qed

abbreviation dashAnn :: Student where
  "dashAnn \<equiv> \<lparr>name = ''Ann'', rollNumber = ''7'', phoneNumber = ''555'',
     imageUrl = ''data:image/png;base64,QUJD'', sid = ''s1''\<rparr>"

abbreviation dashRecord :: AttendanceRecord where
  "dashRecord \<equiv> \<lparr>recordId = ''att-1'', studentId = ''s1'', studentName = ''Ann'',
     date = ''2025-09-01'', time = ''09:00'', status = Present\<rparr>"

abbreviation dashToday :: Clock where
  "dashToday \<equiv> \<lparr>now_ms = 1700000000000, locale_date = ''2025-09-01'', locale_time = ''09:00''\<rparr>"

theorem modal_save_carries_edited_id_witness:
  "dash_step [dashAnn] [] (FormUI Submit) (fst (dash_step [dashAnn] [] (ClickEdit 0) (dashMount dashToday))) =
     (dashMount dashToday, [SaveCb (formDataOf (Some dashAnn)) (Some ''s1'')])"
proof -
  have ok: "dash_ok (fst (dash_step [dashAnn] [] (ClickEdit 0) (dashMount dashToday)))"
    by (rule dash_step_ok) (simp_all add: dash_ok_def dashMount_def)
  have st: "dash_step [dashAnn] [] (FormUI Submit) (fst (dash_step [dashAnn] [] (ClickEdit 0) (dashMount dashToday))) =
     (syncModal (handleCloseModal (fst (dash_step [dashAnn] [] (ClickEdit 0) (dashMount dashToday)))),
      [SaveCb (formDataOf (Some dashAnn)) (Some ''s1'')])"
    by (simp add: syncModal_def handleOpenEditModal_def dashMount_def handleSubmit_def formMount_def
        formValid_def formDataOf_def)
  from modal_save_carries_edited_id [OF ok st] st show ?thesis
    by (simp add: syncModal_def handleCloseModal_def handleOpenEditModal_def dashMount_def)
qed

theorem resend_sends_row_record_witness:
  "snd (dash_step [dashAnn] [dashRecord] (ClickResend 0) (dashMount dashToday)) = [ResendCb ''att-1'']"
proof -
  have "dash_enabled [dashAnn] [dashRecord] (dashMount dashToday) (ClickResend 0)"
    by (simp add: dashMount_def filteredAttendance_def)
  from resend_sends_row_record [OF this] show ?thesis
    by (auto simp: attendanceLog_def dashMount_def filteredAttendance_def)
qed

end
