(* ===== verification/System.thy ===== *)
theory System
  imports App Dashboard
begin

text \<open>
  The whole page: \<open>App\<close> with the \<open>Header\<close>, the camera view and the dashboard
  (\<open>src/App.tsx\<close>, lines 94--113).  The dashboard is mounted exactly while the current
  view is the dashboard, and mounts afresh (modal closed, today's date in the log's
  filter) each time the view is switched to it.  A dashboard event runs
  \<open>dash_step\<close> on the current roster and ledger, and every callback it makes becomes
  the App event of that callback (\<open>callbackEvent\<close>): the save runs with the clock
  of the event and the page's canvas, the delete with the answer of
  \<open>window.confirm\<close>.  Camera events and the continuations of unmounted camera views
  are the App events themselves.

  The main result is a simulation: the projection \<open>sysApp\<close> of every reachable page
  state is a reachable App state, so the invariants proved of \<open>app_reach\<close> hold for the
  page driven through its real controls.
\<close>

record SysState =
  sysApp :: AppState
  sysDash :: "DashState option"

definition sysInit :: "Student list \<Rightarrow> Clock \<Rightarrow> SysState" where
  "sysInit mock now = \<lparr>sysApp = appInit mock, sysDash = Some (dashMount now)\<rparr>"

datatype SysEvent =
    HeaderClick View Clock
  | AppUI AppEvent
  | DashEv DashEvent Clock "Rasterizer option" bool

text \<open>The header's two buttons, each with whether it has the active style
  (\<open>currentView === ...\<close>).\<close>

definition headerButtons :: "View \<Rightarrow> (View \<times> bool) list" where
  "headerButtons currentView' = [(DashboardV, currentView' = DashboardV), (CameraV, currentView' = CameraV)]"

text \<open>The App event of a dashboard callback.\<close>

fun callbackEvent :: "Clock \<Rightarrow> Rasterizer option \<Rightarrow> bool \<Rightarrow> DashCallback \<Rightarrow> AppEvent" where
  "callbackEvent now canvas confirmed (SaveCb studentData studentId') = SaveStudent now canvas studentData studentId'"
| "callbackEvent now canvas confirmed (DeleteCb studentId') = DeleteStudent studentId' confirmed"
| "callbackEvent now canvas confirmed (ResendCb rid) = ResendNotification rid"

text \<open>The view switch mounts or unmounts the dashboard the way the camera view is
  mounted and unmounted by \<open>setCurrentView\<close>.\<close>

definition dashAfterView :: "View \<Rightarrow> Clock \<Rightarrow> SysState \<Rightarrow> DashState option" where
  "dashAfterView v now s =
     (if v = currentView (sysApp s) then sysDash s
      else if v = DashboardV then Some (dashMount now) else None)"

fun sys_step :: "string option \<Rightarrow> SysState \<Rightarrow> SysEvent \<Rightarrow> SysState" where
  "sys_step key s (HeaderClick v now) =
     \<lparr>sysApp = app_step key (sysApp s) (ClickView v), sysDash = dashAfterView v now s\<rparr>"
| "sys_step key s (AppUI e) = s\<lparr>sysApp := app_step key (sysApp s) e\<rparr>"
| "sys_step key s (DashEv de now canvas confirmed) =
     (case sysDash s of
        None \<Rightarrow> s
      | Some d \<Rightarrow>
          (let (d', cbs) = dash_step (appStudents (sysApp s)) (appAttendance (sysApp s)) de d
           in \<lparr>sysApp = foldl (app_step key) (sysApp s) (map (callbackEvent now canvas confirmed) cbs),
               sysDash = Some d'\<rparr>))"

text \<open>The App events that do not come from the dashboard or the header.\<close>

fun direct_event :: "AppEvent \<Rightarrow> bool" where
  "direct_event (CameraUI ev now) = True"
| "direct_event (OrphanSettled i reply now) = True"
| "direct_event OrphanMediaGranted = True"
| "direct_event OrphanMediaDenied = True"
| "direct_event e = False"

fun sys_enabled :: "SysState \<Rightarrow> SysEvent \<Rightarrow> bool" where
  "sys_enabled s (HeaderClick v now) = True"
| "sys_enabled s (AppUI e) = (direct_event e \<and> app_enabled (sysApp s) e)"
| "sys_enabled s (DashEv de now canvas confirmed) =
     (case sysDash s of
        None \<Rightarrow> False
      | Some d \<Rightarrow> dash_enabled (appStudents (sysApp s)) (appAttendance (sysApp s)) d de)"

text \<open>Header and dashboard events happen at the clock they carry (a save reads
  \<open>Date.now()\<close>); an App event at its own.\<close>

fun sys_event_time :: "SysEvent \<Rightarrow> int option" where
  "sys_event_time (AppUI e) = app_event_time e"
| "sys_event_time (HeaderClick v now) = Some (int (now_ms now))"
| "sys_event_time (DashEv de now canvas confirmed) = Some (int (now_ms now))"

inductive sys_reach :: "string option \<Rightarrow> Student list \<Rightarrow> SysState \<Rightarrow> int \<Rightarrow> bool" where
  init: "sys_reach key mock (sysInit mock now) t"
| step: "sys_reach key mock s t \<Longrightarrow> sys_enabled s ev \<Longrightarrow>
     (case sys_event_time ev of None \<Rightarrow> True | Some n \<Rightarrow> t \<le> n) \<Longrightarrow>
     sys_reach key mock (sys_step key s ev) (case sys_event_time ev of None \<Rightarrow> t | Some n \<Rightarrow> n)"

definition sys_ok :: "SysState \<Rightarrow> bool" where
  "sys_ok s \<longleftrightarrow>
     (sysDash s \<noteq> None \<longleftrightarrow> currentView (sysApp s) = DashboardV) \<and>
     (\<forall>d. sysDash s = Some d \<longrightarrow> dash_ok d)"

subsection \<open>The simulation\<close>

lemma dash_step_callbacks_le1: "length (snd (dash_step students att de d)) \<le> 1"
  by (induction students att de d rule: dash_step.induct) (auto split: option.splits prod.splits)

lemma callbackEvent_time:
  "app_event_time (callbackEvent now canvas confirmed cb) \<in> {None, Some (int (now_ms now))}"
  by (cases cb) simp_all

lemma currentView_callback [simp]:
  "currentView (app_step key a (callbackEvent now canvas confirmed cb)) = currentView a"
  by (cases cb) (simp_all add: appSaveStudent_def handleDeleteStudent_def)

lemma currentView_direct:
  "direct_event e \<Longrightarrow> currentView (app_step key a e) = currentView a"
  by (cases e) (auto simp: appCameraEvent_def orphanSettled_def orphanMediaGranted_def
      orphanMediaDenied_def Let_def split: option.splits prod.splits)

lemma currentView_click [simp]: "currentView (setCurrentView v a) = v"
  by (auto simp: setCurrentView_def unmountCamera_def split: option.splits)

lemma callback_enabled:
  assumes "currentView a = DashboardV" "dash_enabled (appStudents a) att d de"
    "cb \<in> set (snd (dash_step (appStudents a) att de d))"
  shows "app_enabled a (callbackEvent now canvas confirmed cb)"
proof (cases cb)
  case (DeleteCb x)
  then obtain i where "de = ClickDelete i" "x = sid (appStudents a ! i)"
    using dash_step_delete assms(3) by blast
  with assms(1,2) DeleteCb show ?thesis by auto
qed (use assms(1) in simp_all)

lemma app_reach_callbacks:
  assumes "app_reach key mock a t" "t \<le> int (now_ms now)" "currentView a = DashboardV"
    "dash_enabled (appStudents a) att d de"
  shows "\<exists>t'. t' \<le> int (now_ms now) \<and> app_reach key mock (foldl (app_step key) a
           (map (callbackEvent now canvas confirmed) (snd (dash_step (appStudents a) att de d)))) t'"
proof (cases "snd (dash_step (appStudents a) att de d)")
  case Nil
  with assms(1,2) show ?thesis by auto
next
  case (Cons cb rest)
  with dash_step_callbacks_le1 [of "appStudents a" att de d] have "rest = []" by simp
  moreover have en: "app_enabled a (callbackEvent now canvas confirmed cb)"
    using callback_enabled [OF assms(3,4)] Cons by simp
  moreover have "case app_event_time (callbackEvent now canvas confirmed cb) of None \<Rightarrow> True | Some n \<Rightarrow> t \<le> n"
    using callbackEvent_time [of now canvas confirmed cb] assms(2) by auto
  moreover have "(case app_event_time (callbackEvent now canvas confirmed cb) of None \<Rightarrow> t | Some n \<Rightarrow> n)
      \<le> int (now_ms now)"
    using callbackEvent_time [of now canvas confirmed cb] assms(2) by auto
  ultimately show ?thesis
    using app_reach.step [OF assms(1) en] Cons by auto
qed

lemma currentView_callbacks [simp]:
  "currentView (foldl (app_step key) a (map (callbackEvent now canvas confirmed) cbs)) = currentView a"
  by (induction cbs arbitrary: a) simp_all

lemma sys_ok_header: "sys_ok s \<Longrightarrow> sys_ok (sys_step key s (HeaderClick v now))"
  by (cases v; cases "currentView (sysApp s)")
    (auto simp: sys_ok_def dashAfterView_def dash_ok_def dashMount_def)

lemma sys_step_sim:
  assumes "app_reach key mock (sysApp s) t0" "t0 \<le> t" "sys_ok s" "sys_enabled s ev"
    "case sys_event_time ev of None \<Rightarrow> True | Some n \<Rightarrow> t \<le> n"
  shows "\<exists>t'. t' \<le> (case sys_event_time ev of None \<Rightarrow> t | Some n \<Rightarrow> n) \<and>
           app_reach key mock (sysApp (sys_step key s ev)) t' \<and> sys_ok (sys_step key s ev)"
proof (cases ev)
  case (HeaderClick v now)
  have "app_reach key mock (app_step key (sysApp s) (ClickView v)) t0"
    using app_reach.step [OF assms(1), of "ClickView v"] by simp
  moreover have "t0 \<le> int (now_ms now)" using HeaderClick assms(2,5) by simp
  ultimately show ?thesis using HeaderClick sys_ok_header [OF assms(3), of key v now] by auto
next
  case (AppUI e)
  then have "direct_event e" "app_enabled (sysApp s) e" using assms(4) by auto
  moreover have "case app_event_time e of None \<Rightarrow> True | Some n \<Rightarrow> t0 \<le> n"
    using assms(2,5) AppUI by (auto split: option.splits)
  ultimately have "app_reach key mock (app_step key (sysApp s) e)
      (case app_event_time e of None \<Rightarrow> t0 | Some n \<Rightarrow> n)"
    using app_reach.step [OF assms(1)] by simp
  moreover have "(case app_event_time e of None \<Rightarrow> t0 | Some n \<Rightarrow> n) \<le>
      (case app_event_time e of None \<Rightarrow> t | Some n \<Rightarrow> n)"
    using assms(2) by (simp split: option.splits)
  moreover have "sys_ok (sys_step key s ev)"
    using assms(3) AppUI \<open>direct_event e\<close> by (simp add: sys_ok_def currentView_direct)
  ultimately show ?thesis using AppUI by auto
next
  case (DashEv de now canvas confirmed)
  then obtain d where d: "sysDash s = Some d"
    and en: "dash_enabled (appStudents (sysApp s)) (appAttendance (sysApp s)) d de"
    using assms(4) by (auto split: option.splits)
  have view: "currentView (sysApp s) = DashboardV" and ok: "dash_ok d"
    using assms(3) d by (auto simp: sys_ok_def)
  have t0: "t0 \<le> int (now_ms now)" using assms(2,5) DashEv by simp
  have "dash_ok (fst (dash_step (appStudents (sysApp s)) (appAttendance (sysApp s)) de d))"
    by (rule dash_step_ok [OF ok en])
  with app_reach_callbacks [OF assms(1) t0 view en, of canvas confirmed] view d DashEv show ?thesis
    by (simp add: sys_ok_def split_def Let_def)
qed

lemma sys_reach_sim: "sys_reach key mock s t \<Longrightarrow> \<exists>t'. t' \<le> t \<and> app_reach key mock (sysApp s) t' \<and> sys_ok s"
proof (induction rule: sys_reach.induct)
  case (init key mock now t)
  have "app_reach key mock (sysApp (sysInit mock now)) t"
    by (simp add: sysInit_def app_reach.init)
  then show ?case
    by (auto simp: sysInit_def sys_ok_def appInit_def dash_ok_def dashMount_def)
next
  case (step key mock s t ev)
  then show ?case using sys_step_sim by blast
qed

subsection \<open>Runs\<close>

fun sys_valid :: "string option \<Rightarrow> int \<Rightarrow> SysEvent list \<Rightarrow> SysState \<Rightarrow> bool" where
  "sys_valid key t [] s = True"
| "sys_valid key t (ev # evs) s =
     (sys_enabled s ev \<and> (case sys_event_time ev of None \<Rightarrow> True | Some n \<Rightarrow> t \<le> n) \<and>
      sys_valid key (case sys_event_time ev of None \<Rightarrow> t | Some n \<Rightarrow> n) evs (sys_step key s ev))"

lemma sys_reach_run:
  "sys_reach key mock s t \<Longrightarrow> sys_valid key t evs s \<Longrightarrow> \<exists>t'. sys_reach key mock (foldl (sys_step key) s evs) t'"
proof (induction evs arbitrary: s t)
  case Nil
  then show ?case by auto
next
  case (Cons ev evs)
  then have "sys_reach key mock (sys_step key s ev) (case sys_event_time ev of None \<Rightarrow> t | Some n \<Rightarrow> n)"
    by (auto intro: sys_reach.step)
  with Cons.IH Cons.prems(2) show ?case by auto
qed

lemma sys_reach_from_init:
  "sys_valid key t evs (sysInit mock now) \<Longrightarrow> \<exists>t'. sys_reach key mock (foldl (sys_step key) (sysInit mock now) evs) t'"
  by (rule sys_reach_run [OF sys_reach.init])

abbreviation uiClock :: "nat \<Rightarrow> string \<Rightarrow> Clock" where
  "uiClock ms t \<equiv> \<lparr>now_ms = ms, locale_date = ''2025-09-01'', locale_time = t\<rparr>"

text \<open>A session through the page's controls: open the camera view, start and grant the
  camera, a frame at 10000 ms recognised as \<open>s1\<close> at 10500 ms, back to the dashboard.\<close>

abbreviation uiSession :: "SysEvent list" where
  "uiSession \<equiv>
     [HeaderClick CameraV (uiClock 9000 ''09:00''),
      AppUI (CameraUI ClickStart (uiClock 9000 ''09:00'')),
      AppUI (CameraUI MediaGranted (uiClock 9000 ''09:00'')),
      AppUI (CameraUI (IntervalTick 10000 (Some demoFrame)) (uiClock 10000 ''09:00'')),
      AppUI (CameraUI (RecognitionSettled 10500 (Some ''s1'')) (uiClock 10500 ''09:01'')),
      HeaderClick DashboardV (uiClock 11000 ''09:01'')]"

text \<open>Edit a student, delete the same student from the list behind the modal (by
  keyboard), change the name and save.\<close>

abbreviation editAfterDelete :: "SysEvent list" where
  "editAfterDelete \<equiv>
     [DashEv (ClickEdit 0) (uiClock 9000 ''09:00'') None True,
      DashEv (ClickDelete 0) (uiClock 9000 ''09:00'') None True,
      DashEv (FormUI (FieldInput NameField ''Ann B'')) (uiClock 9000 ''09:00'') None True,
      DashEv (FormUI Submit) (uiClock 9000 ''09:00'') None True]"

lemmas sys_eval = sysInit_def dashAfterView_def dashMount_def syncModal_def handleOpenEditModal_def
  handleCloseModal_def formMount_def formDataOf_def icMount_def handleChange_def setField_def
  handleSubmit_def formValid_def appSaveStudent_def handleSaveStudent_def jsTruthy_def
  updateStudents_def app_eval filteredAttendance_def js_or_null_def

subsection \<open>Properties\<close>

text \<open>Claim C10: the page refines the App model: every state reachable through the
  page's controls (header, camera view, dashboard list, log, modal and form) projects to
  a reachable App state at a clock no later than the page's, and the dashboard is
  mounted exactly while the dashboard view is current.\<close>

theorem ui_refines_app:
  assumes "sys_reach key mock s t"
  shows "(\<exists>t'. t' \<le> t \<and> app_reach key mock (sysApp s) t') \<and>
         (sysDash s \<noteq> None \<longleftrightarrow> currentView (sysApp s) = DashboardV)"
  using sys_reach_sim [OF assms] by (auto simp: sys_ok_def)

text \<open>Claim C20: whatever is done through the page, the dashboard's attendance log,
  filtered by a date, lists each student at most once.\<close>

theorem ui_log_one_row_per_student:
  assumes "sys_reach key mock s t" "sysDash s = Some d" "filterDate d \<noteq> []"
  shows "distinct (map studentId (filteredAttendance (filterDate d) (appAttendance (sysApp s))))"
proof -
  obtain t' where "app_reach key mock (sysApp s) t'" using sys_reach_sim [OF assms(1)] by blast
  then have "ledger_ok (appAttendance (sysApp s))" using app_reach_inv by (simp add: app_inv_def)
  with assms(3) show ?thesis by (simp add: filteredAttendance_def ledger_ok_day_distinct)
qed

theorem ui_refines_app_witness:
  "(\<exists>t'. app_reach demoKey [demoAnn] (sysApp (foldl (sys_step demoKey) (sysInit [demoAnn] (uiClock 0 ''08:00'')) uiSession)) t') \<and>
   currentView (sysApp (foldl (sys_step demoKey) (sysInit [demoAnn] (uiClock 0 ''08:00'')) uiSession)) = DashboardV"
proof -
  have "sys_valid demoKey 0 uiSession (sysInit [demoAnn] (uiClock 0 ''08:00''))" by (simp add: sys_eval)
  then obtain t where r: "sys_reach demoKey [demoAnn] (foldl (sys_step demoKey) (sysInit [demoAnn] (uiClock 0 ''08:00'')) uiSession) t"
    using sys_reach_from_init by blast
  have "sysDash (foldl (sys_step demoKey) (sysInit [demoAnn] (uiClock 0 ''08:00'')) uiSession) \<noteq> None"
    by (simp add: sys_eval)
  with ui_refines_app [OF r] show ?thesis by blast
qed

theorem ui_log_one_row_per_student_witness:
  "distinct (map studentId (filteredAttendance ''2025-09-01''
     (appAttendance (sysApp (foldl (sys_step demoKey) (sysInit [demoAnn] (uiClock 0 ''08:00'')) uiSession))))) \<and>
   length (filteredAttendance ''2025-09-01''
     (appAttendance (sysApp (foldl (sys_step demoKey) (sysInit [demoAnn] (uiClock 0 ''08:00'')) uiSession)))) = 1"
proof -
  have "sys_valid demoKey 0 uiSession (sysInit [demoAnn] (uiClock 0 ''08:00''))" by (simp add: sys_eval)
  then obtain t where r: "sys_reach demoKey [demoAnn] (foldl (sys_step demoKey) (sysInit [demoAnn] (uiClock 0 ''08:00'')) uiSession) t"
    using sys_reach_from_init by blast
  have d: "sysDash (foldl (sys_step demoKey) (sysInit [demoAnn] (uiClock 0 ''08:00'')) uiSession) =
      Some (dashMount (uiClock 11000 ''09:01''))" by (simp add: sys_eval)
  from ui_log_one_row_per_student [OF r d] show ?thesis by (simp add: sys_eval)
qed

text \<open>Claim C39: an edit whose student was deleted while the modal was open is lost
  without a word: the save reaches \<open>handleSaveStudent\<close> with the deleted identifier, the
  roster stays without the student, and the modal closes as after a successful save.\<close>

theorem edit_after_delete_lost:
  "\<exists>t. sys_reach demoKey [demoAnn]
        (foldl (sys_step demoKey) (sysInit [demoAnn] (uiClock 9000 ''09:00'')) editAfterDelete) t \<and>
      appStudents (sysApp (foldl (sys_step demoKey) (sysInit [demoAnn] (uiClock 9000 ''09:00'')) editAfterDelete)) = [] \<and>
      sysDash (foldl (sys_step demoKey) (sysInit [demoAnn] (uiClock 9000 ''09:00'')) editAfterDelete) =
        Some (dashMount (uiClock 9000 ''09:00''))"
proof -
  have "sys_valid demoKey 0 editAfterDelete (sysInit [demoAnn] (uiClock 9000 ''09:00''))" by (simp add: sys_eval)
  then show ?thesis using sys_reach_from_init by (fastforce simp: sys_eval)
qed

end
